(* ===== verification/Prelude.thy ===== *)
theory Prelude
  imports Main "HOL-Library.Word" "HOL-Library.State_Monad"
begin

text \<open>
  Shared material of the development: the collections of rewrite rules, bytes and byte orders
  (Go's \<open>encoding/binary\<close>), writes into a slice (Go's \<open>copy\<close>), the outcome type of a
  Go function that may return an error or panic, and the interface of a self-delimiting wire
  format with the lemma that decodes a whole buffer of frames.
\<close>

named_theorems go_simps \<open>unfolding rules of the modelled Go library functions\<close>
named_theorems wire_simps \<open>rules that evaluate wire encodings\<close>
named_theorems io_simps \<open>rules that run monadic operations\<close>

type_synonym byte = "8 word"
type_synonym bytes = "8 word list"


section \<open>Outcomes of Go functions\<close>

text \<open>
  A Go error is an errno of the kernel, a text made by \<open>fmt.Errorf\<close>, or a wrapped error
  (\<open>%w\<close>). A function returns a value, an error, or panics (an index or slice out of range).
  A loop that waits for the outside world is given fuel; \<open>Hang\<close> means the fuel ran out, that is,
  the function has not returned.
\<close>

datatype goerr = Errno int | Text string | Wrap string goerr

datatype 'a res = Ok 'a | Err goerr | Panic | Hang

fun is_ok :: "'a res \<Rightarrow> bool" where
  "is_ok (Ok _) = True"
| "is_ok _ = False"

fun wrap_err :: "string \<Rightarrow> 'a res \<Rightarrow> 'a res" where
  "wrap_err s (Err e) = Err (Wrap s e)"
| "wrap_err s r = r"

lemma wrap_err_Ok [simp]: "wrap_err s r = Ok a \<longleftrightarrow> r = Ok a"
  by (cases r) auto

lemma wrap_err_Panic [simp]: "wrap_err s r = Panic \<longleftrightarrow> r = Panic"
  by (cases r) auto

lemma wrap_err_Hang [simp]: "wrap_err s r = Hang \<longleftrightarrow> r = Hang"
  by (cases r) auto


section \<open>Byte orders\<close>

definition le16 :: "16 word \<Rightarrow> bytes" where
  "le16 w = [ucast w, ucast (drop_bit 8 w)]"

definition le32 :: "32 word \<Rightarrow> bytes" where
  "le32 w = [ucast w, ucast (drop_bit 8 w), ucast (drop_bit 16 w), ucast (drop_bit 24 w)]"

definition be16 :: "16 word \<Rightarrow> bytes" where
  "be16 w = [ucast (drop_bit 8 w), ucast w]"

definition be32 :: "32 word \<Rightarrow> bytes" where
  "be32 w = [ucast (drop_bit 24 w), ucast (drop_bit 16 w), ucast (drop_bit 8 w), ucast w]"

fun get_le16 :: "bytes \<Rightarrow> 16 word" where
  "get_le16 (a # b # _) = or (ucast a) (push_bit 8 (ucast b))"
| "get_le16 _ = 0"

fun get_le32 :: "bytes \<Rightarrow> 32 word" where
  "get_le32 (a # b # c # d # _) =
     or (or (ucast a) (push_bit 8 (ucast b))) (or (push_bit 16 (ucast c)) (push_bit 24 (ucast d)))"
| "get_le32 _ = 0"

fun get_be32 :: "bytes \<Rightarrow> 32 word" where
  "get_be32 (a # b # c # d # _) =
     or (or (push_bit 24 (ucast a)) (push_bit 16 (ucast b))) (or (push_bit 8 (ucast c)) (ucast d))"
| "get_be32 _ = 0"

lemma length_le16 [simp]: "length (le16 w) = 2"
  by (simp add: le16_def)

lemma length_le32 [simp]: "length (le32 w) = 4"
  by (simp add: le32_def)

lemma length_be16 [simp]: "length (be16 w) = 2"
  by (simp add: be16_def)

lemma length_be32 [simp]: "length (be32 w) = 4"
  by (simp add: be32_def)

text \<open>A fixed-width byte order: a writer, a reader, and the law that reading gives back what was
  written, whatever follows.\<close>

locale byte_order =
  fixes put :: "'w \<Rightarrow> bytes" and get :: "bytes \<Rightarrow> 'w" and width :: nat
  assumes put_width: "length (put w) = width"
    and get_put: "get (put w @ rest) = w"
begin

lemma get_put_exact: "get (put w) = w"
  using get_put [of w "[]"] by simp

lemma put_inject: "put v = put w \<longleftrightarrow> v = w"
  by (metis get_put_exact)

lemma put_append_inject: "put v @ xs = put w @ ys \<longleftrightarrow> v = w \<and> xs = ys"
proof
  assume eq: "put v @ xs = put w @ ys"
  then have "v = w" by (metis get_put)
  with eq show "v = w \<and> xs = ys" by simp
qed simp

lemma put_take_drop: "take width (put w @ xs) = put w" "drop width (put w @ xs) = xs"
  using put_width [of w] by simp_all

end

interpretation le16: byte_order le16 get_le16 2
proof
  fix w :: "16 word" and rest
  show "get_le16 (le16 w @ rest) = w"
    unfolding le16_def by (rule bit_word_eqI) (auto simp: bit_simps)
qed simp

lemma nat_below_32_split:
  fixes n :: nat
  assumes "n < 32"
  shows "n < 8 \<or> (8 \<le> n \<and> n < 16) \<or> (16 \<le> n \<and> n < 24) \<or> (24 \<le> n \<and> n < 32)"
  using assms by arith

interpretation le32: byte_order le32 get_le32 4
proof
  fix w :: "32 word" and rest
  show "get_le32 (le32 w @ rest) = w"
    unfolding le32_def
  proof (rule bit_word_eqI)
    fix n assume "n < LENGTH(32)"
    then have "n < 32" by simp
    from nat_below_32_split [OF this]
    show "bit (get_le32 ([ucast w, ucast (drop_bit 8 w), ucast (drop_bit 16 w), ucast (drop_bit 24 w)] @ rest)) n = bit w n"
      by (elim disjE conjE) (auto simp: bit_simps dest: bit_imp_le_length)
  qed
qed simp

interpretation be32: byte_order be32 get_be32 4
proof
  fix w :: "32 word" and rest
  show "get_be32 (be32 w @ rest) = w"
    unfolding be32_def
  proof (rule bit_word_eqI)
    fix n assume "n < LENGTH(32)"
    then have "n < 32" by simp
    from nat_below_32_split [OF this]
    show "bit (get_be32 ([ucast (drop_bit 24 w), ucast (drop_bit 16 w), ucast (drop_bit 8 w), ucast w] @ rest)) n = bit w n"
      by (elim disjE conjE) (auto simp: bit_simps dest: bit_imp_le_length)
  qed
qed simp

lemmas get_put_simps [simp, wire_simps] =
  le16.get_put le16.get_put_exact le32.get_put le32.get_put_exact
  be32.get_put be32.get_put_exact

text \<open>Reading and writing also cancel the other way round on four bytes.\<close>

lemma be32_get_be32:
  assumes "length bs = 4"
  shows "be32 (get_be32 bs) = bs"
proof -
  obtain a b c d where bs: "bs = [a, b, c, d]"
    using assms by (auto simp: numeral_eq_Suc length_Suc_conv)
  show ?thesis unfolding bs be32_def
    by (simp, intro conjI; rule bit_word_eqI) (auto simp: bit_simps dest: bit_imp_le_length)
qed

lemma le32_get_le32:
  assumes "length bs = 4"
  shows "le32 (get_le32 bs) = bs"
proof -
  obtain a b c d where bs: "bs = [a, b, c, d]"
    using assms by (auto simp: numeral_eq_Suc length_Suc_conv)
  show ?thesis unfolding bs le32_def
    by (simp, intro conjI; rule bit_word_eqI) (auto simp: bit_simps dest: bit_imp_le_length)
qed


section \<open>Writes into a slice\<close>

text \<open>
  \<open>copy(dst[lo:hi], src)\<close>: the first \<open>min (len src) (hi - lo)\<close> bytes of \<open>src\<close> land at
  offset \<open>lo\<close>; the rest of \<open>dst\<close> is unchanged.
\<close>

definition copy_range :: "nat \<Rightarrow> nat \<Rightarrow> 'a list \<Rightarrow> 'a list \<Rightarrow> 'a list" where
  "copy_range lo hi src dst =
     take lo dst @ take (hi - lo) src @ drop (lo + min (length src) (hi - lo)) dst"

lemma length_copy_range [simp]:
  "lo \<le> hi \<Longrightarrow> hi \<le> length dst \<Longrightarrow> length (copy_range lo hi src dst) = length dst"
  by (simp add: copy_range_def)

lemma take_copy_range:
  "n \<le> lo \<Longrightarrow> lo \<le> length dst \<Longrightarrow> take n (copy_range lo hi src dst) = take n dst"
  by (simp add: copy_range_def min_def)

lemma drop_copy_range:
  "hi \<le> n \<Longrightarrow> lo \<le> hi \<Longrightarrow> hi \<le> length dst \<Longrightarrow> drop n (copy_range lo hi src dst) = drop n dst"
proof -
  assume a: "hi \<le> n" "lo \<le> hi" "hi \<le> length dst"
  let ?k = "min (length src) (hi - lo)"
  have "drop n (copy_range lo hi src dst) = drop (n - (lo + ?k)) (drop (lo + ?k) dst)"
    using a by (simp add: copy_range_def)
  also have "\<dots> = drop n dst" using a by simp
  finally show ?thesis .
qed

text \<open>Filling a zeroed buffer field by field.\<close>

lemma copy_range_fill:
  "length xs = lo \<Longrightarrow> lo + length src = hi \<Longrightarrow>
     copy_range lo hi src (xs @ replicate n z) = (xs @ src) @ replicate (n - length src) z"
  by (auto simp: copy_range_def)

lemma copy_range_fill_first:
  "length src = hi \<Longrightarrow> copy_range 0 hi src (replicate n z) = src @ replicate (n - length src) z"
  by (auto simp: copy_range_def)

text \<open>Overwriting one field of a buffer given as the list of its fields.\<close>

lemma copy_range_field:
  "length xs = lo \<Longrightarrow> length ys = length src \<Longrightarrow> lo + length src = hi \<Longrightarrow>
     copy_range lo hi src (xs @ ys @ zs) = xs @ src @ zs"
  by (auto simp: copy_range_def)

lemma nth_copy_range_inside:
  assumes "lo \<le> i" "i < lo + length src" "lo + length src \<le> hi" "hi \<le> length dst"
  shows "copy_range lo hi src dst ! i = src ! (i - lo)"
proof -
  have "i - lo < length src" using assms by arith
  then show ?thesis using assms by (simp add: copy_range_def nth_append min_def)
qed

lemma nth_copy_range_outside:
  assumes "i < lo \<or> hi \<le> i" "lo \<le> hi" "hi \<le> length dst" "i < length dst"
  shows "copy_range lo hi src dst ! i = dst ! i"
proof (cases "i < lo")
  case True
  then show ?thesis using assms by (simp add: copy_range_def nth_append)
next
  case False
  then have le: "hi \<le> i" using assms by simp
  have "copy_range lo hi src dst ! i = drop i (copy_range lo hi src dst) ! 0"
    using assms by simp
  also have "\<dots> = dst ! i" using assms le by (simp add: drop_copy_range)
  finally show ?thesis .
qed


section \<open>Lists\<close>

lemma find_append:
  "find P (xs @ ys) = (case find P xs of None \<Rightarrow> find P ys | Some x \<Rightarrow> Some x)"
  by (induction xs) auto


section \<open>Self-delimiting frames\<close>

text \<open>
  The interface of a wire format whose frames carry their own length: an encoder, a decoder that
  takes one frame off the front of a buffer, and the values the encoder represents. From the one
  law that decoding undoes encoding, a buffer of frames decodes to the encoded values.
\<close>

fun decode_all :: "('b list \<Rightarrow> ('a \<times> 'b list) option) \<Rightarrow> nat \<Rightarrow> 'b list \<Rightarrow> 'a list option" where
  "decode_all dec fuel [] = Some []"
| "decode_all dec 0 (b # bs) = None"
| "decode_all dec (Suc fuel) (b # bs) =
     (case dec (b # bs) of
        None \<Rightarrow> None
      | Some (a, rest) \<Rightarrow> map_option (Cons a) (decode_all dec fuel rest))"

locale framing =
  fixes enc :: "'a \<Rightarrow> 'b list" and dec :: "'b list \<Rightarrow> ('a \<times> 'b list) option" and ok :: "'a \<Rightarrow> bool"
  assumes enc_nonempty: "enc a \<noteq> []"
    and dec_enc: "ok a \<Longrightarrow> dec (enc a @ rest) = Some (a, rest)"
begin

lemma decode_all_concat:
  assumes "\<forall>a \<in> set as. ok a" and "length as \<le> fuel"
  shows "decode_all dec fuel (concat (map enc as)) = Some as"
  using assms
proof (induction as arbitrary: fuel)
  case Nil
  then show ?case by simp
next
  case (Cons a as)
  then obtain m where m: "fuel = Suc m" and le: "length as \<le> m" by (cases fuel) auto
  obtain b bs where ne: "enc a = b # bs" using enc_nonempty [of a] by (cases "enc a") auto
  have d: "dec (b # bs @ concat (map enc as)) = Some (a, concat (map enc as))"
    using dec_enc [of a "concat (map enc as)"] Cons.prems(1) ne by simp
  show ?case using Cons.IH [OF _ le] Cons.prems(1) by (simp add: m ne d)
qed

lemma enc_inject:
  "ok a \<Longrightarrow> ok b \<Longrightarrow> enc a = enc b \<Longrightarrow> a = b"
  by (metis append_Nil2 dec_enc option.inject prod.inject)

lemma concat_enc_inject:
  assumes "\<forall>a \<in> set as. ok a" "\<forall>b \<in> set bs. ok b"
    and "concat (map enc as) = concat (map enc bs)"
  shows "as = bs"
proof -
  let ?n = "length as + length bs"
  have "decode_all dec ?n (concat (map enc as)) = Some as"
    by (rule decode_all_concat [OF assms(1)]) simp
  moreover have "decode_all dec ?n (concat (map enc bs)) = Some bs"
    by (rule decode_all_concat [OF assms(2)]) simp
  ultimately show ?thesis unfolding assms(3) by (rule option.inject [THEN iffD1, OF trans [OF sym]])
qed

end

end
