(* ===== verification/GoLib.thy ===== *)
theory GoLib
  imports Prelude
begin

text \<open>
  The parts of the Go standard library the program computes with: \<open>strings\<close>, \<open>strconv\<close>,
  \<open>path/filepath\<close> and the IPv4 addresses of \<open>net\<close>. A Go string is a \<^typ>\<open>string\<close>, one
  \<^typ>\<open>char\<close> per byte. White space and letter case are the ASCII ones: the program's inputs
  (boot arguments, mount options, fstab lines, OCI arguments) are ASCII.
\<close>

section \<open>strings\<close>

definition hasPrefix :: "string \<Rightarrow> string \<Rightarrow> bool" where
  "hasPrefix s p \<longleftrightarrow> take (length p) s = p"

definition hasSuffix :: "string \<Rightarrow> string \<Rightarrow> bool" where
  "hasSuffix s p \<longleftrightarrow> length p \<le> length s \<and> drop (length s - length p) s = p"

definition trimPrefix :: "string \<Rightarrow> string \<Rightarrow> string" where
  "trimPrefix s p = (if hasPrefix s p then drop (length p) s else s)"

fun contains :: "string \<Rightarrow> string \<Rightarrow> bool" where
  "contains [] sub = (sub = [])"
| "contains (c # s) sub = (hasPrefix (c # s) sub \<or> contains s sub)"

text \<open>\<open>strings.Split(s, sep)\<close> for a separator of one byte: never empty, and the parts are the
  stretches between separators.\<close>

fun split_on :: "char \<Rightarrow> string \<Rightarrow> string list" where
  "split_on c [] = [[]]"
| "split_on c (x # xs) =
     (if x = c then [] # split_on c xs
      else (case split_on c xs of [] \<Rightarrow> [[x]] | y # ys \<Rightarrow> (x # y) # ys))"

fun join_with :: "string \<Rightarrow> string list \<Rightarrow> string" where
  "join_with sep [] = []"
| "join_with sep [x] = x"
| "join_with sep (x # y # ys) = x @ sep @ join_with sep (y # ys)"

definition is_space :: "char \<Rightarrow> bool" where
  "is_space c \<longleftrightarrow> c \<in> {CHR '' '', CHR 0x09, CHR 0x0A, CHR 0x0B, CHR 0x0C, CHR 0x0D}"

definition trimLeftSpace :: "string \<Rightarrow> string" where
  "trimLeftSpace s = dropWhile is_space s"

definition trimSpace :: "string \<Rightarrow> string" where
  "trimSpace s = rev (dropWhile is_space (rev (dropWhile is_space s)))"

text \<open>\<open>strings.TrimRight(s, cutset)\<close> for a cutset of one byte.\<close>

definition trimRight :: "char \<Rightarrow> string \<Rightarrow> string" where
  "trimRight c s = rev (dropWhile ((=) c) (rev s))"

text \<open>\<open>strings.Fields\<close>: the maximal stretches without white space.\<close>

fun fields_acc :: "string \<Rightarrow> string \<Rightarrow> string list" where
  "fields_acc [] w = (if w = [] then [] else [rev w])"
| "fields_acc (c # cs) w =
     (if is_space c then (if w = [] then fields_acc cs [] else rev w # fields_acc cs [])
      else fields_acc cs (c # w))"

definition str_fields :: "string \<Rightarrow> string list" where
  "str_fields s = fields_acc s []"

definition upper_char :: "char \<Rightarrow> char" where
  "upper_char c = (if 97 \<le> (of_char c :: nat) \<and> (of_char c :: nat) \<le> 122
                   then char_of ((of_char c :: nat) - 32) else c)"

definition toUpper :: "string \<Rightarrow> string" where
  "toUpper s = map upper_char s"

definition equalFold :: "string \<Rightarrow> string \<Rightarrow> bool" where
  "equalFold s t \<longleftrightarrow> toUpper s = toUpper t"

fun indexByte :: "string \<Rightarrow> char \<Rightarrow> nat option" where
  "indexByte [] c = None"
| "indexByte (x # xs) c = (if x = c then Some 0 else map_option Suc (indexByte xs c))"

lemma hasPrefix_append [simp, go_simps]: "hasPrefix (p @ s) p"
  by (simp add: hasPrefix_def)

lemma hasPrefixE: "hasPrefix s p \<Longrightarrow> \<exists>t. s = p @ t"
  unfolding hasPrefix_def by (metis append_take_drop_id)

lemma trimPrefix_append [simp, go_simps]: "trimPrefix (p @ s) p = s"
  by (simp add: trimPrefix_def)

lemma split_on_nonempty [simp]: "split_on c s \<noteq> []"
  by (induction s) (auto split: list.splits)

lemma join_with_Cons:
  "ys \<noteq> [] \<Longrightarrow> join_with sep (x # ys) = x @ sep @ join_with sep ys"
  by (cases ys) auto

lemma join_split: "join_with [c] (split_on c s) = s"
proof (induction s)
  case Nil
  then show ?case by simp
next
  case (Cons a s)
  obtain y ys where y: "split_on c s = y # ys"
    using split_on_nonempty [of c s] by (cases "split_on c s") auto
  show ?case using Cons y by (cases ys) auto
qed

lemma split_on_no_sep: "c \<notin> set s \<Longrightarrow> split_on c s = [s]"
  by (induction s) auto

lemma split_on_append_sep:
  "c \<notin> set x \<Longrightarrow> split_on c (x @ c # s) = x # split_on c s"
  by (induction x) auto

lemma split_join:
  assumes "xs \<noteq> []" and "\<forall>x \<in> set xs. c \<notin> set x"
  shows "split_on c (join_with [c] xs) = xs"
  using assms
proof (induction xs rule: list_nonempty_induct)
  case (single x)
  then show ?case by (simp add: split_on_no_sep)
next
  case (cons x xs)
  then show ?case by (simp add: join_with_Cons split_on_append_sep)
qed

lemma split_on_parts_free: "x \<in> set (split_on c s) \<Longrightarrow> c \<notin> set x"
proof (induction s arbitrary: x)
  case Nil
  then show ?case by simp
next
  case (Cons a s)
  then show ?case by (auto split: if_splits list.splits)
qed

lemma fields_acc_words:
  "list_all (\<lambda>c. \<not> is_space c) w \<Longrightarrow>
     list_all (\<lambda>x. x \<noteq> [] \<and> list_all (\<lambda>c. \<not> is_space c) x) (fields_acc s w)"
  by (induction s w rule: fields_acc.induct) simp_all

lemma fields_words: "x \<in> set (str_fields s) \<Longrightarrow> x \<noteq> [] \<and> (\<forall>c \<in> set x. \<not> is_space c)"
  using fields_acc_words [of "[]" s] by (auto simp: str_fields_def list_all_iff)


text \<open>Words separated by single spaces: splitting recovers them and trimming changes nothing.\<close>

definition is_word :: "string \<Rightarrow> bool" where
  "is_word w \<longleftrightarrow> w \<noteq> [] \<and> list_all (\<lambda>c. \<not> is_space c) w"

lemma fields_acc_word:
  "list_all (\<lambda>c. \<not> is_space c) w \<Longrightarrow> fields_acc (w @ s) acc = fields_acc s (rev w @ acc)"
  by (induction w arbitrary: acc) auto

lemma is_space_blank [simp]: "is_space (CHR '' '')"
  by (simp add: is_space_def)

lemma str_fields_join:
  "list_all is_word ws \<Longrightarrow> str_fields (join_with '' '' ws) = ws"
proof (induction ws rule: induct_list012)
  case 1
  then show ?case by (simp add: str_fields_def)
next
  case (2 w)
  then show ?case using fields_acc_word [of w "[]" "[]"] by (auto simp: str_fields_def is_word_def)
next
  case (3 w v ws)
  then show ?case using fields_acc_word [of w "CHR '' '' # join_with '' '' (v # ws)" "[]"]
    by (auto simp: str_fields_def is_word_def)
qed

lemma is_word_hd_last: "is_word w \<Longrightarrow> \<not> is_space (hd w) \<and> \<not> is_space (last w)"
  by (auto simp: is_word_def list_all_iff)

lemma join_with_last: "ws \<noteq> [] \<Longrightarrow> list_all is_word ws \<Longrightarrow>
    join_with '' '' ws \<noteq> [] \<and> hd (join_with '' '' ws) = hd (hd ws) \<and>
    last (join_with '' '' ws) = last (last ws)"
proof (induction ws rule: induct_list012)
  case (3 w v ws)
  then show ?case by (auto simp: is_word_def)
qed (auto simp: is_word_def)

lemma trimSpace_fixed:
  assumes "s \<noteq> []" "\<not> is_space (hd s)" "\<not> is_space (last s)"
  shows "trimSpace s = s"
proof -
  have "dropWhile is_space s = s" using assms by (cases s) auto
  moreover have "dropWhile is_space (rev s) = rev s"
    using assms by (cases s rule: rev_cases) auto
  ultimately show ?thesis by (simp add: trimSpace_def)
qed

lemma trimSpace_join:
  assumes "ws \<noteq> []" "list_all is_word ws"
  shows "trimSpace (join_with '' '' ws) = join_with '' '' ws"
proof (rule trimSpace_fixed)
  have "is_word (hd ws)" "is_word (last ws)" using assms by (auto simp: list_all_iff)
  then show "\<not> is_space (hd (join_with '' '' ws))" "\<not> is_space (last (join_with '' '' ws))"
    using join_with_last [OF assms] is_word_hd_last by auto
qed (use join_with_last [OF assms] in simp)


section \<open>strconv\<close>

definition is_digit :: "char \<Rightarrow> bool" where
  "is_digit c \<longleftrightarrow> 48 \<le> (of_char c :: nat) \<and> (of_char c :: nat) \<le> 57"

definition digit_val :: "char \<Rightarrow> int" where
  "digit_val c = int (of_char c) - 48"

definition digit_char :: "nat \<Rightarrow> char" where
  "digit_char d = char_of (48 + d)"

definition digits_val :: "string \<Rightarrow> int" where
  "digits_val s = foldl (\<lambda>n c. 10 * n + digit_val c) 0 s"

fun nat_digits :: "nat \<Rightarrow> string" where
  "nat_digits n = (if n < 10 then [digit_char n] else nat_digits (n div 10) @ [digit_char (n mod 10)])"

declare nat_digits.simps [simp del]

definition itoa :: "int \<Rightarrow> string" where
  "itoa n = (if n < 0 then CHR ''-'' # nat_digits (nat (- n)) else nat_digits (nat n))"

text \<open>\<open>strconv.Atoi\<close>: an optional sign, at least one digit, and a value that fits an int64.\<close>

definition atoi_digits :: "bool \<Rightarrow> string \<Rightarrow> int option" where
  "atoi_digits neg s =
     (if s = [] \<or> \<not> list_all is_digit s then None
      else let n = (if neg then - digits_val s else digits_val s)
           in if - (2 ^ 63) \<le> n \<and> n < 2 ^ 63 then Some n else None)"

definition atoi :: "string \<Rightarrow> int option" where
  "atoi s = (case s of
       [] \<Rightarrow> None
     | c # cs \<Rightarrow> if c = CHR ''-'' then atoi_digits True cs
                else if c = CHR ''+'' then atoi_digits False cs
                else atoi_digits False s)"

lemma of_char_digit_char: "d < 10 \<Longrightarrow> of_char (digit_char d) = (48 + d :: nat)"
  by (simp add: digit_char_def)

lemma digit_char_is_digit: "d < 10 \<Longrightarrow> is_digit (digit_char d)"
  by (simp add: is_digit_def of_char_digit_char)

lemma digit_val_digit_char: "d < 10 \<Longrightarrow> digit_val (digit_char d) = int d"
  by (simp add: digit_val_def of_char_digit_char)

lemma is_digit_not_sign: "is_digit c \<Longrightarrow> c \<noteq> CHR ''-'' \<and> c \<noteq> CHR ''+''"
  by (auto simp: is_digit_def)

lemmas digit_char_facts = digit_char_is_digit digit_val_digit_char

lemma nat_digits_nonempty [simp]: "nat_digits n \<noteq> []"
  by (subst nat_digits.simps) simp

lemma nat_digits_all: "list_all is_digit (nat_digits n)"
proof (induction n rule: nat_digits.induct)
  case (1 n)
  then show ?case
    by (subst nat_digits.simps) (simp add: digit_char_facts)
qed

lemma nat_digits_val: "digits_val (nat_digits n) = int n"
proof (induction n rule: nat_digits.induct)
  case (1 n)
  then show ?case
    by (subst nat_digits.simps) (auto simp: digits_val_def digit_char_facts zdiv_int zmod_int)
qed

lemma nat_digits_sign_free: "c \<in> set (nat_digits n) \<Longrightarrow> c \<noteq> CHR ''-'' \<and> c \<noteq> CHR ''+''"
  using nat_digits_all [of n] is_digit_not_sign by (auto simp: list_all_iff)

lemma nat_digits_hd: "0 < n \<Longrightarrow> hd (nat_digits n) \<noteq> CHR ''0''"
proof (induction n rule: nat_digits.induct)
  case (1 n)
  show ?case
  proof (cases "n < 10")
    case True
    have "(of_char (digit_char n) :: nat) \<noteq> of_char (CHR ''0'')"
      using True "1.prems" by (simp add: of_char_digit_char)
    then have "digit_char n \<noteq> CHR ''0''" by metis
    with True show ?thesis by (subst nat_digits.simps) simp
  next
    case False
    then have "hd (nat_digits (n div 10)) \<noteq> CHR ''0''" using "1.IH" by simp
    with False show ?thesis by (subst nat_digits.simps) simp
  qed
qed

lemma nat_digits_length: "n < 1000 \<Longrightarrow> length (nat_digits n) \<le> 3"
  by (subst nat_digits.simps, subst nat_digits.simps, subst nat_digits.simps) simp

lemma nat_digits_small: "n < 10 \<Longrightarrow> length (nat_digits n) = 1"
  by (subst nat_digits.simps) simp

text \<open>Printing and reading a decimal are inverse on the range of an int.\<close>

lemma atoi_itoa:
  assumes "- (2 ^ 63) \<le> n" and "n < 2 ^ 63"
  shows "atoi (itoa n) = Some n"
proof (cases "n < 0")
  case True
  then show ?thesis using assms
    by (simp add: atoi_def itoa_def atoi_digits_def nat_digits_all nat_digits_val)
next
  case False
  obtain c cs where d: "nat_digits (nat n) = c # cs"
    using nat_digits_nonempty [of "nat n"] by (cases "nat_digits (nat n)") auto
  have "c \<noteq> CHR ''-''" "c \<noteq> CHR ''+''"
    using nat_digits_sign_free [of c "nat n"] d by auto
  then show ?thesis using assms False nat_digits_all [of "nat n"] nat_digits_val [of "nat n"]
    by (simp add: atoi_def itoa_def atoi_digits_def d)
qed


section \<open>path/filepath\<close>

definition isAbs :: "string \<Rightarrow> bool" where
  "isAbs p \<longleftrightarrow> hasPrefix p ''/''"

fun clean_step :: "bool \<Rightarrow> string list \<Rightarrow> string \<Rightarrow> string list" where
  "clean_step rooted st el =
     (if el = [] \<or> el = ''.'' then st
      else if el = ''..'' then
        (case st of
           [] \<Rightarrow> if rooted then [] else [''..'']
         | t # below \<Rightarrow> if t = ''..'' then ''..'' # st else below)
      else el # st)"

text \<open>\<open>filepath.Clean\<close>, with the components kept on a stack (last one first).\<close>

definition path_clean :: "string \<Rightarrow> string" where
  "path_clean p =
     (let st = foldl (clean_step (isAbs p)) [] (split_on (CHR ''/'') p);
          body = join_with ''/'' (rev st)
      in if isAbs p then CHR ''/'' # body else if body = [] then ''.'' else body)"

definition path_join :: "string list \<Rightarrow> string" where
  "path_join ps = (let qs = filter (\<lambda>p. p \<noteq> []) ps
                   in if qs = [] then [] else path_clean (join_with ''/'' qs))"

text \<open>\<open>filepath.Base\<close>.\<close>

definition path_base :: "string \<Rightarrow> string" where
  "path_base p =
     (if p = [] then ''.''
      else let q = trimRight (CHR ''/'') p
           in if q = [] then ''/'' else last (split_on (CHR ''/'') q))"


section \<open>IPv4 addresses of net\<close>

text \<open>
  A \<open>net.IP\<close> is nil, four bytes, or sixteen bytes; \<open>To4\<close> gives the four bytes of an IPv4
  address in either form. The addresses the program makes are IPv4.
\<close>

type_synonym ip = "bytes option"

definition v4_in_v6_prefix :: bytes where
  "v4_in_v6_prefix = replicate 10 0 @ [255, 255]"

definition to4 :: "ip \<Rightarrow> ip" where
  "to4 a = (case a of
       None \<Rightarrow> None
     | Some bs \<Rightarrow> if length bs = 4 then Some bs
                 else if length bs = 16 \<and> take 12 bs = v4_in_v6_prefix then Some (drop 12 bs)
                 else None)"

definition isUnspecified :: "ip \<Rightarrow> bool" where
  "isUnspecified a = (case a of
       None \<Rightarrow> False
     | Some bs \<Rightarrow> bs = replicate 4 0 \<or> bs = replicate 16 0 \<or> bs = v4_in_v6_prefix @ replicate 4 0)"

lemma to4_length: "to4 a = Some bs \<Longrightarrow> length bs = 4"
  by (auto simp: to4_def split: option.splits if_splits)

lemma to4_four [simp, go_simps]: "length bs = 4 \<Longrightarrow> to4 (Some bs) = Some bs"
  by (simp add: to4_def)

lemma to4_None [simp, go_simps]: "to4 None = None"
  by (simp add: to4_def)

lemma to4_idem: "to4 a = Some v \<Longrightarrow> to4 (Some v) = Some v"
  by (auto dest: to4_length)

text \<open>\<open>net.ParseIP\<close> on dotted quads: four decimal numbers of at most three digits without a
  leading zero, each at most 255. (Addresses with a colon parse to a 16-byte address, which the
  program rejects through \<open>To4\<close>; they are no address here.)\<close>

definition parse_octet :: "string \<Rightarrow> byte option" where
  "parse_octet s =
     (if s = [] \<or> length s > 3 \<or> \<not> list_all is_digit s \<or> (length s > 1 \<and> hd s = CHR ''0'') then None
      else if digits_val s > 255 then None else Some (word_of_int (digits_val s)))"

definition parseIP :: "string \<Rightarrow> ip" where
  "parseIP s = (case map parse_octet (split_on (CHR ''.'') s) of
       [Some a, Some b, Some c, Some d] \<Rightarrow> Some [a, b, c, d]
     | _ \<Rightarrow> None)"

definition octet_str :: "byte \<Rightarrow> string" where
  "octet_str b = nat_digits (unat b)"

definition ip4_str :: "bytes \<Rightarrow> string" where
  "ip4_str bs = join_with ''.'' (map octet_str bs)"

text \<open>\<open>IP.String()\<close> of an IPv4 address (in either form).\<close>

definition ip_string :: "ip \<Rightarrow> string" where
  "ip_string a = (case to4 a of None \<Rightarrow> ''<nil>'' | Some v \<Rightarrow> ip4_str v)"

lemma parse_octet_octet_str: "parse_octet (octet_str b) = Some b"
proof -
  have lt: "unat b < 256" using unsigned_less [of b] by simp
  have "uint b < 2 ^ LENGTH(8)" by (rule unsigned_less)
  then have le: "uint b \<le> 255" by simp
  from lt have "length (nat_digits (unat b)) \<le> 3" by (intro nat_digits_length) simp
  moreover have "length (nat_digits (unat b)) > 1 \<Longrightarrow> hd (nat_digits (unat b)) \<noteq> CHR ''0''"
    using nat_digits_hd [of "unat b"] nat_digits_small [of "unat b"] by (cases "unat b") auto
  moreover have "(word_of_int (int (unat b)) :: byte) = b" by simp
  ultimately show ?thesis using le
    by (auto simp: parse_octet_def octet_str_def nat_digits_all nat_digits_val)
qed

lemma digit_not_dot: "is_digit c \<Longrightarrow> c \<noteq> CHR ''.''"
  by (auto simp: is_digit_def)

lemma octet_str_no_dot: "CHR ''.'' \<notin> set (octet_str b)"
  using nat_digits_all [of "unat b"] digit_not_dot by (auto simp: octet_str_def list_all_iff)

lemma parseIP_ip4_str:
  assumes "length bs = 4"
  shows "parseIP (ip4_str bs) = Some bs"
proof -
  have "split_on (CHR ''.'') (ip4_str bs) = map octet_str bs"
    unfolding ip4_str_def by (rule split_join) (use assms octet_str_no_dot in auto)
  moreover obtain a b c d where "bs = [a, b, c, d]"
    using assms by (auto simp: numeral_eq_Suc length_Suc_conv)
  ultimately show ?thesis by (simp add: parseIP_def parse_octet_octet_str)
qed

lemma parseIP_length: "parseIP s = Some bs \<Longrightarrow> length bs = 4"
  by (auto simp: parseIP_def split: list.splits option.splits)

text \<open>\<open>IPMask.Size()\<close>: the number of leading ones of a mask that is a run of ones, else 0.\<close>

fun mask_ones :: "bool list \<Rightarrow> nat" where
  "mask_ones (True # bs) = Suc (mask_ones bs)"
| "mask_ones _ = 0"

definition mask_bits :: "bytes \<Rightarrow> bool list" where
  "mask_bits m = concat (map (\<lambda>b. map (bit b) (rev [0..<8])) m)"

definition mask_size :: "bytes option \<Rightarrow> nat" where
  "mask_size m = (case m of
       None \<Rightarrow> 0
     | Some bs \<Rightarrow> let bits = mask_bits bs; n = mask_ones bits
                 in if list_all Not (drop n bits) then n else 0)"

definition cidr_mask24 :: bytes where
  "cidr_mask24 = [255, 255, 255, 0]"

lemma mask_ones_le: "mask_ones bs \<le> length bs"
  by (induction bs rule: mask_ones.induct) auto

lemma length_mask_bits: "length (mask_bits m) = 8 * length m"
  by (induction m) (auto simp: mask_bits_def)

lemma mask_size_bound: "mask_size (Some m) \<le> 8 * length m"
  using mask_ones_le [of "mask_bits m"] by (simp add: mask_size_def length_mask_bits Let_def)

end
