(* ===== verification/OsModel.thy ===== *)
theory OsModel
  imports GoLib
begin

text \<open>
  The boundary between the program and the operating system. The kernel is not part of the
  repository's sources, so it is a parameter: a function from the history of calls made so far
  and the next call to the reply of that call. An operation of the program runs in the state
  monad over the history, so the order of its calls, the branches it takes on their replies and
  what it leaves undone after an error are all visible in the history. A reply of the wrong shape
  for a call is read as the error EIO. Console output and logging are not calls.
\<close>

section \<open>Calls and replies\<close>

datatype sockaddr = Inet4 bytes nat | NetlinkAddr

record proc_attr =
  pa_path :: string
  pa_argv :: "string list"
  pa_env :: "string list"
  pa_dir :: string
  pa_flags :: "64 word"
  pa_chroot :: string
  pa_cred :: "(32 word \<times> 32 word) option"
  pa_files :: "int list"
  pa_tty :: bool

text \<open>An instruction of a classic BPF program, as the seccomp call reads it.\<close>

record sockFilter =
  sf_code :: "16 word"
  sf_jt :: "8 word"
  sf_jf :: "8 word"
  sf_k :: "32 word"

text \<open>\<open>RunOutput a d\<close> runs a command and collects its output for at most \<open>d\<close> nanoseconds: \<open>ROut\<close> has
  its exit status, negative for a signal that killed it, and what it printed, \<open>RInt\<close> is the process that
  is still running at the end of the time. A negative \<open>d\<close> is no limit. \<open>Poke\<close> and \<open>Peek\<close> are the writes and reads of
  mapped memory, whose contents are the device's.\<close>

datatype (plugins only: code) call =
    Stat string
  | Lstat string
  | ReadFile string
  | WriteFile string string nat
  | OpenFile string "64 word"
  | Mkdir string
  | MkdirAll string
  | Remove string
  | RemoveAll string
  | Symlink string string
  | Mkfifo string
  | ReadDir string
  | Readdirnames string
  | CloseFd int
  | ReadFd int
  | WriteFd int string
  | MakePipe
  | Mount string string string "64 word" string
  | Unmount string "64 word"
  | PivotRoot string string
  | Chroot string
  | Chdir string
  | Sethostname string
  | Setns int "64 word"
  | Kill int int
  | ExecImage string "string list" "string list"
  | StartProcess proc_attr
  | WaitProc int
  | WaitFor int int
  | Prctl int int int int int
  | Ioctl int int
  | Socket nat nat nat
  | Bind int sockaddr
  | Sendto int bytes sockaddr
  | Recvfrom int nat
  | Connect int sockaddr
  | Getsockname int
  | SetNonblock int
  | Setsockopt int nat nat int
  | Accept int
  | Dial string bytes nat
  | ListenOn string bytes nat
  | ReadFrom int nat
  | WriteTo int string sockaddr
  | SetDeadline int int
  | Getwd
  | Executable
  | HttpGet string
  | DialUnix string
  | SendRights int int
  | Sync
  | Reboot nat
  | Setenv string string
  | Now
  | Sleep int
  | Chmod string nat
  | AwaitSignal
  | Pause
  | Getpid
  | GetHostname
  | RunOutput proc_attr int
  | RunMapped proc_attr "(int \<times> int \<times> int) list" "(int \<times> int \<times> int) list"
  | Seccomp nat nat "16 word" "sockFilter list"
  | Uname
  | Readlink string
  | Unshare "64 word"
  | Getuid
  | Getgid
  | Geteuid
  | Handshake int
  | PwriteFd int nat bytes
  | PreadFd int nat nat
  | Mmap int nat
  | Munmap int
  | Poke int nat bytes
  | Peek int nat nat
  | Mknod string nat nat

datatype reply =
    RErr int
  | RUnit
  | RInt int
  | RInts int int
  | RData string
  | RBytes bytes
  | RNames "string list"
  | RStat bool nat
  | RFrom string sockaddr
  | ROut int string

type_synonym hist = "(call \<times> reply) list"
type_synonym kernel = "hist \<Rightarrow> call \<Rightarrow> reply"
type_synonym 'a io = "(hist, 'a) state"

definition EPERM :: int where "EPERM = 1"
definition ENOENT :: int where "ENOENT = 2"
definition ESRCH :: int where "ESRCH = 3"
definition EIO :: int where "EIO = 5"
definition EAGAIN :: int where "EAGAIN = 11"
definition EEXIST :: int where "EEXIST = 17"
definition EINVAL :: int where "EINVAL = 22"

lemmas errno_defs = EPERM_def ENOENT_def ESRCH_def EIO_def EAGAIN_def EEXIST_def EINVAL_def


section \<open>Making a call\<close>

definition os :: "kernel \<Rightarrow> call \<Rightarrow> reply io" where
  "os K c = State (\<lambda>h. (K h c, h @ [(c, K h c)]))"

fun as_unit :: "reply \<Rightarrow> unit res" where
  "as_unit (RErr e) = Err (Errno e)"
| "as_unit _ = Ok ()"

fun as_int :: "reply \<Rightarrow> int res" where
  "as_int (RInt n) = Ok n"
| "as_int (RErr e) = Err (Errno e)"
| "as_int _ = Err (Errno EIO)"

fun as_pair :: "reply \<Rightarrow> (int \<times> int) res" where
  "as_pair (RInts a b) = Ok (a, b)"
| "as_pair (RErr e) = Err (Errno e)"
| "as_pair _ = Err (Errno EIO)"

fun as_data :: "reply \<Rightarrow> string res" where
  "as_data (RData s) = Ok s"
| "as_data (RErr e) = Err (Errno e)"
| "as_data _ = Err (Errno EIO)"

fun as_bytes :: "reply \<Rightarrow> bytes res" where
  "as_bytes (RBytes b) = Ok b"
| "as_bytes (RErr e) = Err (Errno e)"
| "as_bytes _ = Err (Errno EIO)"

fun as_names :: "reply \<Rightarrow> string list res" where
  "as_names (RNames ns) = Ok ns"
| "as_names (RErr e) = Err (Errno e)"
| "as_names _ = Err (Errno EIO)"

fun as_stat :: "reply \<Rightarrow> (bool \<times> nat) res" where
  "as_stat (RStat d m) = Ok (d, m)"
| "as_stat (RErr e) = Err (Errno e)"
| "as_stat _ = Err (Errno EIO)"

fun as_from :: "reply \<Rightarrow> (string \<times> sockaddr) res" where
  "as_from (RFrom s a) = Ok (s, a)"
| "as_from (RErr e) = Err (Errno e)"
| "as_from _ = Err (Errno EIO)"

definition os_as :: "(reply \<Rightarrow> 'a) \<Rightarrow> kernel \<Rightarrow> call \<Rightarrow> 'a io" where
  "os_as f K c = State_Monad.bind (os K c) (\<lambda>r. State_Monad.return (f r))"

abbreviation "os_unit \<equiv> os_as as_unit"
abbreviation "os_int \<equiv> os_as as_int"
abbreviation "os_pair \<equiv> os_as as_pair"
abbreviation "os_data \<equiv> os_as as_data"
abbreviation "os_bytes \<equiv> os_as as_bytes"
abbreviation "os_names \<equiv> os_as as_names"
abbreviation "os_stat \<equiv> os_as as_stat"
abbreviation "os_from \<equiv> os_as as_from"

text \<open>A call whose result the program discards (\<open>_ = os.Remove(...)\<close>).\<close>

definition os_ignore :: "kernel \<Rightarrow> call \<Rightarrow> unit io" where
  "os_ignore K c = os_as (\<lambda>_. ()) K c"

text \<open>\<open>x, err := m; if err != nil { return err }\<close>: an error or a panic of \<open>m\<close> is the result,
  and what follows does not run.\<close>

definition try_io :: "'a res io \<Rightarrow> ('a \<Rightarrow> 'b res io) \<Rightarrow> 'b res io" where
  "try_io m f = State_Monad.bind m (\<lambda>r. case r of
       Ok a \<Rightarrow> f a
     | Err e \<Rightarrow> State_Monad.return (Err e)
     | Panic \<Rightarrow> State_Monad.return Panic
     | Hang \<Rightarrow> State_Monad.return Hang)"

text \<open>\<open>_ = m\<close>: an error is ignored, a panic is not.\<close>

definition ignore_io :: "'a res io \<Rightarrow> 'b res io \<Rightarrow> 'b res io" where
  "ignore_io m n = State_Monad.bind m (\<lambda>r. case r of
       Ok a \<Rightarrow> n
     | Err e \<Rightarrow> n
     | Panic \<Rightarrow> State_Monad.return Panic
     | Hang \<Rightarrow> State_Monad.return Hang)"

definition wrap_io :: "string \<Rightarrow> 'a res io \<Rightarrow> 'a res io" where
  "wrap_io s m = State_Monad.bind m (\<lambda>r. State_Monad.return (wrap_err s r))"

text \<open>\<open>defer f()\<close>: \<open>f\<close> runs when the function returns or panics; a function that does not
  return never reaches it.\<close>

definition defer_io :: "unit io \<Rightarrow> 'a res io \<Rightarrow> 'a res io" where
  "defer_io f m = State_Monad.bind m (\<lambda>r. case r of
       Hang \<Rightarrow> State_Monad.return Hang
     | _ \<Rightarrow> State_Monad.bind f (\<lambda>_. State_Monad.return r))"

text \<open>\<open>time.Now()\<close>, in nanoseconds.\<close>

definition os_now :: "kernel \<Rightarrow> int io" where
  "os_now K = os_as (\<lambda>r. case r of RInt n \<Rightarrow> n | _ \<Rightarrow> 0) K Now"

definition ok_io :: "'a \<Rightarrow> 'a res io" where
  "ok_io a = State_Monad.return (Ok a)"

definition err_io :: "goerr \<Rightarrow> 'a res io" where
  "err_io e = State_Monad.return (Err e)"

lemma run_os [simp, io_simps]: "run_state (os K c) h = (K h c, h @ [(c, K h c)])"
  by (simp add: os_def)

lemma run_os_as [simp, io_simps]: "run_state (os_as f K c) h = (f (K h c), h @ [(c, K h c)])"
  by (simp add: os_as_def)

lemma run_os_ignore [simp, io_simps]: "run_state (os_ignore K c) h = ((), h @ [(c, K h c)])"
  by (simp add: os_ignore_def)

lemma run_try_io [io_simps]:
  "run_state (try_io m f) h = (case run_state m h of
       (Ok a, h') \<Rightarrow> run_state (f a) h'
     | (Err e, h') \<Rightarrow> (Err e, h')
     | (Panic, h') \<Rightarrow> (Panic, h')
     | (Hang, h') \<Rightarrow> (Hang, h'))"
  by (simp add: try_io_def split: prod.splits res.splits)

lemma run_ignore_io [io_simps]:
  "run_state (ignore_io m n) h = (case run_state m h of
       (Ok a, h') \<Rightarrow> run_state n h'
     | (Err e, h') \<Rightarrow> run_state n h'
     | (Panic, h') \<Rightarrow> (Panic, h')
     | (Hang, h') \<Rightarrow> (Hang, h'))"
  by (simp add: ignore_io_def split: prod.splits res.splits)

lemma run_wrap_io [simp, io_simps]:
  "run_state (wrap_io s m) h = (case run_state m h of (r, h') \<Rightarrow> (wrap_err s r, h'))"
  by (simp add: wrap_io_def)

lemma run_defer_io [io_simps]:
  "run_state (defer_io f m) h = (case run_state m h of
       (Hang, h') \<Rightarrow> (Hang, h')
     | (r, h') \<Rightarrow> (r, snd (run_state f h')))"
  by (simp add: defer_io_def split: prod.splits res.splits)

lemma run_os_now [simp, io_simps]:
  "run_state (os_now K) h = (case K h Now of RInt n \<Rightarrow> n | _ \<Rightarrow> 0, h @ [(Now, K h Now)])"
  by (simp add: os_now_def)

lemma run_ok_io [simp, io_simps]: "run_state (ok_io a) h = (Ok a, h)"
  by (simp add: ok_io_def)

lemma run_err_io [simp, io_simps]: "run_state (err_io e) h = (Err e, h)"
  by (simp add: err_io_def)

abbreviation result :: "'a io \<Rightarrow> hist \<Rightarrow> 'a" where
  "result m h \<equiv> fst (run_state m h)"

abbreviation after :: "'a io \<Rightarrow> hist \<Rightarrow> hist" where
  "after m h \<equiv> snd (run_state m h)"

definition calls :: "hist \<Rightarrow> call list" where
  "calls h = map fst h"

lemma calls_simps [simp, io_simps]:
  "calls [] = []" "calls (h @ h') = calls h @ calls h'" "calls (e # h) = fst e # calls h"
  by (simp_all add: calls_def)


section \<open>Footprints\<close>

text \<open>
  \<open>only P m\<close>: from every history, \<open>m\<close> only appends calls that satisfy \<open>P\<close>. The rules
  follow the structure of an operation; with \<open>P\<close> always true they say that the past is never
  rewritten.
\<close>

definition only :: "(call \<Rightarrow> bool) \<Rightarrow> 'a io \<Rightarrow> bool" where
  "only P m \<longleftrightarrow> (\<forall>h. \<exists>ev. after m h = h @ ev \<and> (\<forall>c \<in> set (calls ev). P c))"

named_theorems only_intros \<open>footprint rules\<close>

lemma only_return [only_intros]: "only P (State_Monad.return a)"
  by (simp add: only_def)

lemma only_os [only_intros]: "P c \<Longrightarrow> only P (os K c)"
  by (simp add: only_def)

lemma only_os_as [only_intros]: "P c \<Longrightarrow> only P (os_as f K c)"
  by (simp add: only_def)

lemma only_os_ignore [only_intros]: "P c \<Longrightarrow> only P (os_ignore K c)"
  by (simp add: only_def)

lemma only_bind [only_intros]:
  assumes "only P m" and "\<And>a. only P (f a)"
  shows "only P (State_Monad.bind m f)"
  unfolding only_def
proof
  fix h
  obtain ev where ev: "after m h = h @ ev" "\<forall>c \<in> set (calls ev). P c"
    using assms(1) unfolding only_def by blast
  obtain ev' where ev': "after (f (result m h)) (h @ ev) = (h @ ev) @ ev'" "\<forall>c \<in> set (calls ev'). P c"
    using assms(2) unfolding only_def by blast
  have "after (State_Monad.bind m f) h = h @ (ev @ ev')"
    using ev(1) ev'(1) by (cases "run_state m h") simp
  then show "\<exists>ev. after (State_Monad.bind m f) h = h @ ev \<and> (\<forall>c \<in> set (calls ev). P c)"
    using ev(2) ev'(2) by (intro exI [of _ "ev @ ev'"]) auto
qed

lemma only_try_io [only_intros]:
  "only P m \<Longrightarrow> (\<And>a. only P (f a)) \<Longrightarrow> only P (try_io m f)"
  unfolding try_io_def
  by (rule only_bind) (auto split: res.splits intro: only_return)

lemma only_ignore_io [only_intros]:
  "only P m \<Longrightarrow> only P n \<Longrightarrow> only P (ignore_io m n)"
  unfolding ignore_io_def
  by (rule only_bind) (auto split: res.splits intro: only_return)

lemma only_wrap_io [only_intros]: "only P m \<Longrightarrow> only P (wrap_io s m)"
  unfolding wrap_io_def by (rule only_bind) (auto intro: only_return)

lemma only_defer_io [only_intros]: "only P f \<Longrightarrow> only P m \<Longrightarrow> only P (defer_io f m)"
  unfolding defer_io_def
  by (rule only_bind) (auto split: res.splits intro: only_return only_bind)

lemma only_os_now [only_intros]: "P Now \<Longrightarrow> only P (os_now K)"
  unfolding os_now_def by (rule only_os_as)

lemma only_ok_io [only_intros]: "only P (ok_io a)"
  by (simp add: only_def)

lemma only_err_io [only_intros]: "only P (err_io e)"
  by (simp add: only_def)

lemma only_if [only_intros]:
  "(b \<Longrightarrow> only P m) \<Longrightarrow> (\<not> b \<Longrightarrow> only P n) \<Longrightarrow> only P (if b then m else n)"
  by simp

lemma only_traverse [only_intros]:
  "(\<And>x. only P (f x)) \<Longrightarrow> only P (State_Monad.traverse_list f xs)"
  by (induction xs) (auto intro!: only_intros)

lemma only_mono: "only P m \<Longrightarrow> (\<And>c. P c \<Longrightarrow> Q c) \<Longrightarrow> only Q m"
  unfolding only_def by metis

lemma onlyE:
  assumes "only P m"
  obtains ev where "after m h = h @ ev" "\<forall>c \<in> set (calls ev). P c"
  using assms unfolding only_def by blast

lemma only_run:
  assumes "only P m" "run_state m h = (a, h')"
  obtains ev where "h' = h @ ev" "\<forall>c \<in> set (calls ev). P c"
  using assms unfolding only_def by (metis snd_conv)


text \<open>What one run appends to the history, and whether an appended call succeeded.\<close>

definition events :: "'a io \<Rightarrow> hist \<Rightarrow> hist" where
  "events m h = drop (length h) (after m h)"

definition made :: "'a io \<Rightarrow> hist \<Rightarrow> call list" where
  "made m h = calls (events m h)"

fun succeeded :: "call \<times> reply \<Rightarrow> bool" where
  "succeeded (c, RErr e) = False"
| "succeeded (c, r) = True"

lemma succeeded_as_unit: "succeeded (c, r) \<longleftrightarrow> as_unit r = Ok ()"
  by (cases r) auto

lemma as_unit_cases: "as_unit r = Ok () \<or> (\<exists>e. as_unit r = Err (Errno e))"
  by (cases r) auto

lemma events_append: "after m h = h @ ev \<Longrightarrow> events m h = ev"
  by (simp add: events_def)

lemma after_events: "only P m \<Longrightarrow> after m h = h @ events m h"
  by (erule onlyE [of P m h]) (simp add: events_def)

lemma only_made: "only P m \<Longrightarrow> c \<in> set (made m h) \<Longrightarrow> P c"
  by (erule onlyE [of P m h]) (simp add: events_def made_def)

lemma events_bind:
  assumes "only P m" and "only Q (f (result m h))"
  shows "events (State_Monad.bind m f) h = events m h @ events (f (result m h)) (after m h)"
proof -
  obtain ev where ev: "after m h = h @ ev" using assms(1) by (rule onlyE)
  obtain ev' where ev': "after (f (result m h)) (h @ ev) = (h @ ev) @ ev'"
    using assms(2) by (rule onlyE)
  have "after (State_Monad.bind m f) h = h @ ev @ ev'"
    using ev ev' by (cases "run_state m h") simp
  then show ?thesis using ev ev' by (simp add: events_append)
qed

lemma events_os [simp]: "events (os_as f K c) h = [(c, K h c)]"
  by (simp add: events_def)

lemma events_ignore [simp]: "events (os_ignore K c) h = [(c, K h c)]"
  by (simp add: events_def)

lemma events_return [simp]: "events (State_Monad.return a) h = []"
  by (simp add: events_def)


lemma as_not_Panic [simp]:
  "as_unit r \<noteq> Panic" "as_int r \<noteq> Panic" "as_pair r \<noteq> Panic" "as_data r \<noteq> Panic"
  "as_bytes r \<noteq> Panic" "as_names r \<noteq> Panic" "as_stat r \<noteq> Panic" "as_from r \<noteq> Panic"
  by (cases r; simp)+

lemma as_not_Hang [simp]:
  "as_unit r \<noteq> Hang" "as_int r \<noteq> Hang" "as_pair r \<noteq> Hang" "as_data r \<noteq> Hang"
  "as_bytes r \<noteq> Hang" "as_names r \<noteq> Hang" "as_stat r \<noteq> Hang" "as_from r \<noteq> Hang"
  by (cases r; simp)+

lemma made_bind:
  assumes "only P m" "only Q (f (result m h))"
  shows "made (State_Monad.bind m f) h = made m h @ made (f (result m h)) (after m h)"
  by (simp add: made_def events_bind [where P = P and Q = Q and f = f, OF assms])

lemma traverse_Cons_run:
  "result (State_Monad.traverse_list f (x # xs)) h =
     result (f x) h # result (State_Monad.traverse_list f xs) (after (f x) h)"
  "after (State_Monad.traverse_list f (x # xs)) h =
     after (State_Monad.traverse_list f xs) (after (f x) h)"
  by (simp_all split: prod.splits)

lemma made_traverse_Cons:
  assumes "\<And>x. only P (f x)"
  shows "made (State_Monad.traverse_list f (x # xs)) h =
     made (f x) h @ made (State_Monad.traverse_list f xs) (after (f x) h)"
proof -
  obtain ev where ev: "after (f x) h = h @ ev" using assms by (rule onlyE)
  obtain ev' where ev': "after (State_Monad.traverse_list f xs) (h @ ev) = (h @ ev) @ ev'"
    using only_traverse [OF assms] by (rule onlyE)
  show ?thesis
    by (simp add: made_def events_def traverse_Cons_run ev ev' del: State_Monad.traverse_list.simps)
qed


lemma only_not_filter: "only (\<lambda>c. \<not> P c) m \<Longrightarrow> filter P (made m h) = []"
  using only_made [of "\<lambda>c. \<not> P c" m] by (auto simp: filter_empty_conv)

lemma filter_made_bind_skip:
  assumes "only (\<lambda>c. \<not> P c) m" "only (\<lambda>_. True) (f (result m h))"
  shows "filter P (made (State_Monad.bind m f) h) = filter P (made (f (result m h)) (after m h))"
  using only_not_filter [OF assms(1), of h]
  by (simp add: made_bind [where P = "\<lambda>c. \<not> P c" and Q = "\<lambda>_. True" and f = f, OF assms])


lemma made_simps [simp, io_simps]:
  "made (State_Monad.return a) h = []" "made (os_as f K c) h = [c]" "made (os_ignore K c) h = [c]"
  by (simp_all add: made_def)


section \<open>Runs of composed operations\<close>

abbreviation grows :: "'a io \<Rightarrow> bool" where
  "grows m \<equiv> only (\<lambda>_. True) m"

lemma result_bind [io_simps]:
  "result (State_Monad.bind m f) h = result (f (result m h)) (after m h)"
  "after (State_Monad.bind m f) h = after (f (result m h)) (after m h)"
  by (simp_all split: prod.splits)

lemma result_try_Ok:
  "result (try_io m f) h = Ok b \<longleftrightarrow> (\<exists>a. result m h = Ok a \<and> result (f a) (after m h) = Ok b)"
  by (auto simp: run_try_io split: prod.splits res.splits)

lemma after_try_Ok: "result m h = Ok a \<Longrightarrow> after (try_io m f) h = after (f a) (after m h)"
  by (auto simp: run_try_io split: prod.splits res.splits)

lemma result_try_bad:
  "(\<forall>a. result m h \<noteq> Ok a) \<Longrightarrow> after (try_io m f) h = after m h"
  by (auto simp: run_try_io split: prod.splits res.splits)

lemma events_try_Ok:
  assumes "grows m" "grows (f a)" "result m h = Ok a"
  shows "events (try_io m f) h = events m h @ events (f a) (after m h)"
  unfolding try_io_def using assms
  by (subst events_bind [where P = "\<lambda>_. True" and Q = "\<lambda>_. True"]) auto

lemma events_try_bad:
  "(\<forall>a. result m h \<noteq> Ok a) \<Longrightarrow> events (try_io m f) h = events m h"
  by (simp add: events_def result_try_bad)

lemma result_wrap [simp, io_simps]:
  "result (wrap_io s m) h = wrap_err s (result m h)" "after (wrap_io s m) h = after m h"
  "events (wrap_io s m) h = events m h"
  by (simp_all add: events_def split: prod.splits)

lemma result_defer [simp, io_simps]: "result (defer_io f m) h = result m h"
  by (auto simp: run_defer_io split: prod.splits res.splits)

lemma events_defer:
  assumes "grows m" "grows f" "result m h \<noteq> Hang"
  shows "events (defer_io f m) h = events m h @ events f (after m h)"
proof -
  obtain ev where ev: "after m h = h @ ev" using assms(1) by (rule onlyE)
  obtain ev' where ev': "after f (h @ ev) = (h @ ev) @ ev'" using assms(2) by (rule onlyE)
  have "after (defer_io f m) h = after f (after m h)"
    using assms(3) by (auto simp: run_defer_io split: prod.splits res.splits)
  then show ?thesis using ev ev' by (simp add: events_append)
qed

lemma events_bind_grows:
  "grows m \<Longrightarrow> grows (f (result m h)) \<Longrightarrow>
     events (State_Monad.bind m f) h = events m h @ events (f (result m h)) (after m h)"
  by (rule events_bind)

lemma events_now [simp]: "events (os_now K) h = [(Now, K h Now)]"
  by (simp add: events_def)

lemma events_ok_err [simp]: "events (ok_io a) h = []" "events (err_io e) h = []"
  by (simp_all add: events_def)

text \<open>An event that \<open>m\<close> cannot make is made by what follows \<open>m\<close>; in a chain of fallible steps, only if
  \<open>m\<close> succeeded.\<close>

lemma bind_reach:
  assumes "e \<in> set (events (State_Monad.bind m f) h)" "only P m" "\<not> P (fst e)" "\<And>a. grows (f a)"
  shows "e \<in> set (events (f (result m h)) (after m h))"
proof -
  have "grows m" using assms(2) by (rule only_mono) simp
  then have "events (State_Monad.bind m f) h = events m h @ events (f (result m h)) (after m h)"
    using assms(4) by (rule events_bind_grows)
  moreover have "e \<notin> set (events m h)"
    using only_made [OF assms(2), of "fst e" h] assms(3) by (auto simp: made_def calls_def)
  ultimately show ?thesis using assms(1) by auto
qed

lemma try_reach:
  assumes "e \<in> set (events (try_io m f) h)" "only P m" "\<not> P (fst e)" "\<And>a. grows (f a)"
  obtains a where "result m h = Ok a" "e \<in> set (events (f a) (after m h))"
proof -
  let ?k = "\<lambda>r. case r of Ok a \<Rightarrow> f a | Err e \<Rightarrow> State_Monad.return (Err e)
    | Panic \<Rightarrow> State_Monad.return Panic | Hang \<Rightarrow> State_Monad.return Hang"
  have "grows (?k r)" for r using assms(4) by (auto intro!: only_intros split: res.splits)
  then have "e \<in> set (events (?k (result m h)) (after m h))"
    using bind_reach [OF assms(1) [unfolded try_io_def] assms(2,3)] by blast
  then show ?thesis using that by (cases "result m h") auto
qed

end
