(* ===== verification/Service.thy ===== *)
theory Service
  imports OsModel
begin

text \<open>
  Service addresses and their tests: programming a DNAT rule or a masquerade uplink through
  \<open>prctl\<close> (\<open>service_linux.go\<close>, \<open>masq_linux.go\<close>), and the clients and backends that run in the pods.
  A loop that waits for requests is given fuel; \<open>Hang\<close> means that it is still serving. What the
  programs print is their result value here: an outcome or a count.
\<close>

unbundle bit_operations_syntax

section \<open>Addresses and rules\<close>

definition prAsterkubeDNAT :: int where "prAsterkubeDNAT = 0x4b554244"
definition prAsterkubeMasq :: int where "prAsterkubeMasq = 0x4b55424d"
definition serviceVIP :: string where "serviceVIP = ''10.96.0.10''"
definition serviceVPort :: int where "serviceVPort = 80"
definition serviceProtoUDP :: int where "serviceProtoUDP = 17"
definition serviceProtoTCP :: int where "serviceProtoTCP = 6"
definition masqPort :: nat where "masqPort = 9200"

definition svcVIPEnv :: string where "svcVIPEnv = ''ASTERKUBE_SVC_VIP''"
definition svcVPortEnv :: string where "svcVPortEnv = ''ASTERKUBE_SVC_VPORT''"
definition svcBackendPortEnv :: string where "svcBackendPortEnv = ''ASTERKUBE_SVC_BACKEND_PORT''"
definition svcRoleEnv :: string where "svcRoleEnv = ''ASTERKUBE_SVC_ROLE''"
definition masqRoleEnv :: string where "masqRoleEnv = ''ASTERKUBE_MASQ_ROLE''"
definition masqTargetEnv :: string where "masqTargetEnv = ''ASTERKUBE_MASQ_TARGET''"
definition masqUplinkGwEnv :: string where "masqUplinkGwEnv = ''ASTERKUBE_MASQ_UPLINK_GW''"

text \<open>\<open>os.Getenv\<close>: the empty string for a variable that is not set.\<close>

type_synonym getenv = "string \<Rightarrow> string"

definition pack_octets :: "bytes \<Rightarrow> 32 word" where
  "pack_octets v =
     (push_bit 24 (ucast (v ! 0)) OR push_bit 16 (ucast (v ! 1)) OR push_bit 8 (ucast (v ! 2)) OR ucast (v ! 3))"

definition ip4ToU32 :: "string \<Rightarrow> 32 word option" where
  "ip4ToU32 s = (case parseIP s of
       None \<Rightarrow> None
     | Some a \<Rightarrow> (case to4 (Some a) of None \<Rightarrow> None | Some v4 \<Rightarrow> Some (pack_octets v4)))"

definition dnat_ports :: "int \<Rightarrow> int \<Rightarrow> 32 word" where
  "dnat_ports vport bport = (push_bit 16 (word_of_int vport) OR (word_of_int bport AND 0xffff))"

definition addServiceDNAT :: "kernel \<Rightarrow> string \<Rightarrow> int \<Rightarrow> string \<Rightarrow> int \<Rightarrow> int \<Rightarrow> unit res io" where
  "addServiceDNAT K vip vport backend bport proto = (case ip4ToU32 vip of
       None \<Rightarrow> err_io (Text (''bad VIP '' @ vip))
     | Some vipU32 \<Rightarrow> (case ip4ToU32 backend of
         None \<Rightarrow> err_io (Text (''bad backend '' @ backend))
       | Some backendU32 \<Rightarrow>
           os_unit K (Prctl prAsterkubeDNAT (uint vipU32) (uint backendU32) (uint (dnat_ports vport bport)) proto)))"

definition addMasqUplink :: "kernel \<Rightarrow> int \<Rightarrow> unit res io" where
  "addMasqUplink K idx = os_unit K (Prctl prAsterkubeMasq idx 0 0 0)"

definition env_port :: "getenv \<Rightarrow> string \<Rightarrow> int \<Rightarrow> int" where
  "env_port env var d = (case atoi (env var) of Some p \<Rightarrow> if p > 0 then p else d | None \<Rightarrow> d)"

definition backendListenPort :: "getenv \<Rightarrow> int" where
  "backendListenPort env = env_port env svcBackendPortEnv 9097"

definition udpEndpointPorts :: "getenv \<Rightarrow> int list" where
  "udpEndpointPorts env = (let base = backendListenPort env in [base, base + 2])"


section \<open>Retries\<close>

text \<open>Up to \<open>n\<close> tries of \<open>m\<close>, a second apart; an error in \<open>fatal\<close> is not retried.\<close>

fun retry :: "nat \<Rightarrow> (goerr \<Rightarrow> bool) \<Rightarrow> kernel \<Rightarrow> 'a res io \<Rightarrow> 'a res io" where
  "retry 0 fatal K m = err_io (Text [])"
| "retry (Suc n) fatal K m = State_Monad.bind m (\<lambda>r. case r of
       Err e \<Rightarrow>
         if fatal e \<or> n = 0 then err_io e
         else State_Monad.bind (os_ignore K (Sleep 1000000000)) (\<lambda>_. retry n fatal K m)
     | _ \<Rightarrow> State_Monad.return r)"

definition set_deadline :: "kernel \<Rightarrow> int \<Rightarrow> int \<Rightarrow> unit io" where
  "set_deadline K fd d = State_Monad.bind (os_now K) (\<lambda>now. os_ignore K (SetDeadline fd (now + d)))"

definition from_ip :: "sockaddr \<Rightarrow> bytes" where
  "from_ip a = (case a of Inet4 b p \<Rightarrow> b | _ \<Rightarrow> [])"


section \<open>Clients\<close>

definition reverseNATFailed :: goerr where
  "reverseNATFailed = Text ''reverse-NAT failed''"

definition hello :: "nat \<Rightarrow> string" where
  "hello seq = ''svc-hello-'' @ nat_digits seq"

definition serviceClientSendOnce :: "kernel \<Rightarrow> bytes \<Rightarrow> int \<Rightarrow> nat \<Rightarrow> string res io" where
  "serviceClientSendOnce K vipIP vport seq =
     try_io (wrap_io ''dial'' (os_int K (Dial ''udp'' vipIP (nat vport)))) (\<lambda>fd.
     defer_io (os_ignore K (CloseFd fd)) (
       try_io (wrap_io ''write'' (os_unit K (WriteFd fd (hello seq)))) (\<lambda>_.
       State_Monad.bind (set_deadline K fd 2000000000) (\<lambda>_.
       try_io (wrap_io ''read'' (os_from K (ReadFrom fd 256))) (\<lambda>(reply, from).
       if from_ip from \<noteq> vipIP then err_io reverseNATFailed else ok_io reply)))))"

datatype client_outcome = BadVIP | ReverseNATBroken | Replies nat nat

text \<open>Datagrams \<open>i\<close> to \<open>i + n - 1\<close>; the first may be retried while the backend is still binding.\<close>

fun client_sends :: "nat \<Rightarrow> kernel \<Rightarrow> bytes \<Rightarrow> int \<Rightarrow> nat \<Rightarrow> nat \<Rightarrow> client_outcome res io" where
  "client_sends sends K vipIP vport 0 ok = ok_io (Replies ok sends)"
| "client_sends sends K vipIP vport (Suc n) ok =
     (let i = sends - Suc n in
      State_Monad.bind (retry (if i = 0 then 5 else 1) (\<lambda>e. e = reverseNATFailed) K (serviceClientSendOnce K vipIP vport i)) (\<lambda>r.
      case r of
        Ok s \<Rightarrow> client_sends sends K vipIP vport n (Suc ok)
      | Err e \<Rightarrow> if e = reverseNATFailed then ok_io ReverseNATBroken else client_sends sends K vipIP vport n ok
      | Panic \<Rightarrow> State_Monad.return Panic
      | Hang \<Rightarrow> State_Monad.return Hang))"

definition serviceClient :: "kernel \<Rightarrow> getenv \<Rightarrow> client_outcome res io" where
  "serviceClient K env = (case parseIP (env svcVIPEnv) of
       None \<Rightarrow> ok_io BadVIP
     | Some vipIP \<Rightarrow> client_sends 8 K vipIP (env_port env svcVPortEnv serviceVPort) 8 0)"

definition tcp_exchange :: "kernel \<Rightarrow> bytes \<Rightarrow> int \<Rightarrow> string \<Rightarrow> string res io" where
  "tcp_exchange K addr port msg =
     try_io (wrap_io ''dial'' (os_int K (Dial ''tcp'' addr (nat port)))) (\<lambda>fd.
     defer_io (os_ignore K (CloseFd fd)) (
       State_Monad.bind (set_deadline K fd 3000000000) (\<lambda>_.
       try_io (wrap_io ''write'' (os_unit K (WriteFd fd msg))) (\<lambda>_.
       wrap_io ''read'' (os_data K (ReadFd fd))))))"

definition serviceClientTCP :: "kernel \<Rightarrow> getenv \<Rightarrow> string res io" where
  "serviceClientTCP K env = (case parseIP (env svcVIPEnv) of
       None \<Rightarrow> err_io (Text ''bad VIP'')
     | Some vipIP \<Rightarrow>
         retry 6 (\<lambda>_. False) K (tcp_exchange K vipIP (env_port env svcVPortEnv serviceVPort) ''svc-tcp-hello''))"

definition kpClientOnce :: "kernel \<Rightarrow> bytes \<Rightarrow> int \<Rightarrow> string res io" where
  "kpClientOnce K addr port = tcp_exchange K addr port ''kp-hello''"

text \<open>The number of replies and the list of the backends that sent them.\<close>

fun kp_sends :: "nat \<Rightarrow> kernel \<Rightarrow> bytes \<Rightarrow> int \<Rightarrow> nat \<Rightarrow> string list \<Rightarrow> string list res io" where
  "kp_sends sends K addr port 0 got = ok_io got"
| "kp_sends sends K addr port (Suc n) got =
     State_Monad.bind (retry (if Suc n = sends then 6 else 1) (\<lambda>_. False) K (kpClientOnce K addr port)) (\<lambda>r. case r of
         Ok s \<Rightarrow> kp_sends sends K addr port n (s # got)
       | Err e \<Rightarrow> kp_sends sends K addr port n got
       | Panic \<Rightarrow> State_Monad.return Panic
       | Hang \<Rightarrow> State_Monad.return Hang)"

datatype kp_outcome = KpBadVIP | KpBalanced nat | KpSingle nat | KpNoReply

definition kpClient :: "kernel \<Rightarrow> getenv \<Rightarrow> kp_outcome res io" where
  "kpClient K env = (case parseIP (env svcVIPEnv) of
       None \<Rightarrow> ok_io KpBadVIP
     | Some vipIP \<Rightarrow>
         try_io (kp_sends 10 K vipIP (env_port env svcVPortEnv 53) 10 []) (\<lambda>got.
         ok_io (if got \<noteq> [] \<and> length (remdups got) \<ge> 2 then KpBalanced (length (remdups got))
                else if got \<noteq> [] then KpSingle (length got) else KpNoReply)))"

definition masq_exchange :: "kernel \<Rightarrow> bytes \<Rightarrow> string res io" where
  "masq_exchange K addr =
     try_io (wrap_io ''dial'' (os_int K (Dial ''udp'' addr masqPort))) (\<lambda>fd.
     defer_io (os_ignore K (CloseFd fd)) (
       try_io (wrap_io ''write'' (os_unit K (WriteFd fd ''masq-hello''))) (\<lambda>_.
       State_Monad.bind (set_deadline K fd 2000000000) (\<lambda>_.
       try_io (wrap_io ''read'' (os_from K (ReadFrom fd 256))) (\<lambda>(reply, from). ok_io reply)))))"

definition masqClient :: "kernel \<Rightarrow> getenv \<Rightarrow> string res io" where
  "masqClient K env = (case parseIP (env masqTargetEnv) of
       None \<Rightarrow> err_io (Text ''bad target'')
     | Some a \<Rightarrow> retry 8 (\<lambda>_. False) K (masq_exchange K a))"


section \<open>Backends\<close>

text \<open>The number of datagrams served until the flow goes idle or a reply fails.\<close>

fun udp_serve :: "nat \<Rightarrow> kernel \<Rightarrow> int \<Rightarrow> nat \<Rightarrow> nat res io" where
  "udp_serve 0 K fd served = State_Monad.return Hang"
| "udp_serve (Suc fuel) K fd served =
     State_Monad.bind (set_deadline K fd 4000000000) (\<lambda>_.
     State_Monad.bind (os_from K (ReadFrom fd 256)) (\<lambda>r. case r of
         Ok (req, from) \<Rightarrow>
           State_Monad.bind (os_unit K (WriteTo fd ''svc-reply-from-backend'' from)) (\<lambda>w.
           if is_ok w then udp_serve fuel K fd (Suc served) else ok_io served)
       | _ \<Rightarrow> ok_io served))"

definition serviceBackendUDPEndpoint :: "nat \<Rightarrow> kernel \<Rightarrow> string \<Rightarrow> int \<Rightarrow> nat res io" where
  "serviceBackendUDPEndpoint fuel K podIP port =
     State_Monad.bind (os_int K (ListenOn ''udp'' (case parseIP podIP of Some a \<Rightarrow> a | None \<Rightarrow> []) (nat port))) (\<lambda>r. case r of
         Ok fd \<Rightarrow> defer_io (os_ignore K (CloseFd fd)) (udp_serve fuel K fd 0)
       | _ \<Rightarrow> ok_io 0)"

definition serviceBackendTCP :: "kernel \<Rightarrow> int \<Rightarrow> unit res io" where
  "serviceBackendTCP K ln =
     State_Monad.bind (set_deadline K ln 12000000000) (\<lambda>_.
     try_io (wrap_io ''no tcp connect'' (os_int K (Accept ln))) (\<lambda>conn.
     defer_io (os_ignore K (CloseFd conn)) (
       State_Monad.bind (set_deadline K conn 4000000000) (\<lambda>_.
       try_io (wrap_io ''tcp read'' (os_data K (ReadFd conn))) (\<lambda>_.
       wrap_io ''tcp reply'' (os_unit K (WriteFd conn ''svc-tcp-reply-from-backend'')))))))"

fun kp_serve :: "nat \<Rightarrow> kernel \<Rightarrow> string \<Rightarrow> int \<Rightarrow> nat \<Rightarrow> nat res io" where
  "kp_serve 0 K podIP ln served = State_Monad.return Hang"
| "kp_serve (Suc fuel) K podIP ln served =
     State_Monad.bind (os_int K (Accept ln)) (\<lambda>r. case r of
         Ok conn \<Rightarrow>
           State_Monad.bind (set_deadline K conn 3000000000) (\<lambda>_.
           State_Monad.bind (os_ignore K (ReadFd conn)) (\<lambda>_.
           State_Monad.bind (os_ignore K (WriteFd conn (''kp-backend='' @ podIP))) (\<lambda>_.
           State_Monad.bind (os_ignore K (CloseFd conn)) (\<lambda>_.
           kp_serve fuel K podIP ln (Suc served)))))
       | _ \<Rightarrow> ok_io served)"

definition kpBackend :: "nat \<Rightarrow> kernel \<Rightarrow> getenv \<Rightarrow> string \<Rightarrow> nat res io" where
  "kpBackend fuel K env podIP =
     try_io (os_int K (ListenOn ''tcp'' (case parseIP podIP of Some a \<Rightarrow> a | None \<Rightarrow> []) (nat (backendListenPort env)))) (\<lambda>ln.
     defer_io (os_ignore K (CloseFd ln)) (
       State_Monad.bind (set_deadline K ln 12000000000) (\<lambda>_. kp_serve fuel K podIP ln 0)))"

datatype masq_outcome = MasqOK | MasqNotMasqueraded

definition masqServer :: "kernel \<Rightarrow> getenv \<Rightarrow> string \<Rightarrow> masq_outcome res io" where
  "masqServer K env podIP =
     try_io (wrap_io ''bind'' (os_int K (ListenOn ''udp'' (case parseIP podIP of Some a \<Rightarrow> a | None \<Rightarrow> []) masqPort))) (\<lambda>fd.
     defer_io (os_ignore K (CloseFd fd)) (
       State_Monad.bind (set_deadline K fd 20000000000) (\<lambda>_.
       try_io (wrap_io ''no request'' (os_from K (ReadFrom fd 256))) (\<lambda>(req, from).
       try_io (wrap_io ''reply'' (os_unit K (WriteTo fd ''masq-reply'' from))) (\<lambda>_.
       ok_io (if env masqUplinkGwEnv \<noteq> [] \<and> Some (from_ip from) = parseIP (env masqUplinkGwEnv)
              then MasqOK else MasqNotMasqueraded))))))"


section \<open>Correctness of the rules\<close>

lemma pack_octets_be32: "length v = 4 \<Longrightarrow> pack_octets v = get_be32 v"
proof -
  assume "length v = 4"
  then obtain a b c d where v: "v = [a, b, c, d]" by (auto simp: numeral_eq_Suc length_Suc_conv)
  show ?thesis by (simp add: v pack_octets_def or.assoc)
qed

lemma ip4ToU32_ip4_str: "length v = 4 \<Longrightarrow> ip4ToU32 (ip4_str v) = Some (get_be32 v)"
  by (simp add: ip4ToU32_def parseIP_ip4_str pack_octets_be32)

text \<open>A dotted quad is packed into the big-endian word of its octets, and from that word
  the address can be printed back.\<close>

lemma ip4ToU32_roundtrip: "ip4ToU32 (ip4_str (be32 w)) = Some w"
  by (simp add: ip4ToU32_ip4_str)

lemma bit_16_bits: "0 \<le> v \<Longrightarrow> v < 2 ^ 16 \<Longrightarrow> bit (v :: int) n \<Longrightarrow> n < 16"
  by (metis bit_take_bit_iff take_bit_int_eq_self)

lemma uint_small32: "0 \<le> v \<Longrightarrow> v < 2 ^ 16 \<Longrightarrow> uint (word_of_int v :: 32 word) = v"
  by (simp add: uint_word_of_int_eq take_bit_int_eq_self)

lemma dnat_ports_unpack:
  assumes "0 \<le> v" "v < 2 ^ 16" "0 \<le> b" "b < 2 ^ 16"
  shows "uint (drop_bit 16 (dnat_ports v b)) = v" "uint (dnat_ports v b AND 0xffff) = b"
proof -
  note nv = bit_16_bits [OF assms(1,2)] and nb = bit_16_bits [OF assms(3,4)]
  have m: "(0xffff :: 32 word) = mask 16" by (simp add: mask_numeral)
  have "drop_bit 16 (dnat_ports v b) = word_of_int v"
    unfolding dnat_ports_def m by (rule bit_word_eqI) (auto simp: bit_simps dest: nv nb)
  then show "uint (drop_bit 16 (dnat_ports v b)) = v" using uint_small32 [OF assms(1,2)] by simp
  have "dnat_ports v b AND 0xffff = word_of_int b"
    unfolding dnat_ports_def m by (rule bit_word_eqI) (auto simp: bit_simps dest: nv nb)
  then show "uint (dnat_ports v b AND 0xffff) = b" using uint_small32 [OF assms(3,4)] by simp
qed

text \<open>For valid addresses and ports, programming a rule makes exactly one \<open>prctl\<close>, whose
  arguments unpack to the virtual address and port, the backend's address and port and the protocol.\<close>

lemma addServiceDNAT_rule:
  assumes "length vip = 4" "length backend = 4" "0 \<le> vport" "vport < 2 ^ 16" "0 \<le> bport" "bport < 2 ^ 16"
  shows "\<exists>v b (p :: 32 word). made (addServiceDNAT K (ip4_str vip) vport (ip4_str backend) bport proto) h =
        [Prctl prAsterkubeDNAT (uint v) (uint b) (uint p) proto]
    \<and> be32 v = vip \<and> be32 b = backend \<and> uint (drop_bit 16 p) = vport \<and> uint (p AND 0xffff) = bport"
  by (rule exI [of _ "get_be32 vip"], rule exI [of _ "get_be32 backend"], rule exI [of _ "dnat_ports vport bport"])
     (use assms in \<open>simp add: addServiceDNAT_def ip4ToU32_ip4_str be32_get_be32 dnat_ports_unpack\<close>)


section \<open>Correctness of the clients\<close>

text \<open>A successful exchange of the service client has received
  a datagram whose source is the virtual address it sent to, and has closed its socket.\<close>

lemma serviceClientSendOnce_sound:
  assumes "result (serviceClientSendOnce K vipIP vport seq) h = Ok reply"
  shows "\<exists>fd from. (Dial ''udp'' vipIP (nat vport), RInt fd) \<in> set (events (serviceClientSendOnce K vipIP vport seq) h)
    \<and> (ReadFrom fd 256, RFrom reply from) \<in> set (events (serviceClientSendOnce K vipIP vport seq) h)
    \<and> from_ip from = vipIP \<and> last (made (serviceClientSendOnce K vipIP vport seq) h) = CloseFd fd"
proof -
  let ?d = "Dial ''udp'' vipIP (nat vport)"
  let ?w = "\<lambda>fd. WriteFd fd (hello seq)"
  note defs = serviceClientSendOnce_def run_try_io run_defer_io set_deadline_def
  obtain fd where fd: "K h ?d = RInt fd"
    using assms by (cases "K h ?d") (auto simp: defs)
  let ?h1 = "h @ [(?d, RInt fd)]"
  let ?h2 = "?h1 @ [(?w fd, K ?h1 (?w fd))]"
  let ?h3 = "?h2 @ [(Now, K ?h2 Now)]"
  let ?s = "SetDeadline fd ((case K ?h2 Now of RInt n \<Rightarrow> n | _ \<Rightarrow> 0) + 2000000000)"
  let ?h4 = "?h3 @ [(?s, K ?h3 ?s)]"
  have w: "as_unit (K ?h1 (?w fd)) = Ok ()"
    using assms as_unit_cases [of "K ?h1 (?w fd)"] by (auto simp: defs fd)
  obtain a where r: "K ?h4 (ReadFrom fd 256) = RFrom reply a" "from_ip a = vipIP"
    using assms w by (cases "K ?h4 (ReadFrom fd 256)") (auto simp: defs fd split: if_splits)
  show ?thesis unfolding made_def
    by (rule exI [of _ fd], rule exI [of _ a]) (use fd w r in \<open>simp add: defs events_def\<close>)
qed

definition is_dial :: "call \<Rightarrow> bool" where
  "is_dial c \<longleftrightarrow> (case c of Dial n a p \<Rightarrow> True | _ \<Rightarrow> False)"

definition dials :: "hist \<Rightarrow> nat" where
  "dials ev = length (filter is_dial (calls ev))"

lemma dials_simps [simp]:
  "dials [] = 0" "dials (ev @ ev') = dials ev + dials ev'" "dials (e # ev) = (if is_dial (fst e) then 1 else 0) + dials ev"
  by (simp_all add: dials_def)

lemma is_dial_simps [simp]:
  "is_dial (Dial n a p)" "\<not> is_dial (Sleep d)" "\<not> is_dial (CloseFd fd)" "\<not> is_dial (WriteFd fd s)" "\<not> is_dial Now"
  "\<not> is_dial (SetDeadline fd t)" "\<not> is_dial (ReadFrom fd k)"
  by (simp_all add: is_dial_def)

lemma grows_retry [only_intros]: "grows m \<Longrightarrow> grows (retry n fatal K m)"
  by (induction n) (auto intro!: only_intros split: res.splits)

lemma retry_dials:
  assumes "grows m" "\<And>h. dials (events m h) \<le> 1"
  shows "dials (events (retry n fatal K m) h) \<le> n"
proof (induction n arbitrary: h)
  case (Suc n)
  let ?k = "\<lambda>r. case r of
       Err e \<Rightarrow> if fatal e \<or> n = 0 then err_io e
               else State_Monad.bind (os_ignore K (Sleep 1000000000)) (\<lambda>_. retry n fatal K m)
     | _ \<Rightarrow> State_Monad.return r"
  have g: "grows (?k r)" for r using assms(1) by (auto intro!: only_intros split: res.splits)
  have ev: "events (retry (Suc n) fatal K m) h = events m h @ events (?k (result m h)) (after m h)"
    unfolding retry.simps by (rule events_bind_grows [where m = m and f = ?k, OF assms(1) g])
  have "dials (events (?k r) h') \<le> n" for r h'
    using Suc assms(1) by (auto simp: events_bind_grows only_intros split: res.splits)
  then show ?case unfolding ev using assms(2) [of h] by (simp add: add_mono [of _ 1 _ n, simplified])
qed simp

lemma grows_sendOnce [only_intros]: "grows (serviceClientSendOnce K vipIP vport seq)"
  unfolding serviceClientSendOnce_def set_deadline_def by (auto intro!: only_intros)

lemma sendOnce_dials: "dials (events (serviceClientSendOnce K vipIP vport seq) h) \<le> 1"
proof -
  let ?d = "Dial ''udp'' vipIP (nat vport)"
  let ?rest = "\<lambda>fd. defer_io (os_ignore K (CloseFd fd)) (
       try_io (wrap_io ''write'' (os_unit K (WriteFd fd (hello seq)))) (\<lambda>_.
       State_Monad.bind (set_deadline K fd 2000000000) (\<lambda>_.
       try_io (wrap_io ''read'' (os_from K (ReadFrom fd 256))) (\<lambda>(reply, from).
       if from_ip from \<noteq> vipIP then err_io reverseNATFailed else ok_io reply))))"
  have o: "only (\<lambda>c. \<not> is_dial c) (?rest fd)" for fd
    unfolding set_deadline_def by (auto intro!: only_intros)
  have g: "grows (?rest fd)" for fd by (rule only_mono [OF o]) simp
  have 0: "dials (events (?rest fd) h') = 0" for fd h'
    using only_not_filter [OF o, of fd h'] by (simp add: dials_def made_def)
  show ?thesis
  proof (cases "\<exists>fd. K h ?d = RInt fd")
    case True
    then obtain fd where fd: "as_int (K h ?d) = Ok fd" by auto
    have "events (serviceClientSendOnce K vipIP vport seq) h = [(?d, K h ?d)] @ events (?rest fd) (h @ [(?d, K h ?d)])"
      unfolding serviceClientSendOnce_def
      by (subst events_try_Ok [where a = fd]) (use fd g in \<open>auto intro!: only_intros\<close>)
    then show ?thesis by (simp add: 0)
  next
    case False
    then have "\<forall>fd. result (wrap_io ''dial'' (os_int K ?d)) h \<noteq> Ok fd" by (cases "K h ?d") auto
    then show ?thesis unfolding serviceClientSendOnce_def by (simp add: events_try_bad del: run_wrap_io)
  qed
qed

lemma sendOnce_returns:
  "result (serviceClientSendOnce K vipIP vport seq) h \<noteq> Hang" "result (serviceClientSendOnce K vipIP vport seq) h \<noteq> Panic"
  unfolding serviceClientSendOnce_def set_deadline_def
  by (auto simp: run_try_io run_defer_io wrap_err_Hang wrap_err_Panic split: res.splits prod.splits
      dest: sym [of Hang] sym [of Panic])

lemma retry_returns:
  assumes "\<And>h. result m h \<noteq> Hang \<and> result m h \<noteq> Panic"
  shows "result (retry n fatal K m) h \<noteq> Hang \<and> result (retry n fatal K m) h \<noteq> Panic"
proof (induction n arbitrary: h)
  case (Suc n)
  show ?case unfolding retry.simps result_bind
    using assms [of h] Suc by (auto simp: result_bind split: res.splits)
qed simp

lemma grows_client_sends [only_intros]: "grows (client_sends sends K vipIP vport n ok)"
  by (induction n arbitrary: ok) (auto intro!: only_intros simp: Let_def split: res.splits)

lemma client_sends_bounded:
  assumes "n \<le> sends" "ok + n \<le> sends"
  shows "dials (events (client_sends sends K vipIP vport n ok) h) \<le> n + (if n = sends then 4 else 0)
    \<and> (\<exists>out. result (client_sends sends K vipIP vport n ok) h = Ok out
          \<and> (case out of BadVIP \<Rightarrow> False | ReverseNATBroken \<Rightarrow> True | Replies k t \<Rightarrow> k \<le> sends \<and> t = sends))"
  using assms
proof (induction n arbitrary: ok h)
  case (Suc n)
  let ?i = "sends - Suc n"
  let ?m = "retry (if ?i = 0 then 5 else 1) (\<lambda>e. e = reverseNATFailed) K (serviceClientSendOnce K vipIP vport ?i)"
  let ?k = "\<lambda>r. case r of
        Ok s \<Rightarrow> client_sends sends K vipIP vport n (Suc ok)
      | Err e \<Rightarrow> if e = reverseNATFailed then ok_io ReverseNATBroken else client_sends sends K vipIP vport n ok
      | Panic \<Rightarrow> State_Monad.return Panic
      | Hang \<Rightarrow> State_Monad.return Hang"
  have g: "grows ?m" "grows (?k r)" for r by (auto intro!: only_intros split: res.splits)
  have run: "client_sends sends K vipIP vport (Suc n) ok = State_Monad.bind ?m ?k" by (simp add: Let_def)
  have ev: "events (client_sends sends K vipIP vport (Suc n) ok) h = events ?m h @ events (?k (result ?m h)) (after ?m h)"
    unfolding run by (rule events_bind_grows [where m = ?m and f = ?k, OF g])
  have d: "dials (events ?m h) \<le> (if ?i = 0 then 5 else 1)"
    by (rule retry_dials [OF grows_sendOnce sendOnce_dials])
  have IH: "dials (events (client_sends sends K vipIP vport n ok') h') \<le> n"
    "\<exists>out. result (client_sends sends K vipIP vport n ok') h' = Ok out
       \<and> (case out of BadVIP \<Rightarrow> False | ReverseNATBroken \<Rightarrow> True | Replies k t \<Rightarrow> k \<le> sends \<and> t = sends)"
    if "ok' \<le> Suc ok" for ok' h'
    using Suc.IH [of ok' h'] Suc.prems that by auto
  have "result ?m h \<noteq> Hang \<and> result ?m h \<noteq> Panic"
    by (rule retry_returns) (simp add: sendOnce_returns)
  then have k: "dials (events (?k (result ?m h)) (after ?m h)) \<le> n"
    "\<exists>out. result (?k (result ?m h)) (after ?m h) = Ok out
       \<and> (case out of BadVIP \<Rightarrow> False | ReverseNATBroken \<Rightarrow> True | Replies k t \<Rightarrow> k \<le> sends \<and> t = sends)"
    using IH by (cases "result ?m h"; auto)+
  have "result (client_sends sends K vipIP vport (Suc n) ok) h = result (?k (result ?m h)) (after ?m h)"
    unfolding run result_bind ..
  then show ?case unfolding ev using d k Suc.prems by auto
qed simp

text \<open>Whatever the network does, the service client returns after at most
  twelve connection attempts, and it reports no more replies than the eight datagrams it sent.\<close>

lemma serviceClient_bounded:
  "dials (events (serviceClient K env) h) \<le> 12
   \<and> (case result (serviceClient K env) h of Ok (Replies k n) \<Rightarrow> k \<le> 8 \<and> n = 8 | Ok out \<Rightarrow> True | _ \<Rightarrow> False)"
proof (cases "parseIP (env svcVIPEnv)")
  case None
  then show ?thesis by (simp add: serviceClient_def)
next
  case (Some vip)
  let ?m = "client_sends 8 K vip (env_port env svcVPortEnv serviceVPort) 8 0"
  from client_sends_bounded [of 8 8 0 K vip "env_port env svcVPortEnv serviceVPort" h] obtain out where
    "dials (events ?m h) \<le> 12" "result ?m h = Ok out"
    "case out of BadVIP \<Rightarrow> False | ReverseNATBroken \<Rightarrow> True | Replies k t \<Rightarrow> k \<le> 8 \<and> t = 8"
    by auto
  then show ?thesis by (cases out) (simp_all add: serviceClient_def Some del: client_sends.simps)
qed

end
