(* ===== verification/Netlink.thy ===== *)
theory Netlink
  imports OsModel
begin

unbundle bit_operations_syntax

text \<open>
  The RTNETLINK client (\<open>netlink_linux.go\<close>): attribute and message encoding, the socket, the
  wait for an acknowledgment, the requests that create links, addresses and routes, and the dumps
  that look up a link or the default route. The parsers of Go's \<open>syscall\<close> package that the
  client uses are modelled here too; they and the encoders meet in two interpretations of
  \<open>framing\<close>.
\<close>

section \<open>Constants\<close>

definition iflaIfname :: "16 word" where "iflaIfname = 3"
definition iflaAddress :: "16 word" where "iflaAddress = 1"
definition iflaMaster :: "16 word" where "iflaMaster = 10"
definition iflaLinkInfo :: "16 word" where "iflaLinkInfo = 18"
definition iflaNetNsPid :: "16 word" where "iflaNetNsPid = 19"
definition iflaInfoKind :: "16 word" where "iflaInfoKind = 1"
definition iflaInfoData :: "16 word" where "iflaInfoData = 2"
definition vethInfoPeer :: "16 word" where "vethInfoPeer = 1"
definition ifaLocal :: "16 word" where "ifaLocal = 2"
definition ifaAddress :: "16 word" where "ifaAddress = 1"
definition rtaOif :: "16 word" where "rtaOif = 4"
definition rtaGateway :: "16 word" where "rtaGateway = 5"
definition nlmsgHdrLen :: nat where "nlmsgHdrLen = 16"
definition ifInfomsgLen :: nat where "ifInfomsgLen = 16"
definition ifAddrmsgLen :: nat where "ifAddrmsgLen = 8"
definition rtmsgLen :: nat where "rtmsgLen = 12"
definition ifNameMaxSize :: nat where "ifNameMaxSize = 15"
definition rtnUnicast :: byte where "rtnUnicast = 1"
definition rtTableMain :: byte where "rtTableMain = 254"
definition rtProtBoot :: byte where "rtProtBoot = 3"
definition rtScopeUniverse :: byte where "rtScopeUniverse = 0"
definition AF_INET :: byte where "AF_INET = 2"

definition NLMSG_ERROR :: "16 word" where "NLMSG_ERROR = 2"
definition NLMSG_DONE :: "16 word" where "NLMSG_DONE = 3"
definition RTM_NEWLINK :: "16 word" where "RTM_NEWLINK = 16"
definition RTM_GETLINK :: "16 word" where "RTM_GETLINK = 18"
definition RTM_NEWADDR :: "16 word" where "RTM_NEWADDR = 20"
definition RTM_NEWROUTE :: "16 word" where "RTM_NEWROUTE = 24"
definition RTM_GETROUTE :: "16 word" where "RTM_GETROUTE = 26"

definition NLM_F_REQUEST :: "16 word" where "NLM_F_REQUEST = 0x1"
definition NLM_F_ACK :: "16 word" where "NLM_F_ACK = 0x4"
definition NLM_F_DUMP :: "16 word" where "NLM_F_DUMP = 0x300"
definition NLM_F_REPLACE :: "16 word" where "NLM_F_REPLACE = 0x100"
definition NLM_F_EXCL :: "16 word" where "NLM_F_EXCL = 0x200"
definition NLM_F_CREATE :: "16 word" where "NLM_F_CREATE = 0x400"

lemmas nl_type_defs = iflaIfname_def iflaAddress_def iflaMaster_def iflaLinkInfo_def
  iflaNetNsPid_def iflaInfoKind_def iflaInfoData_def vethInfoPeer_def ifaLocal_def ifaAddress_def
  rtaOif_def rtaGateway_def
lemmas nl_len_defs = nlmsgHdrLen_def ifInfomsgLen_def ifAddrmsgLen_def rtmsgLen_def
lemmas nl_msg_defs = NLMSG_ERROR_def NLMSG_DONE_def RTM_NEWLINK_def RTM_GETLINK_def
  RTM_NEWADDR_def RTM_NEWROUTE_def RTM_GETROUTE_def


section \<open>Attributes\<close>

definition nlAlign :: "nat \<Rightarrow> nat" where
  "nlAlign n = nat ((int n + 3) AND NOT 3)"

definition nlAttr :: "16 word \<Rightarrow> bytes \<Rightarrow> bytes" where
  "nlAttr typ data =
     (let l = 4 + length data;
          b = replicate (nlAlign l) 0;
          b = copy_range 0 2 (le16 (of_nat l)) b;
          b = copy_range 2 4 (le16 typ) b
      in copy_range 4 (nlAlign l) data b)"

definition string_bytes :: "string \<Rightarrow> bytes" where
  "string_bytes s = map (\<lambda>c. word_of_nat (of_char c)) s"

definition bytes_string :: "bytes \<Rightarrow> string" where
  "bytes_string bs = map (\<lambda>b. char_of (unat b)) bs"

definition nlAttrStr :: "16 word \<Rightarrow> string \<Rightarrow> bytes" where
  "nlAttrStr typ s = nlAttr typ (string_bytes s @ [0])"

definition nlAttrU32 :: "16 word \<Rightarrow> 32 word \<Rightarrow> bytes" where
  "nlAttrU32 typ v = nlAttr typ (le32 v)"

definition trimNul :: "bytes \<Rightarrow> string" where
  "trimNul b = (if b \<noteq> [] \<and> last b = 0 then bytes_string (butlast b) else bytes_string b)"

lemma nlAlign_eq: "nlAlign n = 4 * ((n + 3) div 4)"
proof -
  have "(int n + 3) AND NOT 3 = (int n + 3) AND NOT (mask 2)" by (simp add: mask_eq_exp_minus_1)
  also have "\<dots> = push_bit 2 (drop_bit 2 (int n + 3))"
  proof (rule bit_eqI)
    fix k
    show "bit ((int n + 3) AND NOT (mask 2)) k = bit (push_bit 2 (drop_bit 2 (int n + 3))) k"
    proof (cases "k < 2")
      case True
      then show ?thesis by (simp add: bit_simps)
    next
      case False
      then obtain j where "k = 2 + j" using le_Suc_ex not_less by blast
      then show ?thesis by (simp add: bit_simps)
    qed
  qed
  also have "\<dots> = int (4 * ((n + 3) div 4))"
    by (simp add: push_bit_eq_mult drop_bit_eq_div zdiv_int)
  finally show ?thesis by (simp add: nlAlign_def)
qed

lemma nlAlign_bounds: "4 dvd nlAlign n" "n \<le> nlAlign n" "nlAlign n < n + 4"
  by (simp add: nlAlign_eq, unfold nlAlign_eq, arith+)

lemma nlAlign_mult [simp]: "nlAlign (4 * k) = 4 * k"
  by (simp add: nlAlign_eq)

lemma nlAlign_dvd: "4 dvd n \<Longrightarrow> nlAlign n = n"
  by (auto elim!: dvdE)

text \<open>An attribute on the wire: length, type, value, zero padding.\<close>

lemma nlAttr_eq:
  "nlAttr typ data = le16 (of_nat (4 + length data)) @ le16 typ @ data @
     replicate (nlAlign (4 + length data) - (4 + length data)) 0"
proof -
  let ?l = "4 + length data"
  have le: "?l \<le> nlAlign ?l" by (rule nlAlign_bounds)
  have 1: "copy_range 0 2 (le16 (of_nat ?l)) (replicate (nlAlign ?l) 0) =
      le16 (of_nat ?l) @ replicate (nlAlign ?l - 2) (0::byte)"
    by (subst copy_range_fill_first) simp_all
  have 2: "copy_range 2 4 (le16 typ) (le16 (of_nat ?l) @ replicate (nlAlign ?l - 2) 0) =
      (le16 (of_nat ?l) @ le16 typ) @ replicate (nlAlign ?l - 4) 0"
    by (subst copy_range_fill) simp_all
  have 3: "copy_range 4 (nlAlign ?l) data ((le16 (of_nat ?l) @ le16 typ) @ replicate (nlAlign ?l - 4) 0) =
      (le16 (of_nat ?l) @ le16 typ) @ data @ replicate (nlAlign ?l - ?l) 0"
    using le by (auto simp: copy_range_def)
  show ?thesis unfolding nlAttr_def Let_def 1 2 3 by simp
qed

lemma length_nlAttr [simp]: "length (nlAttr typ data) = nlAlign (4 + length data)"
  using nlAlign_bounds(2) [of "4 + length data"] by (simp add: nlAttr_eq)

lemma bytes_string_string_bytes [simp]: "bytes_string (string_bytes s) = s"
proof -
  have "unat (word_of_nat (of_char c) :: byte) = of_char c" for c :: char
    using nat_of_char_less_256 [of c] by (simp add: unat_of_nat take_bit_nat_eq_self)
  then show ?thesis by (induction s) (simp_all add: bytes_string_def string_bytes_def)
qed

lemma trimNul_string [simp]: "trimNul (string_bytes s @ [0]) = s"
  by (simp add: trimNul_def)


section \<open>Messages and the parsers of syscall\<close>

record nlmsg =
  nm_type :: "16 word"
  nm_flags :: "16 word"
  nm_seq :: "32 word"
  nm_pid :: "32 word"
  nm_data :: bytes

record rtattr =
  ra_type :: "16 word"
  ra_value :: bytes

text \<open>The buffer that \<open>send\<close> transmits.\<close>

definition nl_frame :: "nlmsg \<Rightarrow> bytes" where
  "nl_frame m =
     (let total = nlmsgHdrLen + length (nm_data m);
          buf = replicate total 0;
          buf = copy_range 0 4 (le32 (of_nat total)) buf;
          buf = copy_range 4 6 (le16 (nm_type m)) buf;
          buf = copy_range 6 8 (le16 (nm_flags m)) buf;
          buf = copy_range 8 12 (le32 (nm_seq m)) buf;
          buf = copy_range 12 16 (le32 (nm_pid m)) buf
      in copy_range 16 total (nm_data m) buf)"

lemma nl_frame_eq:
  "nl_frame m = le32 (of_nat (16 + length (nm_data m))) @ le16 (nm_type m) @ le16 (nm_flags m) @
     le32 (nm_seq m) @ le32 (nm_pid m) @ nm_data m"
  unfolding nl_frame_def Let_def nlmsgHdrLen_def
  by (simp add: copy_range_fill_first copy_range_fill del: append_assoc)

lemma length_nl_frame [simp]: "length (nl_frame m) = 16 + length (nm_data m)"
  by (simp add: nl_frame_eq)

text \<open>
  \<open>syscall.ParseNetlinkMessage\<close>: one message, then all messages of a datagram. A message is
  given with the bytes from its data to the end of the receive buffer (\<open>tail\<close>, with \<open>spare\<close>
  zero bytes past the datagram), since \<open>m.Data[0:4]\<close> may read past the data within that
  capacity.
\<close>

definition nlmsg_step :: "bytes \<Rightarrow> (nlmsg \<times> bytes) option" where
  "nlmsg_step b =
     (let len = unat (get_le32 b); l = nlAlign len
      in if length b < 16 \<or> len < 16 \<or> length b < l then None
         else Some (\<lparr>nm_type = get_le16 (drop 4 b), nm_flags = get_le16 (drop 6 b),
                     nm_seq = get_le32 (drop 8 b), nm_pid = get_le32 (drop 12 b),
                     nm_data = take (len - 16) (drop 16 b)\<rparr>, drop l b))"

lemma nlmsg_step_shorter: "nlmsg_step b = Some (m, rest) \<Longrightarrow> length rest < length b"
proof -
  assume a: "nlmsg_step b = Some (m, rest)"
  then have "16 \<le> unat (get_le32 b)" "rest = drop (nlAlign (unat (get_le32 b))) b" "16 \<le> length b"
    by (auto simp: nlmsg_step_def Let_def split: if_splits)
  moreover have "unat (get_le32 b) \<le> nlAlign (unat (get_le32 b))" by (rule nlAlign_bounds)
  ultimately show ?thesis by simp
qed

function parse_nlmsgs :: "nat \<Rightarrow> bytes \<Rightarrow> (nlmsg \<times> bytes) list res" where
  "parse_nlmsgs spare b =
     (if length b < 16 then Ok []
      else case nlmsg_step b of
          None \<Rightarrow> Err (Errno EINVAL)
        | Some (m, rest) \<Rightarrow>
            (case parse_nlmsgs spare rest of
               Ok ms \<Rightarrow> Ok ((m, drop 16 b @ replicate spare 0) # ms)
             | e \<Rightarrow> e))"
  by pat_completeness auto
termination
  by (relation "measure (\<lambda>(spare, b). length b)") (auto dest: nlmsg_step_shorter)

declare parse_nlmsgs.simps [simp del]

text \<open>\<open>syscall.ParseNetlinkRouteAttr\<close>: the attributes after the fixed header of the message's
  type. A last attribute whose padding is cut off makes \<open>b[alen:]\<close> panic.\<close>

definition rtattr_step :: "bytes \<Rightarrow> (rtattr \<times> bytes) option" where
  "rtattr_step b =
     (let len = unat (get_le16 b)
      in if length b < 4 \<or> len < 4 \<or> length b < len \<or> length b < nlAlign len then None
         else Some (\<lparr>ra_type = get_le16 (drop 2 b), ra_value = take (len - 4) (drop 4 b)\<rparr>,
                    drop (nlAlign len) b))"

lemma rtattr_step_shorter: "rtattr_step b = Some (a, rest) \<Longrightarrow> length rest < length b"
proof -
  assume a: "rtattr_step b = Some (a, rest)"
  then have "4 \<le> unat (get_le16 b)" "rest = drop (nlAlign (unat (get_le16 b))) b" "4 \<le> length b"
    by (auto simp: rtattr_step_def Let_def split: if_splits)
  moreover have "unat (get_le16 b) \<le> nlAlign (unat (get_le16 b))" by (rule nlAlign_bounds)
  ultimately show ?thesis by simp
qed

function parse_rtattrs :: "bytes \<Rightarrow> rtattr list res" where
  "parse_rtattrs b =
     (if length b < 4 then Ok []
      else if unat (get_le16 b) < 4 \<or> length b < unat (get_le16 b) then Err (Errno EINVAL)
      else case rtattr_step b of
          None \<Rightarrow> Panic
        | Some (a, rest) \<Rightarrow> (case parse_rtattrs rest of Ok as \<Rightarrow> Ok (a # as) | e \<Rightarrow> e))"
  by pat_completeness auto
termination
  by (relation "measure length") (auto dest: rtattr_step_shorter)

declare parse_rtattrs.simps [simp del]

definition route_attr_offset :: "16 word \<Rightarrow> nat option" where
  "route_attr_offset ty =
     (if ty = 16 \<or> ty = 17 then Some 16
      else if ty = 20 \<or> ty = 21 then Some 8
      else if ty = 24 \<or> ty = 25 then Some 12 else None)"

definition parse_route_attrs :: "nlmsg \<Rightarrow> rtattr list res" where
  "parse_route_attrs m = (case route_attr_offset (nm_type m) of
       None \<Rightarrow> Err (Errno EINVAL)
     | Some off \<Rightarrow> if length (nm_data m) < off then Panic else parse_rtattrs (drop off (nm_data m)))"


section \<open>Encoders and parsers agree\<close>

definition frame_ok :: "nlmsg \<Rightarrow> bool" where
  "frame_ok m \<longleftrightarrow> 4 dvd length (nm_data m) \<and> length (nm_data m) < 2 ^ 32 - 16"

definition attr_bytes :: "rtattr \<Rightarrow> bytes" where
  "attr_bytes a = nlAttr (ra_type a) (ra_value a)"

definition attr_ok :: "rtattr \<Rightarrow> bool" where
  "attr_ok a \<longleftrightarrow> length (ra_value a) < 2 ^ 16 - 4"

lemma unat_of_nat_len: "n < 2 ^ LENGTH('a) \<Longrightarrow> unat (of_nat n :: 'a::len word) = n"
  by (simp add: unat_of_nat take_bit_nat_eq_self)

interpretation messages: framing nl_frame nlmsg_step frame_ok
proof
  fix m
  show "nl_frame m \<noteq> []" by (simp add: nl_frame_eq le32_def)
next
  fix m rest
  assume ok: "frame_ok m"
  let ?n = "16 + length (nm_data m)"
  have len: "unat (of_nat ?n :: 32 word) = ?n"
    by (rule unat_of_nat_len) (use ok in \<open>simp add: frame_ok_def\<close>)
  have al: "nlAlign ?n = ?n" by (rule nlAlign_dvd) (use ok in \<open>simp add: frame_ok_def\<close>)
  have g: "get_le32 (nl_frame m @ rest) = of_nat ?n" by (simp add: nl_frame_eq)
  have d: "drop 4 (nl_frame m @ rest) = le16 (nm_type m) @ le16 (nm_flags m) @ le32 (nm_seq m) @
      le32 (nm_pid m) @ nm_data m @ rest"
    "drop 6 (nl_frame m @ rest) = le16 (nm_flags m) @ le32 (nm_seq m) @ le32 (nm_pid m) @ nm_data m @ rest"
    "drop 8 (nl_frame m @ rest) = le32 (nm_seq m) @ le32 (nm_pid m) @ nm_data m @ rest"
    "drop 12 (nl_frame m @ rest) = le32 (nm_pid m) @ nm_data m @ rest"
    "drop 16 (nl_frame m @ rest) = nm_data m @ rest"
    by (simp_all add: nl_frame_eq)
  show "nlmsg_step (nl_frame m @ rest) = Some (m, rest)"
    unfolding nlmsg_step_def g len al Let_def d
    by (simp add: nl_frame_eq)
qed

interpretation attrs: framing attr_bytes rtattr_step attr_ok
proof
  fix a
  show "attr_bytes a \<noteq> []" by (simp add: attr_bytes_def nlAttr_eq le16_def)
next
  fix a rest
  assume ok: "attr_ok a"
  let ?n = "4 + length (ra_value a)"
  have len: "unat (of_nat ?n :: 16 word) = ?n"
    by (rule unat_of_nat_len) (use ok in \<open>simp add: attr_ok_def\<close>)
  have le: "?n \<le> nlAlign ?n" by (rule nlAlign_bounds)
  have g: "get_le16 (attr_bytes a @ rest) = of_nat ?n" by (simp add: attr_bytes_def nlAttr_eq)
  have d: "drop 2 (attr_bytes a @ rest) = le16 (ra_type a) @ ra_value a @
      replicate (nlAlign ?n - ?n) 0 @ rest"
    "drop 4 (attr_bytes a @ rest) = ra_value a @ replicate (nlAlign ?n - ?n) 0 @ rest"
    "drop (nlAlign ?n) (attr_bytes a @ rest) = rest"
    using le by (simp_all add: attr_bytes_def nlAttr_eq)
  have l: "length (attr_bytes a @ rest) = nlAlign ?n + length rest" by (simp add: attr_bytes_def)
  show "rtattr_step (attr_bytes a @ rest) = Some (a, rest)"
    unfolding rtattr_step_def g len Let_def d l using le by simp
qed

lemma parse_nlmsgs_decode:
  "decode_all nlmsg_step fuel b = Some ms \<Longrightarrow>
     \<exists>ts. parse_nlmsgs spare b = Ok ts \<and> map fst ts = ms"
proof (induction fuel arbitrary: b ms)
  case 0
  then show ?case by (cases b) (auto simp: parse_nlmsgs.simps)
next
  case (Suc fuel)
  show ?case
  proof (cases b)
    case Nil
    then show ?thesis using Suc.prems by (auto simp: parse_nlmsgs.simps)
  next
    case (Cons x xs)
    then obtain m rest ms' where st: "nlmsg_step b = Some (m, rest)"
      and ms: "decode_all nlmsg_step fuel rest = Some ms'" "ms = m # ms'"
      using Suc.prems by (auto split: option.splits)
    from Suc.IH [OF ms(1)] obtain ts where ts: "parse_nlmsgs spare rest = Ok ts" "map fst ts = ms'"
      by blast
    have "\<not> length b < 16" using st by (auto simp: nlmsg_step_def Let_def split: if_splits)
    then show ?thesis using st ts ms(2) by (subst parse_nlmsgs.simps) auto
  qed
qed

lemma parse_rtattrs_decode:
  "decode_all rtattr_step fuel b = Some as \<Longrightarrow> parse_rtattrs b = Ok as"
proof (induction fuel arbitrary: b as)
  case 0
  then show ?case by (cases b) (auto simp: parse_rtattrs.simps)
next
  case (Suc fuel)
  show ?case
  proof (cases b)
    case Nil
    then show ?thesis using Suc.prems by (auto simp: parse_rtattrs.simps)
  next
    case (Cons x xs)
    then obtain a rest as' where st: "rtattr_step b = Some (a, rest)"
      and as: "decode_all rtattr_step fuel rest = Some as'" "as = a # as'"
      using Suc.prems by (auto split: option.splits)
    have "\<not> length b < 4" "\<not> unat (get_le16 b) < 4" "\<not> length b < unat (get_le16 b)"
      using st by (auto simp: rtattr_step_def Let_def split: if_splits)
    then show ?thesis using st Suc.IH [OF as(1)] as(2) by (subst parse_rtattrs.simps) auto
  qed
qed

lemma parse_rtattrs_concat:
  "\<forall>a \<in> set as. attr_ok a \<Longrightarrow> parse_rtattrs (concat (map attr_bytes as)) = Ok as"
  by (rule parse_rtattrs_decode [OF attrs.decode_all_concat [of _ "length as"]]) simp_all


section \<open>The socket\<close>

record nlSocket =
  so_fd :: int
  so_seq :: "32 word"
  so_pid :: "32 word"

definition nlOpen :: "kernel \<Rightarrow> nlSocket res io" where
  "nlOpen K =
     try_io (os_int K (Socket 16 3 0)) (\<lambda>fd.
     State_Monad.bind (os_unit K (Bind fd NetlinkAddr)) (\<lambda>r. case r of
         Err e \<Rightarrow> State_Monad.bind (os_ignore K (CloseFd fd)) (\<lambda>_. err_io e)
       | _ \<Rightarrow> State_Monad.bind (os_int K (Getsockname fd)) (\<lambda>p.
           ok_io \<lparr>so_fd = fd, so_seq = 0,
                  so_pid = (case p of Ok n \<Rightarrow> word_of_int n | _ \<Rightarrow> 0)\<rparr>)))"

definition nlClose :: "kernel \<Rightarrow> nlSocket \<Rightarrow> unit io" where
  "nlClose K s = os_ignore K (CloseFd (so_fd s))"

text \<open>\<open>send\<close> bumps the socket's sequence number before it frames the message.\<close>

definition nl_bump :: "nlSocket \<Rightarrow> nlSocket" where
  "nl_bump s = s\<lparr>so_seq := so_seq s + 1\<rparr>"

definition nl_request :: "nlSocket \<Rightarrow> 16 word \<Rightarrow> 16 word \<Rightarrow> bytes \<Rightarrow> nlmsg" where
  "nl_request s msgType flags body =
     \<lparr>nm_type = msgType, nm_flags = flags, nm_seq = so_seq s + 1, nm_pid = so_pid s, nm_data = body\<rparr>"

definition nl_send :: "kernel \<Rightarrow> nlSocket \<Rightarrow> 16 word \<Rightarrow> 16 word \<Rightarrow> bytes \<Rightarrow> 32 word res io" where
  "nl_send K s msgType flags body =
     State_Monad.bind (os_unit K (Sendto (so_fd s) (nl_frame (nl_request s msgType flags body)) NetlinkAddr))
       (\<lambda>r. State_Monad.return (case r of Ok _ \<Rightarrow> Ok (so_seq s + 1) | Err e \<Rightarrow> Err e | Panic \<Rightarrow> Panic | Hang \<Rightarrow> Hang))"


section \<open>Waiting for replies\<close>

text \<open>
  The receive loop shared by all requests: read a datagram, parse it, and let \<open>scan\<close> look
  through its messages; \<open>scan\<close> either decides the result or asks for the next datagram.
\<close>

fun recv_loop :: "nat \<Rightarrow> kernel \<Rightarrow> int \<Rightarrow> nat \<Rightarrow> ((nlmsg \<times> bytes) list \<Rightarrow> 'a res option) \<Rightarrow> 'a res io" where
  "recv_loop 0 K fd cap scan = State_Monad.return Hang"
| "recv_loop (Suc fuel) K fd cap scan =
     try_io (os_bytes K (Recvfrom fd cap)) (\<lambda>b.
       case parse_nlmsgs (cap - length b) b of
         Ok ms \<Rightarrow> (case scan ms of Some r \<Rightarrow> State_Monad.return r | None \<Rightarrow> recv_loop fuel K fd cap scan)
       | Err e \<Rightarrow> err_io e
       | Panic \<Rightarrow> State_Monad.return Panic
       | Hang \<Rightarrow> State_Monad.return Hang)"

text \<open>\<open>int32(nlOrder.Uint32(m.Data[0:4]))\<close>, negated to an errno; the slice panics past the
  buffer's capacity.\<close>

definition msg_errno :: "bytes \<Rightarrow> int res" where
  "msg_errno tail = (if length tail < 4 then Panic else Ok (sint (get_le32 tail)))"

definition neg_errno :: "int \<Rightarrow> int" where
  "neg_errno e = sint (- (word_of_int e :: 32 word))"

fun scan_ack :: "32 word \<Rightarrow> (nlmsg \<times> bytes) list \<Rightarrow> unit res option" where
  "scan_ack seq [] = None"
| "scan_ack seq ((m, tail) # ms) =
     (if nm_seq m \<noteq> seq then scan_ack seq ms
      else if nm_type m = NLMSG_ERROR then
        Some (case msg_errno tail of
                Ok e \<Rightarrow> if e = 0 then Ok () else Err (Wrap ''netlink'' (Errno (neg_errno e)))
              | _ \<Rightarrow> Panic)
      else if nm_type m = NLMSG_DONE then Some (Ok ())
      else scan_ack seq ms)"

definition recvAck :: "nat \<Rightarrow> kernel \<Rightarrow> nlSocket \<Rightarrow> 32 word \<Rightarrow> unit res io" where
  "recvAck fuel K s seq = recv_loop fuel K (so_fd s) 8192 (scan_ack seq)"

definition nl_transact :: "nat \<Rightarrow> kernel \<Rightarrow> nlSocket \<Rightarrow> 16 word \<Rightarrow> 16 word \<Rightarrow> bytes \<Rightarrow> unit res io" where
  "nl_transact fuel K s msgType flags body =
     try_io (nl_send K s msgType flags body) (\<lambda>seq. recvAck fuel K (nl_bump s) seq)"


section \<open>Requests\<close>

definition new_excl :: "16 word" where
  "new_excl = NLM_F_REQUEST OR NLM_F_ACK OR NLM_F_CREATE OR NLM_F_EXCL"

text \<open>The peer of a veth pair: an empty ifinfomsg, the peer's name and its network namespace.\<close>

definition peer_body :: "string \<Rightarrow> int \<Rightarrow> bytes" where
  "peer_body peerName peerPid =
     concat [replicate ifInfomsgLen 0, nlAttrStr iflaIfname peerName,
             nlAttrU32 iflaNetNsPid (word_of_int peerPid)]"

definition veth_link_info :: "string \<Rightarrow> int \<Rightarrow> bytes" where
  "veth_link_info peerName peerPid =
     nlAttr iflaLinkInfo (concat
       [nlAttrStr iflaInfoKind ''veth'',
        nlAttr iflaInfoData (nlAttr vethInfoPeer (peer_body peerName peerPid))])"

definition veth_body :: "string \<Rightarrow> string \<Rightarrow> int \<Rightarrow> bytes" where
  "veth_body name peerName peerPid =
     concat [replicate ifInfomsgLen 0, nlAttrStr iflaIfname name, veth_link_info peerName peerPid]"

definition createVethPeerNetns :: "nat \<Rightarrow> kernel \<Rightarrow> nlSocket \<Rightarrow> string \<Rightarrow> string \<Rightarrow> int \<Rightarrow> unit res io" where
  "createVethPeerNetns fuel K s name peerName peerPid =
     nl_transact fuel K s RTM_NEWLINK new_excl (veth_body name peerName peerPid)"

definition bridge_body :: "string \<Rightarrow> bytes" where
  "bridge_body name =
     concat [replicate ifInfomsgLen 0, nlAttrStr iflaIfname name,
             nlAttr iflaLinkInfo (nlAttrStr iflaInfoKind ''bridge'')]"

definition createBridge :: "nat \<Rightarrow> kernel \<Rightarrow> nlSocket \<Rightarrow> string \<Rightarrow> unit res io" where
  "createBridge fuel K s name = nl_transact fuel K s RTM_NEWLINK new_excl (bridge_body name)"

definition veth_on_bridge_body :: "string \<Rightarrow> string \<Rightarrow> int \<Rightarrow> int \<Rightarrow> bytes" where
  "veth_on_bridge_body hostName peerName peerPid masterIndex =
     concat [replicate ifInfomsgLen 0, nlAttrStr iflaIfname hostName,
             veth_link_info peerName peerPid, nlAttrU32 iflaMaster (word_of_int masterIndex)]"

definition createVethOnBridge ::
  "nat \<Rightarrow> kernel \<Rightarrow> nlSocket \<Rightarrow> string \<Rightarrow> string \<Rightarrow> int \<Rightarrow> int \<Rightarrow> unit res io" where
  "createVethOnBridge fuel K s hostName peerName peerPid masterIndex =
     nl_transact fuel K s RTM_NEWLINK new_excl (veth_on_bridge_body hostName peerName peerPid masterIndex)"

definition addr_header :: "int \<Rightarrow> int \<Rightarrow> bytes" where
  "addr_header ifindex prefix =
     copy_range 4 8 (le32 (word_of_int ifindex))
       ((replicate ifAddrmsgLen 0)[0 := AF_INET, 1 := word_of_int prefix])"

definition addr_body :: "int \<Rightarrow> bytes \<Rightarrow> int \<Rightarrow> bytes" where
  "addr_body ifindex v4 prefix =
     concat [addr_header ifindex prefix, nlAttr ifaLocal v4, nlAttr ifaAddress v4]"

definition addAddrV4 :: "nat \<Rightarrow> kernel \<Rightarrow> nlSocket \<Rightarrow> int \<Rightarrow> ip \<Rightarrow> int \<Rightarrow> unit res io" where
  "addAddrV4 fuel K s ifindex addr prefix = (case to4 addr of
       None \<Rightarrow> err_io (Text ''not an IPv4 address'')
     | Some v4 \<Rightarrow>
         nl_transact fuel K s RTM_NEWADDR (NLM_F_REQUEST OR NLM_F_ACK OR NLM_F_CREATE OR NLM_F_REPLACE)
           (addr_body ifindex v4 prefix))"

definition route_header :: bytes where
  "route_header = (replicate rtmsgLen 0)
     [0 := AF_INET, 1 := 0, 4 := rtTableMain, 5 := rtProtBoot, 6 := rtScopeUniverse, 7 := rtnUnicast]"

definition route_body :: "bytes \<Rightarrow> int \<Rightarrow> bytes" where
  "route_body v4 ifindex =
     concat [route_header, nlAttr rtaGateway v4, nlAttrU32 rtaOif (word_of_int ifindex)]"

definition addDefaultRouteV4 :: "nat \<Rightarrow> kernel \<Rightarrow> nlSocket \<Rightarrow> ip \<Rightarrow> int \<Rightarrow> unit res io" where
  "addDefaultRouteV4 fuel K s gw ifindex = (case to4 gw of
       None \<Rightarrow> err_io (Text ''not an IPv4 gateway'')
     | Some v4 \<Rightarrow>
         nl_transact fuel K s RTM_NEWROUTE (NLM_F_REQUEST OR NLM_F_ACK OR NLM_F_CREATE)
           (route_body v4 ifindex))"


section \<open>Dumps\<close>

definition dump_error :: "string \<Rightarrow> bytes \<Rightarrow> 'a res" where
  "dump_error what tail = (case msg_errno tail of
       Ok e \<Rightarrow> Err (Wrap what (Errno (neg_errno e)))
     | _ \<Rightarrow> Panic)"

fun scan_gateway :: "32 word \<Rightarrow> (nlmsg \<times> bytes) list \<Rightarrow> ip res option" where
  "scan_gateway seq [] = None"
| "scan_gateway seq ((m, tail) # ms) =
     (if nm_seq m \<noteq> seq then scan_gateway seq ms
      else if nm_type m = NLMSG_DONE then Some (Ok None)
      else if nm_type m = NLMSG_ERROR then Some (dump_error ''GETROUTE dump'' tail)
      else if nm_type m = RTM_NEWROUTE then
        (if length (nm_data m) < rtmsgLen \<or> nm_data m ! 1 \<noteq> 0 then scan_gateway seq ms
         else case parse_route_attrs m of
             Ok as \<Rightarrow>
               (case find (\<lambda>a. ra_type a = rtaGateway \<and> length (ra_value a) = 4) as of
                  Some a \<Rightarrow> Some (Ok (to4 (Some (ra_value a))))
                | None \<Rightarrow> scan_gateway seq ms)
           | Err e \<Rightarrow> scan_gateway seq ms
           | _ \<Rightarrow> Some Panic)
      else scan_gateway seq ms)"

definition nl_dump ::
  "nat \<Rightarrow> kernel \<Rightarrow> nlSocket \<Rightarrow> 16 word \<Rightarrow> nat \<Rightarrow> (32 word \<Rightarrow> (nlmsg \<times> bytes) list \<Rightarrow> 'a res option) \<Rightarrow> 'a res io" where
  "nl_dump fuel K s msgType hdrLen scan =
     try_io (nl_send K s msgType (NLM_F_REQUEST OR NLM_F_DUMP) (replicate hdrLen 0))
       (\<lambda>seq. recv_loop fuel K (so_fd s) 16384 (scan seq))"

definition defaultRouteGateway :: "nat \<Rightarrow> kernel \<Rightarrow> nlSocket \<Rightarrow> ip res io" where
  "defaultRouteGateway fuel K s = nl_dump fuel K s RTM_GETROUTE rtmsgLen scan_gateway"

text \<open>\<open>int(ifi.Index)\<close>: the signed index at offset 4 of the ifinfomsg.\<close>

definition link_index :: "nlmsg \<Rightarrow> int" where
  "link_index m = sint (get_le32 (drop 4 (nm_data m)))"

fun scan_link_index :: "string \<Rightarrow> 32 word \<Rightarrow> (nlmsg \<times> bytes) list \<Rightarrow> int res option" where
  "scan_link_index name seq [] = None"
| "scan_link_index name seq ((m, tail) # ms) =
     (if nm_seq m \<noteq> seq then scan_link_index name seq ms
      else if nm_type m = NLMSG_DONE then Some (Err (Text ''interface not found''))
      else if nm_type m = NLMSG_ERROR then Some (dump_error ''GETLINK dump'' tail)
      else if nm_type m = RTM_NEWLINK then
        (if nm_data m = [] then Some Panic
         else case parse_route_attrs m of
             Ok as \<Rightarrow>
               (if \<exists>a \<in> set as. ra_type a = iflaIfname \<and> trimNul (ra_value a) = name
                then Some (Ok (link_index m)) else scan_link_index name seq ms)
           | Err e \<Rightarrow> scan_link_index name seq ms
           | _ \<Rightarrow> Some Panic)
      else scan_link_index name seq ms)"

definition linkIndexByName :: "nat \<Rightarrow> kernel \<Rightarrow> nlSocket \<Rightarrow> string \<Rightarrow> int res io" where
  "linkIndexByName fuel K s name = nl_dump fuel K s RTM_GETLINK ifInfomsgLen (scan_link_index name)"

text \<open>\<open>linkByName\<close>: the last IFLA_IFNAME decides whether the link matches, the last six-byte
  IFLA_ADDRESS is its MAC.\<close>

fun link_attrs :: "string \<Rightarrow> rtattr list \<Rightarrow> bool \<times> bytes option \<Rightarrow> bool \<times> bytes option" where
  "link_attrs name [] acc = acc"
| "link_attrs name (a # as) (matched, mac) =
     link_attrs name as
       (if ra_type a = iflaIfname then (trimNul (ra_value a) = name, mac)
        else if ra_type a = iflaAddress then
          (matched, if length (ra_value a) = 6 then Some (ra_value a) else mac)
        else (matched, mac))"

fun scan_link :: "string \<Rightarrow> 32 word \<Rightarrow> (nlmsg \<times> bytes) list \<Rightarrow> (int \<times> bytes option) res option" where
  "scan_link name seq [] = None"
| "scan_link name seq ((m, tail) # ms) =
     (if nm_seq m \<noteq> seq then scan_link name seq ms
      else if nm_type m = NLMSG_DONE then Some (Err (Text ''interface not found''))
      else if nm_type m = NLMSG_ERROR then Some (dump_error ''GETLINK dump'' tail)
      else if nm_type m = RTM_NEWLINK then
        (if nm_data m = [] then Some Panic
         else case parse_route_attrs m of
             Ok as \<Rightarrow>
               (case link_attrs name as (False, None) of
                  (matched, mac) \<Rightarrow> if matched then Some (Ok (link_index m, mac))
                                   else scan_link name seq ms)
           | Err e \<Rightarrow> scan_link name seq ms
           | _ \<Rightarrow> Some Panic)
      else scan_link name seq ms)"

definition linkByName :: "nat \<Rightarrow> kernel \<Rightarrow> nlSocket \<Rightarrow> string \<Rightarrow> (int \<times> bytes option) res io" where
  "linkByName fuel K s name = nl_dump fuel K s RTM_GETLINK ifInfomsgLen (scan_link name)"


section \<open>Correctness of the encoding\<close>

text \<open>Rounding up to the netlink alignment gives the least multiple of four that
  is not smaller.\<close>

lemma nlAlign_least: "4 dvd nlAlign n \<and> n \<le> nlAlign n \<and> nlAlign n < n + 4"
  using nlAlign_bounds by blast

text \<open>The attribute parser recovers exactly the types and values from
  the concatenation of any list of encoded attributes whose values fit the 16-bit length.\<close>

lemma rtattr_roundtrip:
  assumes "\<forall>a \<in> set as. length (ra_value a) < 2 ^ 16 - 4"
  shows "parse_rtattrs (concat (map (\<lambda>a. nlAttr (ra_type a) (ra_value a)) as)) = Ok as"
  using parse_rtattrs_concat [of as] assms by (simp add: attr_ok_def attr_bytes_def [abs_def])

text \<open>C34 (message round trip): what \<open>send\<close> transmits parses to one message with the requested
  type, flags and body, the socket's port id and the next sequence number, and nothing else.\<close>

theorem nl_send_wire:
  assumes "4 dvd length body" and "length body < 2 ^ 32 - 16"
  shows "\<exists>buf tail. made (nl_send K s ty fl body) h = [Sendto (so_fd s) buf NetlinkAddr]
    \<and> parse_nlmsgs spare buf = Ok [(\<lparr>nm_type = ty, nm_flags = fl, nm_seq = so_seq s + 1,
          nm_pid = so_pid s, nm_data = body\<rparr>, tail)]"
proof -
  let ?m = "nl_request s ty fl body"
  have "frame_ok ?m" using assms by (simp add: frame_ok_def nl_request_def)
  then have "decode_all nlmsg_step 1 (concat (map nl_frame [?m])) = Some [?m]"
    by (intro messages.decode_all_concat) auto
  then obtain ts where "parse_nlmsgs spare (nl_frame ?m) = Ok ts" "map fst ts = [?m]"
    using parse_nlmsgs_decode [of 1 "nl_frame ?m" "[?m]" spare] by auto
  moreover have "made (nl_send K s ty fl body) h = [Sendto (so_fd s) (nl_frame ?m) NetlinkAddr]"
    by (simp add: nl_send_def made_def events_def)
  ultimately show ?thesis by (auto simp: nl_request_def)
qed

theorem nl_send_wire_witness:
  "\<exists>buf tail. made (nl_send (\<lambda>h c. RUnit) \<lparr>so_fd = 3, so_seq = 6, so_pid = 42\<rparr> RTM_GETLINK 0x301
        (replicate 16 0)) [] = [Sendto 3 buf NetlinkAddr]
    \<and> parse_nlmsgs 0 buf = Ok [(\<lparr>nm_type = RTM_GETLINK, nm_flags = 0x301, nm_seq = 7,
          nm_pid = 42, nm_data = replicate 16 0\<rparr>, tail)]"
  using nl_send_wire [of "replicate 16 0" "\<lambda>h c. RUnit" "\<lparr>so_fd = 3, so_seq = 6, so_pid = 42\<rparr>"
      RTM_GETLINK "0x301" "[]" 0]
  by simp

lemma dvd_length_nlAttr: "4 dvd length (nlAttr t v)"
  using nlAlign_bounds(1) by simp

lemma attr_list_1: "nlAttr t v = concat (map attr_bytes [\<lparr>ra_type = t, ra_value = v\<rparr>])"
  by (simp add: attr_bytes_def)

lemma parse_one_attr:
  "length v < 2 ^ 16 - 4 \<Longrightarrow> parse_rtattrs (nlAttr t v) = Ok [\<lparr>ra_type = t, ra_value = v\<rparr>]"
  unfolding attr_list_1 by (rule parse_rtattrs_concat) (simp add: attr_ok_def)

lemma parse_two_attrs:
  "length v < 2 ^ 16 - 4 \<Longrightarrow> length w < 2 ^ 16 - 4 \<Longrightarrow>
     parse_rtattrs (nlAttr t v @ nlAttr u w) =
       Ok [\<lparr>ra_type = t, ra_value = v\<rparr>, \<lparr>ra_type = u, ra_value = w\<rparr>]"
  using parse_rtattrs_concat [of "[\<lparr>ra_type = t, ra_value = v\<rparr>, \<lparr>ra_type = u, ra_value = w\<rparr>]"]
  by (simp add: attr_ok_def attr_bytes_def)

lemma parse_three_attrs:
  "length v < 2 ^ 16 - 4 \<Longrightarrow> length w < 2 ^ 16 - 4 \<Longrightarrow> length x < 2 ^ 16 - 4 \<Longrightarrow>
     parse_rtattrs (nlAttr t v @ nlAttr u w @ nlAttr y x) =
       Ok [\<lparr>ra_type = t, ra_value = v\<rparr>, \<lparr>ra_type = u, ra_value = w\<rparr>, \<lparr>ra_type = y, ra_value = x\<rparr>]"
  using parse_rtattrs_concat
    [of "[\<lparr>ra_type = t, ra_value = v\<rparr>, \<lparr>ra_type = u, ra_value = w\<rparr>, \<lparr>ra_type = y, ra_value = x\<rparr>]"]
  by (simp add: attr_ok_def attr_bytes_def)

lemma length_string_bytes [simp]: "length (string_bytes s) = length s"
  by (simp add: string_bytes_def)

lemma nlAlign_le: "nlAlign n \<le> n + 3"
  using nlAlign_bounds(3) [of n] by simp

text \<open>The nested structure of a veth request, read back layer by layer.\<close>

lemma peer_body_parse:
  assumes "length peer < 1000"
  shows "parse_rtattrs (drop ifInfomsgLen (peer_body peer pid)) =
    Ok [\<lparr>ra_type = iflaIfname, ra_value = string_bytes peer @ [0]\<rparr>,
        \<lparr>ra_type = iflaNetNsPid, ra_value = le32 (word_of_int pid)\<rparr>]"
  using assms by (simp add: peer_body_def nlAttrStr_def nlAttrU32_def parse_two_attrs)

lemma length_peer_body:
  assumes "length peer < 1000" shows "length (peer_body peer pid) < 1100"
  using assms nlAlign_le [of "4 + Suc (length peer)"]
  by (simp add: peer_body_def nlAttrStr_def nlAttrU32_def ifInfomsgLen_def nlAlign_eq [of 8])

lemma link_info_parse:
  assumes "length peer < 1000"
  shows "\<exists>kind data. parse_rtattrs (veth_link_info peer pid) =
      Ok [\<lparr>ra_type = iflaLinkInfo, ra_value = kind @ data\<rparr>]
    \<and> parse_rtattrs (kind @ data) =
      Ok [\<lparr>ra_type = iflaInfoKind, ra_value = string_bytes ''veth'' @ [0]\<rparr>,
          \<lparr>ra_type = iflaInfoData, ra_value = nlAttr vethInfoPeer (peer_body peer pid)\<rparr>]
    \<and> parse_rtattrs (nlAttr vethInfoPeer (peer_body peer pid)) =
      Ok [\<lparr>ra_type = vethInfoPeer, ra_value = peer_body peer pid\<rparr>]
    \<and> length (kind @ data) < 1200"
proof -
  let ?p = "peer_body peer pid"
  have p: "length ?p < 1100" by (rule length_peer_body [OF assms])
  have q: "length (nlAttr vethInfoPeer ?p) < 1108"
    using p nlAlign_le [of "4 + length ?p"] by simp
  have r: "length (nlAttr iflaInfoData (nlAttr vethInfoPeer ?p)) < 1116"
    using q nlAlign_le [of "4 + length (nlAttr vethInfoPeer ?p)"] by simp
  have k: "length (nlAttrStr iflaInfoKind ''veth'') = 12"
    by (simp add: nlAttrStr_def nlAlign_eq)
  show ?thesis
    using p q r k
    by (intro exI [of _ "nlAttrStr iflaInfoKind ''veth''"]
        exI [of _ "nlAttr iflaInfoData (nlAttr vethInfoPeer ?p)"] conjI)
      (simp_all add: veth_link_info_def parse_one_attr parse_two_attrs nlAttrStr_def del: length_nlAttr)
qed


lemma length_veth_link_info:
  assumes "length peer < 1000" shows "length (veth_link_info peer pid) < 1300"
proof -
  have p: "length (peer_body peer pid) < 1100" by (rule length_peer_body [OF assms])
  show ?thesis
    using p nlAlign_le [of "4 + length (peer_body peer pid)"]
      nlAlign_le [of "4 + nlAlign (4 + length (peer_body peer pid))"]
      nlAlign_le [of "4 + (nlAlign 9 + nlAlign (4 + nlAlign (4 + length (peer_body peer pid))))"]
      nlAlign_le [of 9]
    by (simp add: veth_link_info_def nlAttrStr_def)
qed

text \<open>The body of the request that attaches a pod to a bridge reads back,
  layer by layer, as a link with the host name and the bridge as master, of kind \<open>veth\<close>, whose
  peer has the given name and lands in the network namespace of the given process.\<close>

lemma veth_on_bridge_meaning:
  assumes "length host < 1000" and "length peer < 1000"
  shows "\<exists>info peerinfo pb.
      parse_rtattrs (drop ifInfomsgLen (veth_on_bridge_body host peer pid master)) =
        Ok [\<lparr>ra_type = iflaIfname, ra_value = string_bytes host @ [0]\<rparr>,
            \<lparr>ra_type = iflaLinkInfo, ra_value = info\<rparr>,
            \<lparr>ra_type = iflaMaster, ra_value = le32 (word_of_int master)\<rparr>]
    \<and> parse_rtattrs info = Ok [\<lparr>ra_type = iflaInfoKind, ra_value = string_bytes ''veth'' @ [0]\<rparr>,
            \<lparr>ra_type = iflaInfoData, ra_value = peerinfo\<rparr>]
    \<and> parse_rtattrs peerinfo = Ok [\<lparr>ra_type = vethInfoPeer, ra_value = pb\<rparr>]
    \<and> parse_rtattrs (drop ifInfomsgLen pb) =
        Ok [\<lparr>ra_type = iflaIfname, ra_value = string_bytes peer @ [0]\<rparr>,
            \<lparr>ra_type = iflaNetNsPid, ra_value = le32 (word_of_int pid)\<rparr>]"
proof -
  let ?kind = "nlAttrStr iflaInfoKind ''veth''"
  let ?pi = "nlAttr vethInfoPeer (peer_body peer pid)"
  have p: "length (peer_body peer pid) < 1100" by (rule length_peer_body [OF assms(2)])
  have q: "length ?pi < 1108" using p nlAlign_le [of "4 + length (peer_body peer pid)"] by simp
  have r: "length (?kind @ nlAttr iflaInfoData ?pi) < 1200"
    using q nlAlign_le [of "4 + length ?pi"] by (simp add: nlAttrStr_def nlAlign_eq [of 9])
  have 1: "parse_rtattrs (drop ifInfomsgLen (veth_on_bridge_body host peer pid master)) =
        Ok [\<lparr>ra_type = iflaIfname, ra_value = string_bytes host @ [0]\<rparr>,
            \<lparr>ra_type = iflaLinkInfo, ra_value = ?kind @ nlAttr iflaInfoData ?pi\<rparr>,
            \<lparr>ra_type = iflaMaster, ra_value = le32 (word_of_int master)\<rparr>]"
    using assms(1) r parse_three_attrs [of "string_bytes host @ [0]" "?kind @ nlAttr iflaInfoData ?pi"
        "le32 (word_of_int master)" iflaIfname iflaLinkInfo iflaMaster]
    by (simp add: veth_on_bridge_body_def veth_link_info_def nlAttrStr_def nlAttrU32_def del: length_nlAttr)
  have 2: "parse_rtattrs (?kind @ nlAttr iflaInfoData ?pi) =
      Ok [\<lparr>ra_type = iflaInfoKind, ra_value = string_bytes ''veth'' @ [0]\<rparr>,
          \<lparr>ra_type = iflaInfoData, ra_value = ?pi\<rparr>]"
    unfolding nlAttrStr_def by (rule parse_two_attrs) (use q in simp_all)
  have 3: "parse_rtattrs ?pi = Ok [\<lparr>ra_type = vethInfoPeer, ra_value = peer_body peer pid\<rparr>]"
    by (rule parse_one_attr) (use p in simp)
  show ?thesis using 1 2 3 peer_body_parse [OF assms(2)] by blast
qed


section \<open>Correctness of the waits\<close>

lemma only_recv_loop [only_intros]:
  "only (\<lambda>c. c = Recvfrom fd cap) (recv_loop fuel K fd cap scan)"
  by (induction fuel) (auto intro!: only_intros split: res.splits option.splits)

text \<open>The history after \<open>n\<close> receives, and the loop's behaviour along it.\<close>

fun recv_hist :: "kernel \<Rightarrow> int \<Rightarrow> nat \<Rightarrow> hist \<Rightarrow> nat \<Rightarrow> hist" where
  "recv_hist K fd cap h 0 = h"
| "recv_hist K fd cap h (Suc n) =
     recv_hist K fd cap (h @ [(Recvfrom fd cap, K h (Recvfrom fd cap))]) n"

definition undecided :: "((nlmsg \<times> bytes) list \<Rightarrow> 'a res option) \<Rightarrow> nat \<Rightarrow> reply \<Rightarrow> bool" where
  "undecided scan cap r \<longleftrightarrow> (case r of
      RBytes b \<Rightarrow> (case parse_nlmsgs (cap - length b) b of Ok ms \<Rightarrow> scan ms = None | _ \<Rightarrow> False)
    | _ \<Rightarrow> False)"

lemma recv_loop_answer:
  assumes "\<forall>i. i < n \<longrightarrow> undecided scan cap (K (recv_hist K fd cap h i) (Recvfrom fd cap))"
    and "K (recv_hist K fd cap h n) (Recvfrom fd cap) = RBytes b"
    and "parse_nlmsgs (cap - length b) b = Ok ms" and "scan ms = Some r" and "n < fuel"
  shows "result (recv_loop fuel K fd cap scan) h = r"
  using assms
proof (induction n arbitrary: h fuel)
  case 0
  then obtain f where "fuel = Suc f" by (cases fuel) auto
  then show ?case using 0 by (simp add: run_try_io)
next
  case (Suc n)
  then obtain f where f: "fuel = Suc f" "n < f" by (cases fuel) auto
  let ?c = "Recvfrom fd cap"
  let ?h = "h @ [(?c, K h ?c)]"
  have "undecided scan cap (K h ?c)" using Suc.prems(1) by (force dest: spec [of _ 0])
  then obtain b0 ms0 where b0: "K h ?c = RBytes b0" "parse_nlmsgs (cap - length b0) b0 = Ok ms0" "scan ms0 = None"
    by (auto simp: undecided_def split: reply.splits res.splits)
  have "result (recv_loop f K fd cap scan) ?h = r"
  proof (rule Suc.IH)
    show "\<forall>i. i < n \<longrightarrow> undecided scan cap (K (recv_hist K fd cap ?h i) ?c)"
      using Suc.prems(1) by (metis Suc_less_eq recv_hist.simps(2))
  qed (use Suc.prems f in simp_all)
  then show ?case using b0 by (simp add: f run_try_io)
qed

lemma recv_loop_sound:
  assumes "result (recv_loop fuel K fd cap scan) h = Ok a"
  shows "\<exists>b ms. (Recvfrom fd cap, RBytes b) \<in> set (events (recv_loop fuel K fd cap scan) h)
    \<and> parse_nlmsgs (cap - length b) b = Ok ms \<and> scan ms = Some (Ok a)"
  using assms
proof (induction fuel arbitrary: h)
  case 0
  then show ?case by simp
next
  case (Suc fuel)
  let ?c = "Recvfrom fd cap"
  let ?h = "h @ [(?c, K h ?c)]"
  from Suc.prems obtain b where b: "K h ?c = RBytes b"
    by (cases "K h ?c") (auto simp: run_try_io)
  from Suc.prems b obtain ms where ms: "parse_nlmsgs (cap - length b) b = Ok ms"
    by (auto simp: run_try_io split: res.splits)
  show ?case
  proof (cases "scan ms")
    case None
    have r: "run_state (recv_loop (Suc fuel) K fd cap scan) h = run_state (recv_loop fuel K fd cap scan) ?h"
      using b ms None by (simp add: run_try_io)
    have "after (recv_loop fuel K fd cap scan) ?h = ?h @ events (recv_loop fuel K fd cap scan) ?h"
      by (rule after_events [OF only_recv_loop])
    then have "events (recv_loop (Suc fuel) K fd cap scan) h =
        (?c, K h ?c) # events (recv_loop fuel K fd cap scan) ?h"
      by (simp add: events_def [of "recv_loop (Suc fuel) K fd cap scan"] r del: recv_loop.simps)
    then show ?thesis using Suc.IH [of ?h] Suc.prems r by (auto simp del: recv_loop.simps)
  next
    case (Some x)
    then show ?thesis using Suc.prems b ms
      by (intro exI [of _ b] exI [of _ ms]) (auto simp: run_try_io events_def)
  qed
qed

lemma scan_ack_Ok:
  "scan_ack seq ms = Some (Ok ()) \<Longrightarrow> \<exists>m tail. (m, tail) \<in> set ms \<and> nm_seq m = seq \<and>
     (nm_type m = NLMSG_DONE \<or> (nm_type m = NLMSG_ERROR \<and> 4 \<le> length tail \<and> get_le32 tail = 0))"
proof (induction seq ms rule: scan_ack.induct)
  case (2 seq m tail ms)
  show ?case
  proof (cases "nm_seq m = seq \<and> (nm_type m = NLMSG_ERROR \<or> nm_type m = NLMSG_DONE)")
    case True
    then show ?thesis using "2.prems"
      by (auto simp: msg_errno_def signed_eq_0_iff split: if_splits intro!: exI [of _ m] exI [of _ tail])
  next
    case False
    then have "scan_ack seq ms = Some (Ok ())" using "2.prems" by (auto split: if_splits)
    then show ?thesis using False "2.IH" by (cases "nm_seq m = seq") auto
  qed
qed simp

text \<open>C32 (acknowledgments are sound): \<open>recvAck\<close> reports success only if some datagram it
  received holds a message with the request's own sequence number that is either a DONE or an
  ERROR message with code zero; messages of other requests never count.\<close>

theorem recvAck_sound:
  assumes "result (recvAck fuel K s seq) h = Ok ()"
  shows "\<exists>b ms m tail. (Recvfrom (so_fd s) 8192, RBytes b) \<in> set (events (recvAck fuel K s seq) h)
    \<and> parse_nlmsgs (8192 - length b) b = Ok ms \<and> (m, tail) \<in> set ms \<and> nm_seq m = seq
    \<and> (nm_type m = NLMSG_DONE \<or> (nm_type m = NLMSG_ERROR \<and> 4 \<le> length tail \<and> get_le32 tail = 0))"
  using recv_loop_sound [OF assms [unfolded recvAck_def]] scan_ack_Ok
  unfolding recvAck_def by metis

text \<open>A datagram that holds one well-formed message parses to that message, its data followed by
  the spare bytes of the buffer.\<close>

lemma parse_nlmsgs_frame:
  assumes "frame_ok m"
  shows "parse_nlmsgs spare (nl_frame m) = Ok [(m, nm_data m @ replicate spare 0)]"
proof -
  have "nlmsg_step (nl_frame m) = Some (m, [])" using messages.dec_enc [OF assms, of "[]"] by simp
  moreover have "drop 16 (nl_frame m) = nm_data m" by (simp add: nl_frame_eq)
  ultimately show ?thesis by (subst parse_nlmsgs.simps) (simp add: parse_nlmsgs.simps [of spare "[]"])
qed

definition ack_msg :: "32 word \<Rightarrow> int \<Rightarrow> bytes \<Rightarrow> nlmsg" where
  "ack_msg seq e orig = \<lparr>nm_type = NLMSG_ERROR, nm_flags = 0, nm_seq = seq, nm_pid = 0,
                         nm_data = le32 (word_of_int (- e)) @ orig\<rparr>"

lemma sint_word_small:
  "- (2 ^ 31) \<le> k \<Longrightarrow> k < 2 ^ 31 \<Longrightarrow> sint (word_of_int k :: 32 word) = k"
  by (simp add: sint_sbintrunc' signed_take_bit_int_eq_self)

lemma scan_ack_msg:
  assumes "0 \<le> e" "e < 4096"
  shows "scan_ack seq [(ack_msg seq e orig, nm_data (ack_msg seq e orig) @ rest)] =
     Some (if e = 0 then Ok () else Err (Wrap ''netlink'' (Errno e)))"
proof -
  have s: "sint (word_of_int (- e) :: 32 word) = - e"
    by (rule sint_word_small) (use assms in simp_all)
  have n: "neg_errno (- e) = e"
    unfolding neg_errno_def of_int_minus minus_minus
    by (rule sint_word_small) (use assms in simp_all)
  show ?thesis by (simp add: ack_msg_def msg_errno_def s n del: of_int_minus)
qed

lemma frame_ok_ack: "4 dvd length orig \<Longrightarrow> length orig < 2 ^ 31 \<Longrightarrow> frame_ok (ack_msg seq e orig)"
  by (simp add: frame_ok_def ack_msg_def)

text \<open>A kernel that answers every receive with an acknowledgment of request 1.\<close>

definition acking :: "int \<Rightarrow> kernel" where
  "acking e h c = RBytes (nl_frame (ack_msg 1 e (replicate 16 0)))"

theorem recvAck_sound_witness:
  "\<exists>b ms m tail.
     (Recvfrom 5 8192, RBytes b) \<in> set (events (recvAck 1 (acking 0) \<lparr>so_fd = 5, so_seq = 1, so_pid = 0\<rparr> 1) [])
    \<and> parse_nlmsgs (8192 - length b) b = Ok ms \<and> (m, tail) \<in> set ms \<and> nm_seq m = 1"
proof -
  let ?s = "\<lparr>so_fd = 5, so_seq = 1, so_pid = 0\<rparr>"
  have "result (recvAck 1 (acking 0) ?s 1) [] = Ok ()"
    unfolding recvAck_def
    by (rule recv_loop_answer [where n = 0, OF _ _ parse_nlmsgs_frame [of "ack_msg 1 0 (replicate 16 0)"]])
       (simp_all add: acking_def frame_ok_ack scan_ack_msg del: scan_ack.simps)
  from recvAck_sound [OF this] show ?thesis by auto
qed

text \<open>C33 (the answer is found): once the kernel acknowledges the request with errno \<open>e\<close>, after any
  number of datagrams that do not concern it, \<open>recvAck\<close> returns, with success for \<open>e = 0\<close> and
  with exactly the errno \<open>e\<close> otherwise.\<close>

theorem recvAck_answered:
  assumes "\<forall>i. i < n \<longrightarrow> undecided (scan_ack seq) 8192
                       (K (recv_hist K (so_fd s) 8192 h i) (Recvfrom (so_fd s) 8192))"
    and "K (recv_hist K (so_fd s) 8192 h n) (Recvfrom (so_fd s) 8192) =
           RBytes (nl_frame (ack_msg seq e orig))"
    and "frame_ok (ack_msg seq e orig)" and "0 \<le> e" and "e < 4096" and "n < fuel"
  shows "result (recvAck fuel K s seq) h =
    (if e = 0 then Ok () else Err (Wrap ''netlink'' (Errno e)))"
  unfolding recvAck_def
  by (rule recv_loop_answer [OF assms(1,2) parse_nlmsgs_frame [OF assms(3)] scan_ack_msg [OF assms(4,5)] assms(6)])

theorem recvAck_answered_witness:
  "result (recvAck 1 (acking 17) \<lparr>so_fd = 5, so_seq = 1, so_pid = 0\<rparr> 1) [] = Err (Wrap ''netlink'' (Errno 17))"
  using recvAck_answered [of 0 1 "acking 17" "\<lparr>so_fd = 5, so_seq = 1, so_pid = 0\<rparr>" "[]" 17 "replicate 16 0" 1]
  by (simp add: acking_def frame_ok_ack)

end
