(* ===== verification/Json.thy ===== *)
theory Json
  imports OsModel
begin

text \<open>
  The part of Go's \<open>encoding/json\<close> that the program uses for the OCI documents and for its own
  state files: the compact printer with its escapes, the parser, and the rules by which
  \<open>json.Unmarshal\<close> fills a struct (exact field names before case-insensitive ones, \<open>null\<close> changes
  nothing, a value of the wrong type is an error). Strings are byte strings; bytes from 0x80 on pass
  through unchanged, as they do for valid UTF-8. The parser's fuel is the length of the text: every
  recursive call consumes at least one character.
\<close>

datatype json =
    JNull
  | JBool bool
  | JNum string
  | JStr string
  | JArr "json list"
  | JObj "(string \<times> json) list"


section \<open>Printing\<close>

definition hex_digit :: "nat \<Rightarrow> char" where
  "hex_digit d = (if d < 10 then char_of (48 + d) else char_of (87 + d))"

definition quote_char :: char where "quote_char = CHR 0x22"
definition escape_mark :: char where "escape_mark = CHR 0x5C"

lemmas mark_defs = quote_char_def escape_mark_def

definition json_escape :: "char \<Rightarrow> string" where
  "json_escape c =
     (let n = of_char c :: nat in
      if c = quote_char \<or> c = escape_mark then [escape_mark, c]
      else if n = 8 then [escape_mark, CHR ''b'']
      else if n = 9 then [escape_mark, CHR ''t'']
      else if n = 10 then [escape_mark, CHR ''n'']
      else if n = 12 then [escape_mark, CHR ''f'']
      else if n = 13 then [escape_mark, CHR ''r'']
      else if n < 32 \<or> c \<in> {CHR ''<'', CHR ''>'', CHR ''&''}
        then [escape_mark, CHR ''u'', CHR ''0'', CHR ''0'', hex_digit (n div 16), hex_digit (n mod 16)]
      else [c])"

definition json_quote :: "string \<Rightarrow> string" where
  "json_quote s = quote_char # concat (map json_escape s) @ [quote_char]"

fun json_print :: "json \<Rightarrow> string" where
  "json_print JNull = ''null''"
| "json_print (JBool b) = (if b then ''true'' else ''false'')"
| "json_print (JNum s) = s"
| "json_print (JStr s) = json_quote s"
| "json_print (JArr vs) = ''['' @ join_with '','' (map json_print vs) @ '']''"
| "json_print (JObj kvs) = ''{'' @ join_with '','' (map (\<lambda>(k, v). json_quote k @ '':'' @ json_print v) kvs) @ ''}''"


section \<open>Parsing strings and numbers\<close>

definition hex_val :: "char \<Rightarrow> nat option" where
  "hex_val c =
     (let n = of_char c :: nat in
      if 48 \<le> n \<and> n \<le> 57 then Some (n - 48)
      else if 97 \<le> n \<and> n \<le> 102 then Some (n - 87)
      else if 65 \<le> n \<and> n \<le> 70 then Some (n - 55)
      else None)"

definition hex4 :: "string \<Rightarrow> (nat \<times> string) option" where
  "hex4 s = (case s of
       a # b # c # d # rest \<Rightarrow>
         (case (hex_val a, hex_val b, hex_val c, hex_val d) of
            (Some w, Some x, Some y, Some z) \<Rightarrow> Some (4096 * w + 256 * x + 16 * y + z, rest)
          | _ \<Rightarrow> None)
     | _ \<Rightarrow> None)"

definition utf8_encode :: "nat \<Rightarrow> string" where
  "utf8_encode n =
     (if n < 0x80 then [char_of n]
      else if n < 0x800 then [char_of (0xC0 + n div 64), char_of (0x80 + n mod 64)]
      else if n < 0x10000 then
        [char_of (0xE0 + n div 4096), char_of (0x80 + n div 64 mod 64), char_of (0x80 + n mod 64)]
      else [char_of (0xF0 + n div 262144), char_of (0x80 + n div 4096 mod 64),
            char_of (0x80 + n div 64 mod 64), char_of (0x80 + n mod 64)])"

text \<open>After the escape with four hex digits: a surrogate pair is one character, a lone surrogate the replacement character.\<close>

definition unescape_u :: "string \<Rightarrow> (string \<times> string) option" where
  "unescape_u s = (case hex4 s of
       None \<Rightarrow> None
     | Some (n, rest) \<Rightarrow>
         if 0xD800 \<le> n \<and> n < 0xE000 then
           (case (if n < 0xDC00 \<and> take 2 rest = [escape_mark, CHR ''u''] then hex4 (drop 2 rest) else None) of
              Some (m, rest') \<Rightarrow>
                if 0xDC00 \<le> m \<and> m < 0xE000
                then Some (utf8_encode (0x10000 + 1024 * (n - 0xD800) + (m - 0xDC00)), rest')
                else Some (utf8_encode 0xFFFD, rest)
            | None \<Rightarrow> Some (utf8_encode 0xFFFD, rest))
         else Some (utf8_encode n, rest))"

definition unescape :: "string \<Rightarrow> (string \<times> string) option" where
  "unescape s = (case s of
       [] \<Rightarrow> None
     | c # rest \<Rightarrow>
         if c = quote_char \<or> c = escape_mark \<or> c = CHR ''/'' then Some ([c], rest)
         else if c = CHR ''b'' then Some ([CHR 0x08], rest)
         else if c = CHR ''f'' then Some ([CHR 0x0C], rest)
         else if c = CHR ''n'' then Some ([CHR 0x0A], rest)
         else if c = CHR ''r'' then Some ([CHR 0x0D], rest)
         else if c = CHR ''t'' then Some ([CHR 0x09], rest)
         else if c = CHR ''u'' then unescape_u rest
         else None)"

lemma hex4_shorter: "hex4 s = Some (n, rest) \<Longrightarrow> length rest < length s"
  by (auto simp: hex4_def split: list.splits option.splits)

lemma unescape_shorter: "unescape s = Some (out, rest) \<Longrightarrow> length rest < length s"
  by (auto simp: unescape_def unescape_u_def split: list.splits if_splits option.splits dest!: hex4_shorter)

text \<open>The rest of a string literal after its opening quote.\<close>

function str_body :: "string \<Rightarrow> (string \<times> string) option" where
  "str_body s = (case s of
       [] \<Rightarrow> None
     | c # r \<Rightarrow>
         if c = quote_char then Some ([], r)
         else if c = escape_mark then
           (case unescape r of
              None \<Rightarrow> None
            | Some (out, r') \<Rightarrow> map_option (\<lambda>(t, r''). (out @ t, r'')) (str_body r'))
         else if (of_char c :: nat) < 32 then None
         else map_option (\<lambda>(t, r''). (c # t, r'')) (str_body r))"
  by pat_completeness auto
termination
  by (relation "measure length") (auto dest: unescape_shorter)

declare str_body.simps [simp del]

text \<open>A number literal: sign, integer part without leading zeros, fraction, exponent.\<close>

definition digits_prefix :: "string \<Rightarrow> (string \<times> string) option" where
  "digits_prefix s = (let ds = takeWhile is_digit s in if ds = [] then None else Some (ds, dropWhile is_digit s))"

definition num_frac :: "string \<Rightarrow> (string \<times> string) option" where
  "num_frac s = (case s of
       c # r \<Rightarrow> if c = CHR ''.'' then map_option (\<lambda>(ds, r'). (c # ds, r')) (digits_prefix r) else Some ([], s)
     | [] \<Rightarrow> Some ([], s))"

definition num_exp :: "string \<Rightarrow> (string \<times> string) option" where
  "num_exp s = (case s of
       c # r \<Rightarrow>
         if c = CHR ''e'' \<or> c = CHR ''E'' then
           (let (sg, r1) = (case r of x # r0 \<Rightarrow> if x = CHR ''+'' \<or> x = CHR ''-'' then ([x], r0) else ([], r) | [] \<Rightarrow> ([], r))
            in map_option (\<lambda>(ds, r'). (c # sg @ ds, r')) (digits_prefix r1))
         else Some ([], s)
     | [] \<Rightarrow> Some ([], s))"

definition num_int :: "string \<Rightarrow> (string \<times> string) option" where
  "num_int s = (case s of
       c # r \<Rightarrow> if c = CHR ''0'' then Some ([c], r) else digits_prefix s
     | [] \<Rightarrow> None)"

definition json_number :: "string \<Rightarrow> (string \<times> string) option" where
  "json_number s =
     (let (sg, s1) = (case s of c # r \<Rightarrow> if c = CHR ''-'' then ([c], r) else ([], s) | [] \<Rightarrow> ([], s))
      in case num_int s1 of
           None \<Rightarrow> None
         | Some (i, s2) \<Rightarrow> (case num_frac s2 of
               None \<Rightarrow> None
             | Some (f, s3) \<Rightarrow> (case num_exp s3 of
                   None \<Rightarrow> None
                 | Some (e, s4) \<Rightarrow> Some (sg @ i @ f @ e, s4))))"


section \<open>Parsing values\<close>

definition json_space :: "char \<Rightarrow> bool" where
  "json_space c \<longleftrightarrow> c \<in> {CHR '' '', CHR 0x09, CHR 0x0A, CHR 0x0D}"

definition skip_ws :: "string \<Rightarrow> string" where
  "skip_ws s = dropWhile json_space s"

text \<open>One character after white space.\<close>

definition expect :: "char \<Rightarrow> string \<Rightarrow> string option" where
  "expect c s = (case skip_ws s of x # r \<Rightarrow> if x = c then Some r else None | [] \<Rightarrow> None)"

definition json_scalar :: "string \<Rightarrow> (json \<times> string) option" where
  "json_scalar s =
     (if hasPrefix s ''true'' then Some (JBool True, drop 4 s)
      else if hasPrefix s ''false'' then Some (JBool False, drop 5 s)
      else if hasPrefix s ''null'' then Some (JNull, drop 4 s)
      else map_option (\<lambda>(lit, r). (JNum lit, r)) (json_number s))"

fun json_value :: "nat \<Rightarrow> string \<Rightarrow> (json \<times> string) option"
  and json_elems :: "nat \<Rightarrow> string \<Rightarrow> (json list \<times> string) option"
  and json_members :: "nat \<Rightarrow> string \<Rightarrow> ((string \<times> json) list \<times> string) option" where
  "json_value 0 s = None"
| "json_value (Suc n) s =
     (case expect quote_char s of
        Some r \<Rightarrow> map_option (\<lambda>(t, r'). (JStr t, r')) (str_body r)
      | None \<Rightarrow> (case expect (CHR ''{'') s of
          Some r \<Rightarrow> (case expect (CHR ''}'') r of
              Some r' \<Rightarrow> Some (JObj [], r')
            | None \<Rightarrow> map_option (\<lambda>(kvs, r'). (JObj kvs, r')) (json_members n r))
        | None \<Rightarrow> (case expect (CHR ''['') s of
            Some r \<Rightarrow> (case expect (CHR '']'') r of
                Some r' \<Rightarrow> Some (JArr [], r')
              | None \<Rightarrow> map_option (\<lambda>(vs, r'). (JArr vs, r')) (json_elems n r))
          | None \<Rightarrow> json_scalar (skip_ws s))))"
| "json_elems 0 s = None"
| "json_elems (Suc n) s =
     (case json_value n s of
        None \<Rightarrow> None
      | Some (v, r) \<Rightarrow> (case expect (CHR '','') r of
          Some r' \<Rightarrow> map_option (\<lambda>(vs, r''). (v # vs, r'')) (json_elems n r')
        | None \<Rightarrow> map_option (\<lambda>r'. ([v], r')) (expect (CHR '']'') r)))"
| "json_members 0 s = None"
| "json_members (Suc n) s =
     (case expect quote_char s of
        None \<Rightarrow> None
      | Some r0 \<Rightarrow> (case str_body r0 of
          None \<Rightarrow> None
        | Some (k, r1) \<Rightarrow> (case expect (CHR '':'') r1 of
            None \<Rightarrow> None
          | Some r2 \<Rightarrow> (case json_value n r2 of
              None \<Rightarrow> None
            | Some (v, r) \<Rightarrow> (case expect (CHR '','') r of
                Some r' \<Rightarrow> map_option (\<lambda>(kvs, r''). ((k, v) # kvs, r'')) (json_members n r')
              | None \<Rightarrow> map_option (\<lambda>r'. ([(k, v)], r')) (expect (CHR ''}'') r))))))"

definition json_parse :: "string \<Rightarrow> json option" where
  "json_parse s = (case json_value (Suc (length s)) s of
       Some (v, r) \<Rightarrow> if skip_ws r = [] then Some v else None
     | None \<Rightarrow> None)"


section \<open>Filling a struct\<close>

definition json_error :: goerr where
  "json_error = Text ''json: cannot unmarshal''"

fun fold_res :: "('a \<Rightarrow> 'b \<Rightarrow> 'b res) \<Rightarrow> 'a list \<Rightarrow> 'b \<Rightarrow> 'b res" where
  "fold_res f [] b = Ok b"
| "fold_res f (x # xs) b = (case f x b of Ok b' \<Rightarrow> fold_res f xs b' | e \<Rightarrow> e)"

fun map_res :: "('a \<Rightarrow> 'b res) \<Rightarrow> 'a list \<Rightarrow> 'b list res" where
  "map_res f [] = Ok []"
| "map_res f (x # xs) = (case f x of
     Ok y \<Rightarrow> (case map_res f xs of Ok ys \<Rightarrow> Ok (y # ys) | Err e \<Rightarrow> Err e | Panic \<Rightarrow> Panic | Hang \<Rightarrow> Hang)
   | Err e \<Rightarrow> Err e | Panic \<Rightarrow> Panic | Hang \<Rightarrow> Hang)"

fun set_res :: "'a res \<Rightarrow> ('a \<Rightarrow> 'b) \<Rightarrow> 'b res" where
  "set_res (Ok a) f = Ok (f a)"
| "set_res (Err e) f = Err e"
| "set_res Panic f = Panic"
| "set_res Hang f = Hang"

definition dec_string :: "json \<Rightarrow> string \<Rightarrow> string res" where
  "dec_string v old = (case v of JStr s \<Rightarrow> Ok s | JNull \<Rightarrow> Ok old | _ \<Rightarrow> Err json_error)"

definition dec_bool :: "json \<Rightarrow> bool \<Rightarrow> bool res" where
  "dec_bool v old = (case v of JBool b \<Rightarrow> Ok b | JNull \<Rightarrow> Ok old | _ \<Rightarrow> Err json_error)"

text \<open>An integer field with the range of its type.\<close>

definition dec_range :: "int \<Rightarrow> int \<Rightarrow> json \<Rightarrow> int \<Rightarrow> int res" where
  "dec_range lo hi v old = (case v of
       JNum lit \<Rightarrow>
         (let neg = hasPrefix lit ''-''; ds = (if neg then tl lit else lit);
              n = (if neg then - digits_val ds else digits_val ds)
          in if ds \<noteq> [] \<and> list_all is_digit ds \<and> lo \<le> n \<and> n < hi then Ok n else Err json_error)
     | JNull \<Rightarrow> Ok old
     | _ \<Rightarrow> Err json_error)"

abbreviation dec_int64 :: "json \<Rightarrow> int \<Rightarrow> int res" where
  "dec_int64 \<equiv> dec_range (- (2 ^ 63)) (2 ^ 63)"

definition dec_list :: "(json \<Rightarrow> 'a res) \<Rightarrow> json \<Rightarrow> 'a list \<Rightarrow> 'a list res" where
  "dec_list d v old = (case v of JArr vs \<Rightarrow> map_res d vs | JNull \<Rightarrow> Ok [] | _ \<Rightarrow> Err json_error)"

text \<open>A pointer field: \<open>null\<close> clears it, any other value is decoded into what it points to, or into
  a fresh zero value.\<close>

definition dec_ptr :: "(json \<Rightarrow> 'a \<Rightarrow> 'a res) \<Rightarrow> 'a \<Rightarrow> json \<Rightarrow> 'a option \<Rightarrow> 'a option res" where
  "dec_ptr d zero v old = (case v of
       JNull \<Rightarrow> Ok None
     | _ \<Rightarrow> set_res (d v (case old of Some a \<Rightarrow> a | None \<Rightarrow> zero)) Some)"

definition json_field :: "string list \<Rightarrow> string \<Rightarrow> string" where
  "json_field names k =
     (if k \<in> set names then k else case find (equalFold k) names of Some f \<Rightarrow> f | None \<Rightarrow> [])"

text \<open>A struct: the members of the object in order, each decoded by \<open>d\<close> under the name of the field
  it matches; \<open>d\<close> ignores other names.\<close>

definition dec_struct :: "string list \<Rightarrow> (string \<Rightarrow> json \<Rightarrow> 'a \<Rightarrow> 'a res) \<Rightarrow> json \<Rightarrow> 'a \<Rightarrow> 'a res" where
  "dec_struct names d v old = (case v of
       JObj kvs \<Rightarrow> fold_res (\<lambda>(k, w). d (json_field names k) w) kvs old
     | JNull \<Rightarrow> Ok old
     | _ \<Rightarrow> Err json_error)"

definition json_unmarshal :: "(json \<Rightarrow> 'a \<Rightarrow> 'a res) \<Rightarrow> string \<Rightarrow> 'a \<Rightarrow> 'a res" where
  "json_unmarshal d text zero = (case json_parse text of
       None \<Rightarrow> Err (Text ''invalid JSON'')
     | Some v \<Rightarrow> d v zero)"


section \<open>Round trip\<close>

lemma hex_val_digit: "d < 16 \<Longrightarrow> hex_val (hex_digit d) = Some d"
  by (auto simp: hex_val_def hex_digit_def)

lemma json_escape_u:
  assumes "n = of_char c" "n < 128"
  shows "unescape ([CHR ''u'', CHR ''0'', CHR ''0'', hex_digit (n div 16), hex_digit (n mod 16)] @ s) = Some ([c], s)"
proof -
  have d: "n div 16 < 16" "n mod 16 < 16" using assms(2) by auto
  have z: "hex_val (CHR ''0'') = Some 0" by (simp add: hex_val_def)
  have e: "(256::nat) * 0 + 16 * (n div 16) + n mod 16 = n" by simp
  have "hex4 ([CHR ''0'', CHR ''0'', hex_digit (n div 16), hex_digit (n mod 16)] @ s) = Some (n, s)"
    by (simp add: hex4_def z hex_val_digit [OF d(1)] hex_val_digit [OF d(2)])
  moreover have "utf8_encode n = [c]" using assms by (simp add: utf8_encode_def)
  ultimately show ?thesis using assms(2) by (simp add: unescape_def unescape_u_def mark_defs)
qed

lemma str_body_plain:
  "c \<noteq> quote_char \<Longrightarrow> c \<noteq> escape_mark \<Longrightarrow> 32 \<le> (of_char c :: nat) \<Longrightarrow>
     str_body (c # s) = map_option (\<lambda>(t, r). (c # t, r)) (str_body s)"
  by (subst str_body.simps) simp

lemma str_body_escaped:
  "unescape r = Some (out, s) \<Longrightarrow>
     str_body (escape_mark # r) = map_option (\<lambda>(t, r). (out @ t, r)) (str_body s)"
  by (subst str_body.simps) (simp add: mark_defs)

lemma of_char_inj: "(of_char c :: nat) = of_char d \<Longrightarrow> c = d"
  by (metis char_of_char)

lemma str_body_short:
  "json_escape c = [escape_mark, e] \<Longrightarrow> unescape (e # s) = Some ([c], s) \<Longrightarrow>
     str_body (json_escape c @ s) = map_option (\<lambda>(t, r). (c # t, r)) (str_body s)"
  by (simp add: str_body_escaped)

lemma str_body_escape: "str_body (json_escape c @ s) = map_option (\<lambda>(t, r). (c # t, r)) (str_body s)"
proof -
  let ?n = "of_char c :: nat"
  consider "c = quote_char \<or> c = escape_mark" | "?n = 8" | "?n = 9" | "?n = 10" | "?n = 12" | "?n = 13"
    | (u) "c \<noteq> quote_char" "c \<noteq> escape_mark" "?n \<notin> {8, 9, 10, 12, 13}" "?n < 32 \<or> c \<in> {CHR ''<'', CHR ''>'', CHR ''&''}"
    | (p) "c \<noteq> quote_char" "c \<noteq> escape_mark" "\<not> ?n < 32" "c \<notin> {CHR ''<'', CHR ''>'', CHR ''&''}"
    by blast
  then show ?thesis
  proof cases
    case u
    have "?n < 128" using u(4) by auto
    from str_body_escaped [OF json_escape_u [OF refl this, of s]] u show ?thesis
      by (simp add: json_escape_def Let_def)
  next
    case p
    then have "json_escape c = [c]" by (simp add: json_escape_def Let_def)
    then show ?thesis using p by (simp add: str_body_plain)
  next
    case 1
    then show ?thesis by (intro str_body_short [of _ c]) (auto simp: json_escape_def Let_def unescape_def)
  next
    case 2
    then have "c = CHR 0x08" by (intro of_char_inj) simp
    then show ?thesis by (intro str_body_short [of _ "CHR ''b''"]) (simp_all add: json_escape_def unescape_def mark_defs)
  next
    case 3
    then have "c = CHR 0x09" by (intro of_char_inj) simp
    then show ?thesis by (intro str_body_short [of _ "CHR ''t''"]) (simp_all add: json_escape_def unescape_def mark_defs)
  next
    case 4
    then have "c = CHR 0x0A" by (intro of_char_inj) simp
    then show ?thesis by (intro str_body_short [of _ "CHR ''n''"]) (simp_all add: json_escape_def unescape_def mark_defs)
  next
    case 5
    then have "c = CHR 0x0C" by (intro of_char_inj) simp
    then show ?thesis by (intro str_body_short [of _ "CHR ''f''"]) (simp_all add: json_escape_def unescape_def mark_defs)
  next
    case 6
    then have "c = CHR 0x0D" by (intro of_char_inj) simp
    then show ?thesis by (intro str_body_short [of _ "CHR ''r''"]) (simp_all add: json_escape_def unescape_def mark_defs)
  qed
qed

lemma str_body_quoted: "str_body (concat (map json_escape s) @ quote_char # rest) = Some (s, rest)"
proof (induction s)
  case Nil
  then show ?case by (subst str_body.simps) simp
next
  case (Cons c s)
  then show ?case by (simp add: str_body_escape)
qed

text \<open>Integer literals, in front of anything that cannot continue a number.\<close>

definition num_end :: "string \<Rightarrow> bool" where
  "num_end r \<longleftrightarrow> r = [] \<or> hd r \<in> {CHR '','', CHR '']'', CHR ''}''}"

lemma num_end_stop:
  assumes "num_end r"
  shows "r = [] \<or> \<not> is_digit (hd r)" "num_frac r = Some ([], r)" "num_exp r = Some ([], r)"
  using assms by (cases r; auto simp: num_end_def is_digit_def num_frac_def num_exp_def)+

lemma digits_prefix_all:
  assumes "list_all is_digit ds" "ds \<noteq> []" "num_end r"
  shows "digits_prefix (ds @ r) = Some (ds, r)"
proof -
  have "takeWhile is_digit r = []" "dropWhile is_digit r = r"
    using num_end_stop(1) [OF assms(3)] by (cases r; auto)+
  moreover have "\<forall>x \<in> set ds. is_digit x" using assms(1) by (simp add: list_all_iff)
  ultimately show ?thesis using assms(2) by (simp add: digits_prefix_def takeWhile_append2 dropWhile_append2)
qed

lemma num_int_digits: "num_end r \<Longrightarrow> num_int (nat_digits n @ r) = Some (nat_digits n, r)"
proof (cases "n = 0")
  case True
  have "char_of (48::nat) = CHR ''0''" by (rule of_char_inj) simp
  then show ?thesis using True by (simp add: num_int_def nat_digits.simps [of 0] digit_char_def)
next
  case False
  assume "num_end r"
  then have d: "digits_prefix (nat_digits n @ r) = Some (nat_digits n, r)"
    using nat_digits_all by (simp add: digits_prefix_all)
  have "hd (nat_digits n) \<noteq> CHR ''0''" using False nat_digits_hd by simp
  then show ?thesis using d by (cases "nat_digits n") (auto simp: num_int_def)
qed

lemma json_number_itoa: "num_end r \<Longrightarrow> json_number (itoa n @ r) = Some (itoa n, r)"
proof -
  assume e: "num_end r"
  have hd: "nat_digits k = x # xs \<Longrightarrow> x \<noteq> CHR ''-''" for k x xs
    using nat_digits_sign_free [of x k] by auto
  show ?thesis
  proof (cases "n < 0")
    case True
    then show ?thesis using e
      by (simp add: json_number_def itoa_def num_int_digits num_end_stop)
  next
    case False
    then obtain x xs where x: "nat_digits (nat n) = x # xs" using nat_digits_nonempty by (cases "nat_digits (nat n)") auto
    have "num_int (x # xs @ r) = Some (x # xs, r)" using num_int_digits [OF e, of "nat n"] x by simp
    then show ?thesis using e False x hd [OF x] by (simp add: json_number_def itoa_def num_end_stop)
  qed
qed

lemma itoa_hd: "\<exists>x xs. itoa n = x # xs \<and> (x = CHR ''-'' \<or> is_digit x)"
proof (cases "n < 0")
  case False
  then show ?thesis using nat_digits_all [of "nat n"] nat_digits_nonempty [of "nat n"]
    by (cases "nat_digits (nat n)") (auto simp: itoa_def)
qed (simp add: itoa_def)

fun json_ok :: "json \<Rightarrow> bool" where
  "json_ok (JNum s) = (case atoi s of Some n \<Rightarrow> itoa n = s | None \<Rightarrow> False)"
| "json_ok (JArr vs) = list_all json_ok vs"
| "json_ok (JObj kvs) = list_all (\<lambda>(k, v). json_ok v) kvs"
| "json_ok v = True"

lemma json_ok_num: "json_ok (JNum s) \<Longrightarrow> \<exists>n. s = itoa n"
  by (auto split: option.splits)

text \<open>The first character of a printed value.\<close>

definition starts :: "char \<Rightarrow> bool" where
  "starts x \<longleftrightarrow> \<not> json_space x \<and> x \<notin> {CHR '']'', CHR ''}'', CHR '','', CHR '':''}"

lemma digit_starts: "is_digit x \<Longrightarrow> starts x \<and> x \<notin> {quote_char, CHR ''{'', CHR ''['', CHR ''t'', CHR ''f'', CHR ''n''}"
  by (auto simp: starts_def is_digit_def json_space_def mark_defs)

lemma json_print_hd: "json_ok v \<Longrightarrow> \<exists>x xs. json_print v = x # xs \<and> starts x"
proof (cases v)
  case (JNum s)
  assume "json_ok v"
  then obtain n where "s = itoa n" using JNum json_ok_num by blast
  then show ?thesis using itoa_hd [of n] digit_starts JNum by (auto simp: starts_def json_space_def)
qed (auto simp: starts_def json_space_def json_quote_def mark_defs)

lemma expect_hd: "\<not> json_space x \<Longrightarrow> expect c (x # r) = (if x = c then Some r else None)"
  by (simp add: expect_def skip_ws_def)

lemma json_scalar_num:
  assumes "num_end r"
  shows "json_value (Suc f) (itoa n @ r) = Some (JNum (itoa n), r)"
proof -
  obtain x xs where x: "itoa n = x # xs" "x = CHR ''-'' \<or> is_digit x" using itoa_hd by blast
  have ns: "\<not> json_space x" using x(2) digit_starts by (auto simp: starts_def json_space_def)
  have nq: "x \<notin> {quote_char, CHR ''{'', CHR ''['', CHR ''t'', CHR ''f'', CHR ''n''}"
    using x(2) digit_starts by (auto simp: mark_defs)
  have "json_number (x # xs @ r) = Some (x # xs, r)" using json_number_itoa [OF assms, of n] x by simp
  then show ?thesis using ns nq by (simp add: x expect_hd json_scalar_def hasPrefix_def skip_ws_def)
qed

text \<open>Lists of values and of members, given that each value can be read back.\<close>

definition reads :: "json \<Rightarrow> bool" where
  "reads v \<longleftrightarrow> (\<forall>fuel rest. length (json_print v) \<le> fuel \<longrightarrow> num_end rest \<longrightarrow>
     json_value fuel (json_print v @ rest) = Some (v, rest))"

lemma join_with_Cons2: "join_with '','' (x # y # ys) = x @ CHR '','' # join_with '','' (y # ys)"
  by simp

lemma expect_self [simp]:
  "expect (CHR '','') (CHR '','' # r) = Some r" "expect (CHR '']'') (CHR '']'' # r) = Some r"
  "expect (CHR ''}'') (CHR ''}'' # r) = Some r" "expect (CHR '':'') (CHR '':'' # r) = Some r"
  "expect (CHR '','') (CHR '']'' # r) = None" "expect (CHR '','') (CHR ''}'' # r) = None"
  by (simp_all add: expect_hd json_space_def)

lemma num_end_simps [simp]:
  "num_end []" "num_end (CHR '','' # r)" "num_end (CHR '']'' # r)" "num_end (CHR ''}'' # r)"
  by (simp_all add: num_end_def)

lemma json_elems_print:
  assumes "vs \<noteq> []" "\<forall>v \<in> set vs. json_ok v \<and> reads v"
    and "length (join_with '','' (map json_print vs)) < fuel"
  shows "json_elems fuel (join_with '','' (map json_print vs) @ CHR '']'' # rest) = Some (vs, rest)"
  using assms
proof (induction vs arbitrary: fuel rule: list_nonempty_induct)
  case (single v)
  then obtain f where f: "fuel = Suc f" by (cases fuel) auto
  have "json_value f (json_print v @ CHR '']'' # rest) = Some (v, CHR '']'' # rest)"
    using single by (simp add: f reads_def)
  then show ?case by (simp add: f)
next
  case (cons v vs)
  then obtain w ws where w: "vs = w # ws" by (cases vs) auto
  obtain f where f: "fuel = Suc f" using cons.prems by (cases fuel) auto
  let ?tail = "join_with '','' (map json_print vs) @ CHR '']'' # rest"
  obtain x xs where "json_print v = x # xs" using json_print_hd [of v] cons.prems(1) by auto
  then have l: "length (json_print v) \<le> f" "length (join_with '','' (map json_print vs)) < f"
    using cons.prems(2) by (simp_all add: f w)
  have "json_value f (json_print v @ CHR '','' # ?tail) = Some (v, CHR '','' # ?tail)"
    using cons.prems(1) l by (simp add: reads_def)
  moreover have "json_elems f ?tail = Some (vs, rest)" using cons l by simp
  ultimately show ?case by (simp add: f w)
qed

lemma json_members_print:
  assumes "kvs \<noteq> []" "\<forall>(k, v) \<in> set kvs. json_ok v \<and> reads v"
    and "length (join_with '','' (map (\<lambda>(k, v). json_quote k @ '':'' @ json_print v) kvs)) < fuel"
  shows "json_members fuel (join_with '','' (map (\<lambda>(k, v). json_quote k @ '':'' @ json_print v) kvs) @ CHR ''}'' # rest)
     = Some (kvs, rest)"
  using assms
proof (induction kvs arbitrary: fuel rule: list_nonempty_induct)
  case (single kv)
  then obtain f where f: "fuel = Suc f" by (cases fuel) auto
  obtain k v where kv: "kv = (k, v)" by force
  have "json_value f (json_print v @ CHR ''}'' # rest) = Some (v, CHR ''}'' # rest)"
    using single by (simp add: f reads_def kv)
  then show ?case
    by (simp add: f kv json_quote_def expect_hd json_space_def mark_defs)
       (simp add: str_body_quoted [unfolded mark_defs])
next
  case (cons kv kvs)
  then obtain w ws where w: "kvs = w # ws" by (cases kvs) auto
  obtain f where f: "fuel = Suc f" using cons.prems by (cases fuel) auto
  obtain k v where kv: "kv = (k, v)" by force
  let ?p = "map (\<lambda>(k, v). json_quote k @ '':'' @ json_print v)"
  let ?tail = "join_with '','' (?p kvs) @ CHR ''}'' # rest"
  have l: "length (json_print v) \<le> f" "length (join_with '','' (?p kvs)) < f"
    using cons.prems(2) by (simp_all add: f w kv)
  have "json_value f (json_print v @ CHR '','' # ?tail) = Some (v, CHR '','' # ?tail)"
    using cons.prems(1) l by (simp add: reads_def kv)
  moreover have "json_members f ?tail = Some (kvs, rest)" using cons l by simp
  ultimately show ?case
    by (simp add: f w kv json_quote_def expect_hd json_space_def mark_defs)
       (simp add: str_body_quoted [unfolded mark_defs])
qed

lemma reads_string: "reads (JStr s)"
  unfolding reads_def
proof (intro allI impI)
  fix fuel rest assume l: "length (json_print (JStr s)) \<le> fuel"
  then obtain f where "fuel = Suc f" by (cases fuel) (auto simp: json_quote_def)
  then show "json_value fuel (json_print (JStr s) @ rest) = Some (JStr s, rest)"
    by (simp add: json_quote_def expect_hd json_space_def mark_defs) (simp add: str_body_quoted [unfolded mark_defs])
qed

lemma reads_number: "reads (JNum (itoa n))"
  unfolding reads_def
proof (intro allI impI)
  fix fuel rest assume "length (json_print (JNum (itoa n))) \<le> fuel" and r: "num_end rest"
  then obtain f where "fuel = Suc f" using itoa_hd [of n] by (cases fuel) auto
  then show "json_value fuel (json_print (JNum (itoa n)) @ rest) = Some (JNum (itoa n), rest)"
    using json_scalar_num r by simp
qed

lemma reads_array:
  assumes "\<forall>v \<in> set vs. json_ok v \<and> reads v"
  shows "reads (JArr vs)"
  unfolding reads_def
proof (intro allI impI)
  fix fuel rest assume l: "length (json_print (JArr vs)) \<le> fuel" and "num_end rest"
  then obtain f where f: "fuel = Suc f" by (cases fuel) auto
  show "json_value fuel (json_print (JArr vs) @ rest) = Some (JArr vs, rest)"
  proof (cases vs)
    case Nil
    then show ?thesis by (simp add: f expect_hd json_space_def mark_defs)
  next
    case (Cons v vs')
    have "json_elems f (join_with '','' (map json_print vs) @ CHR '']'' # rest) = Some (vs, rest)"
      using l Cons assms by (intro json_elems_print) (auto simp: f)
    moreover obtain x xs where "join_with '','' (map json_print vs) = x # xs" "starts x"
      using json_print_hd [of v] assms Cons by (cases vs') auto
    ultimately show ?thesis by (auto simp: f expect_hd json_space_def mark_defs starts_def)
  qed
qed

lemma reads_object:
  assumes "\<forall>(k, v) \<in> set kvs. json_ok v \<and> reads v"
  shows "reads (JObj kvs)"
  unfolding reads_def
proof (intro allI impI)
  fix fuel rest assume l: "length (json_print (JObj kvs)) \<le> fuel" and "num_end rest"
  then obtain f where f: "fuel = Suc f" by (cases fuel) auto
  let ?p = "map (\<lambda>(k, v). json_quote k @ '':'' @ json_print v)"
  show "json_value fuel (json_print (JObj kvs) @ rest) = Some (JObj kvs, rest)"
  proof (cases kvs)
    case Nil
    then show ?thesis by (simp add: f expect_hd json_space_def mark_defs)
  next
    case (Cons kv kvs')
    have "json_members f (join_with '','' (?p kvs) @ CHR ''}'' # rest) = Some (kvs, rest)"
      using l Cons assms by (intro json_members_print) (auto simp: f)
    moreover obtain xs where "join_with '','' (?p kvs) = quote_char # xs"
      using Cons by (cases kv; cases kvs') (auto simp: json_quote_def)
    ultimately show ?thesis by (simp add: f expect_hd json_space_def mark_defs)
  qed
qed

lemma json_print_reads: "json_ok v \<Longrightarrow> reads v"
proof (induction v)
  case (JStr s)
  show ?case by (rule reads_string)
next
  case (JNum s)
  then show ?case using json_ok_num reads_number by blast
next
  case (JArr vs)
  then show ?case by (intro reads_array) (auto simp: list_all_iff)
next
  case (JObj kvs)
  then show ?case by (intro reads_object) (fastforce simp: list_all_iff)
qed (auto simp: reads_def expect_hd json_space_def mark_defs json_scalar_def hasPrefix_def skip_ws_def
       elim!: Suc_le_D [elim_format] split: if_splits)

lemma json_parse_print: "json_ok v \<Longrightarrow> json_parse (json_print v) = Some v"
proof -
  assume "json_ok v"
  then have "json_value (Suc (length (json_print v))) (json_print v @ []) = Some (v, [])"
    using json_print_reads unfolding reads_def by (metis le_SucI le_refl num_end_simps(1))
  then show ?thesis by (simp add: json_parse_def skip_ws_def)
qed

lemma json_ok_itoa [simp]: "- (2 ^ 63) \<le> n \<Longrightarrow> n < 2 ^ 63 \<Longrightarrow> json_ok (JNum (itoa n))"
  by (simp add: atoi_itoa)

lemma dec_range_itoa:
  assumes "lo \<le> n" "n < hi"
  shows "dec_range lo hi (JNum (itoa n)) old = Ok n"
proof (cases "n < 0")
  case True
  then show ?thesis using assms
    by (simp add: dec_range_def itoa_def hasPrefix_def nat_digits_all nat_digits_val Let_def)
next
  case False
  have "\<not> hasPrefix (nat_digits (nat n)) ''-''"
  proof
    assume "hasPrefix (nat_digits (nat n)) ''-''"
    then obtain t where "nat_digits (nat n) = ''-'' @ t" using hasPrefixE by blast
    then show False using nat_digits_sign_free [of "CHR ''-''" "nat n"] by simp
  qed
  then show ?thesis using assms False
    by (simp add: dec_range_def itoa_def nat_digits_all nat_digits_val Let_def)
qed

end
