(* ===== verification/MountApplet.thy ===== *)
theory MountApplet
  imports OsModel
begin

unbundle bit_operations_syntax

text \<open>
  The \<open>mount\<close>/\<open>umount\<close> applet (\<open>mount_applet_linux.go\<close>): the mount flag words, the
  translation of a comma-separated option list into flags and filesystem data, the command line
  of both tools and the system calls they make. The interface of an option translator is a
  locale, shared with the OCI runtime's own translator.
\<close>

section \<open>Mount flags\<close>

type_synonym mflags = "64 word"

definition msRdonly :: mflags where "msRdonly = push_bit 0 1"
definition msNosuid :: mflags where "msNosuid = push_bit 1 1"
definition msNodev :: mflags where "msNodev = push_bit 2 1"
definition msNoexec :: mflags where "msNoexec = push_bit 3 1"
definition msSynchronous :: mflags where "msSynchronous = push_bit 4 1"
definition msRemount :: mflags where "msRemount = push_bit 5 1"
definition msDirsync :: mflags where "msDirsync = push_bit 7 1"
definition msNoatime :: mflags where "msNoatime = push_bit 10 1"
definition msNodiratime :: mflags where "msNodiratime = push_bit 11 1"
definition msBind :: mflags where "msBind = push_bit 12 1"
definition msMove :: mflags where "msMove = push_bit 13 1"
definition msRec :: mflags where "msRec = push_bit 14 1"
definition msSilent :: mflags where "msSilent = push_bit 15 1"
definition msUnbindable :: mflags where "msUnbindable = push_bit 17 1"
definition msPrivate :: mflags where "msPrivate = push_bit 18 1"
definition msSlave :: mflags where "msSlave = push_bit 19 1"
definition msShared :: mflags where "msShared = push_bit 20 1"
definition msRelatime :: mflags where "msRelatime = push_bit 21 1"
definition msStrictatime :: mflags where "msStrictatime = push_bit 24 1"

definition mntForce :: mflags where "mntForce = push_bit 0 1"
definition mntDetach :: mflags where "mntDetach = push_bit 1 1"

lemmas ms_defs = msRdonly_def msNosuid_def msNodev_def msNoexec_def msSynchronous_def
  msRemount_def msDirsync_def msNoatime_def msNodiratime_def msBind_def msMove_def msRec_def
  msSilent_def msUnbindable_def msPrivate_def msSlave_def msShared_def msRelatime_def
  msStrictatime_def mntForce_def mntDetach_def


section \<open>Option lists\<close>

text \<open>One word of an option list, applied to the flags and the data collected so far.\<close>

definition apply_mount_opt :: "string \<Rightarrow> mflags \<times> string list \<Rightarrow> mflags \<times> string list" where
  "apply_mount_opt opt fd = (let f = fst fd; d = snd fd in
     if opt = '''' \<or> opt = ''defaults'' \<or> opt = ''loop'' then (f, d)
     else if opt = ''rw'' then (f AND NOT msRdonly, d)
     else if opt = ''bind'' then (f OR msBind, d)
     else if opt = ''rbind'' then (f OR (msBind OR msRec), d)
     else if opt = ''remount'' then (f OR msRemount, d)
     else if opt = ''move'' then (f OR msMove, d)
     else if opt = ''ro'' then (f OR msRdonly, d)
     else if opt = ''nosuid'' then (f OR msNosuid, d)
     else if opt = ''suid'' then (f AND NOT msNosuid, d)
     else if opt = ''nodev'' then (f OR msNodev, d)
     else if opt = ''dev'' then (f AND NOT msNodev, d)
     else if opt = ''noexec'' then (f OR msNoexec, d)
     else if opt = ''exec'' then (f AND NOT msNoexec, d)
     else if opt = ''sync'' then (f OR msSynchronous, d)
     else if opt = ''dirsync'' then (f OR msDirsync, d)
     else if opt = ''noatime'' then (f OR msNoatime, d)
     else if opt = ''nodiratime'' then (f OR msNodiratime, d)
     else if opt = ''relatime'' then (f OR msRelatime, d)
     else if opt = ''strictatime'' then (f OR msStrictatime, d)
     else if opt = ''shared'' then (f OR msShared, d)
     else if opt = ''rshared'' then (f OR (msShared OR msRec), d)
     else if opt = ''private'' then (f OR msPrivate, d)
     else if opt = ''rprivate'' then (f OR (msPrivate OR msRec), d)
     else if opt = ''slave'' then (f OR msSlave, d)
     else if opt = ''rslave'' then (f OR (msSlave OR msRec), d)
     else if opt = ''silent'' then (f OR msSilent, d)
     else (f, d @ [opt]))"

definition applyMountOpts :: "string \<Rightarrow> mflags \<Rightarrow> string list \<Rightarrow> mflags \<times> string list" where
  "applyMountOpts opts flags data = fold apply_mount_opt (split_on (CHR '','') opts) (flags, data)"


section \<open>The interface of an option translator\<close>

text \<open>
  A translator of option words: a word clears some flag bits and then sets some, and is
  appended to the filesystem data exactly when it is no flag word. The client's facts hold for
  every translator that keeps this contract.
\<close>

locale option_words =
  fixes step :: "string \<Rightarrow> mflags \<times> string list \<Rightarrow> mflags \<times> string list"
    and sets clears :: "string \<Rightarrow> mflags" and is_data :: "string \<Rightarrow> bool"
  assumes step_law:
    "step w (f, d) = ((f AND NOT (clears w)) OR sets w, if is_data w then d @ [w] else d)"
begin

definition touches :: "nat \<Rightarrow> string \<Rightarrow> bool" where
  "touches n w \<longleftrightarrow> bit (sets w) n \<or> bit (clears w) n"

lemma fold_data: "snd (fold step ws (f, d)) = d @ filter is_data ws"
proof (induction ws arbitrary: f d)
  case Nil
  then show ?case by simp
next
  case (Cons w ws)
  then show ?case by (simp add: step_law)
qed

lemma fold_bit:
  "bit (fst (fold step ws (f, d))) n =
     (case find (touches n) (rev ws) of Some w \<Rightarrow> bit (sets w) n | None \<Rightarrow> bit f n)"
proof (induction ws arbitrary: f d rule: rev_induct)
  case Nil
  then show ?case by simp
next
  case (snoc w ws)
  obtain f' d' where r: "fold step ws (f, d) = (f', d')" by (cases "fold step ws (f, d)") auto
  show ?case
  proof (cases "n < 64")
    case True
    then show ?thesis using snoc [of f d] r
      by (auto simp: step_law touches_def bit_simps)
  next
    case False
    then have "\<not> bit x n" for x :: mflags
      using bit_imp_le_length [of x n] by auto
    then show ?thesis by (simp split: option.splits)
  qed
qed

lemma fold_untouched:
  assumes "\<forall>w \<in> set ws. \<not> touches n w"
  shows "bit (fst (fold step ws (f, d))) n = bit f n"
proof -
  have "find (touches n) (rev ws) = None" using assms by (simp add: find_None_iff)
  then show ?thesis by (simp add: fold_bit)
qed

lemma fold_last_wins:
  assumes "touches n w" "\<forall>v \<in> set vs. \<not> touches n v"
  shows "bit (fst (fold step (us @ w # vs) (f, d))) n = bit (sets w) n"
proof -
  have "find (touches n) (rev vs) = None" using assms(2) by (simp add: find_None_iff)
  then have "find (touches n) (rev (us @ w # vs)) = Some w"
    using assms(1) by (simp add: find_append)
  then show ?thesis unfolding fold_bit by simp
qed

end

text \<open>The documented flag words of the applet, as a table: the bits a word sets and the bits it
  clears. \<open>defaults\<close>, \<open>loop\<close> and the empty word do nothing.\<close>

definition flag_table :: "(string \<times> mflags \<times> mflags) list" where
  "flag_table =
    [('''', 0, 0), (''defaults'', 0, 0), (''loop'', 0, 0), (''rw'', 0, msRdonly),
     (''bind'', msBind, 0), (''rbind'', msBind OR msRec, 0), (''remount'', msRemount, 0),
     (''move'', msMove, 0), (''ro'', msRdonly, 0), (''nosuid'', msNosuid, 0),
     (''suid'', 0, msNosuid), (''nodev'', msNodev, 0), (''dev'', 0, msNodev),
     (''noexec'', msNoexec, 0), (''exec'', 0, msNoexec), (''sync'', msSynchronous, 0),
     (''dirsync'', msDirsync, 0), (''noatime'', msNoatime, 0), (''nodiratime'', msNodiratime, 0),
     (''relatime'', msRelatime, 0), (''strictatime'', msStrictatime, 0),
     (''shared'', msShared, 0), (''rshared'', msShared OR msRec, 0),
     (''private'', msPrivate, 0), (''rprivate'', msPrivate OR msRec, 0),
     (''slave'', msSlave, 0), (''rslave'', msSlave OR msRec, 0), (''silent'', msSilent, 0)]"

definition flag_sets :: "string \<Rightarrow> mflags" where
  "flag_sets w = (case map_of flag_table w of Some (s, c) \<Rightarrow> s | None \<Rightarrow> 0)"

definition flag_clears :: "string \<Rightarrow> mflags" where
  "flag_clears w = (case map_of flag_table w of Some (s, c) \<Rightarrow> c | None \<Rightarrow> 0)"

definition data_word :: "string \<Rightarrow> bool" where
  "data_word w \<longleftrightarrow> map_of flag_table w = None"

interpretation applet: option_words apply_mount_opt flag_sets flag_clears data_word
proof
  fix w f d
  show "apply_mount_opt w (f, d) =
      ((f AND NOT (flag_clears w)) OR flag_sets w, if data_word w then d @ [w] else d)"
    unfolding apply_mount_opt_def flag_sets_def flag_clears_def data_word_def flag_table_def
    by simp
qed


section \<open>The mount command line\<close>

record mount_cli =
  mc_fsType :: string
  mc_flags :: mflags
  mc_data :: "string list"
  mc_positional :: "string list"

definition mount_cli0 :: mount_cli where
  "mount_cli0 = \<lparr>mc_fsType = [], mc_flags = 0, mc_data = [], mc_positional = []\<rparr>"

definition add_opts :: "string \<Rightarrow> mount_cli \<Rightarrow> mount_cli" where
  "add_opts opts st = (let fd = applyMountOpts opts (mc_flags st) (mc_data st)
     in st\<lparr>mc_flags := fst fd, mc_data := snd fd\<rparr>)"

definition or_flags :: "mflags \<Rightarrow> mount_cli \<Rightarrow> mount_cli" where
  "or_flags m st = st\<lparr>mc_flags := mc_flags st OR m\<rparr>"

text \<open>
  The argument loop. \<open>-t\<close> and \<open>-o\<close> take the next argument if there is one; every other
  argument acts alone.
\<close>

definition takes_type :: "string \<Rightarrow> bool" where
  "takes_type a \<longleftrightarrow> a = ''-t'' \<or> a = ''--types''"

definition takes_opts :: "string \<Rightarrow> bool" where
  "takes_opts a \<longleftrightarrow> a = ''-o'' \<or> a = ''--options''"

definition mount_arg :: "string \<Rightarrow> mount_cli \<Rightarrow> mount_cli" where
  "mount_arg a st =
    (if hasPrefix a ''-t'' then st\<lparr>mc_fsType := drop 2 a\<rparr>
     else if hasPrefix a ''-o'' then add_opts (drop 2 a) st
     else if a = ''-r'' \<or> a = ''--read-only'' then or_flags msRdonly st
     else if a = ''-w'' \<or> a = ''--rw'' then st\<lparr>mc_flags := mc_flags st AND NOT msRdonly\<rparr>
     else if a = ''-B'' \<or> a = ''--bind'' then or_flags msBind st
     else if a = ''-R'' \<or> a = ''--rbind'' then or_flags (msBind OR msRec) st
     else if a = ''-M'' \<or> a = ''--move'' then or_flags msMove st
     else if a = ''--make-shared'' then or_flags msShared st
     else if a = ''--make-rshared'' then or_flags (msShared OR msRec) st
     else if a = ''--make-private'' then or_flags msPrivate st
     else if a = ''--make-rprivate'' then or_flags (msPrivate OR msRec) st
     else if a = ''--make-slave'' then or_flags msSlave st
     else if a = ''--make-rslave'' then or_flags (msSlave OR msRec) st
     else if a = ''--make-unbindable'' then or_flags msUnbindable st
     else if a \<in> {''-n'', ''--no-mtab'', ''-v'', ''--verbose'', ''-F'', ''-s'', ''--no-canonicalize''}
       then st
     else if hasPrefix a ''-'' then st
     else st\<lparr>mc_positional := mc_positional st @ [a]\<rparr>)"

fun mount_args :: "string list \<Rightarrow> mount_cli \<Rightarrow> mount_cli" where
  "mount_args [] st = st"
| "mount_args [a] st = (if takes_type a \<or> takes_opts a then st else mount_arg a st)"
| "mount_args (a # v # rest) st =
    (if takes_type a then mount_args rest (st\<lparr>mc_fsType := v\<rparr>)
     else if takes_opts a then mount_args rest (add_opts v st)
     else mount_args (v # rest) (mount_arg a st))"

text \<open>The result is the exit code: 0 on a normal return, 32 after a failed mount.\<close>

definition do_mount :: "kernel \<Rightarrow> mount_cli \<Rightarrow> string \<Rightarrow> string \<Rightarrow> int io" where
  "do_mount K st source target =
     State_Monad.bind
       (os_unit K (Mount source target (mc_fsType st) (mc_flags st) (join_with '','' (mc_data st))))
       (\<lambda>r. State_Monad.return (case r of Ok _ \<Rightarrow> 0 | _ \<Rightarrow> 32))"

definition runMount :: "kernel \<Rightarrow> string list \<Rightarrow> int io" where
  "runMount K args = (let st = mount_args args mount_cli0 in
     case mc_positional st of
       [] \<Rightarrow> State_Monad.return 0
     | [t] \<Rightarrow> do_mount K st [] t
     | s # t # _ \<Rightarrow> do_mount K st s t)"


section \<open>The umount command line\<close>

definition umount_arg :: "string \<Rightarrow> mflags \<times> string list \<Rightarrow> mflags \<times> string list" where
  "umount_arg a ft =
    (if a = ''-l'' \<or> a = ''--lazy'' then (fst ft OR mntDetach, snd ft)
     else if a = ''-f'' \<or> a = ''--force'' then (fst ft OR mntForce, snd ft)
     else if a \<in> {''-n'', ''-v'', ''-c'', ''-d'', ''-r'', ''--no-mtab'', ''--verbose''} then ft
     else if hasPrefix a ''-'' then ft
     else (fst ft, snd ft @ [a]))"

fun umount_all :: "kernel \<Rightarrow> mflags \<Rightarrow> string list \<Rightarrow> int io" where
  "umount_all K flags [] = State_Monad.return 0"
| "umount_all K flags (t # ts) =
     State_Monad.bind (os_unit K (Unmount t flags))
       (\<lambda>r. case r of Ok _ \<Rightarrow> umount_all K flags ts | _ \<Rightarrow> State_Monad.return 32)"

definition runUmount :: "kernel \<Rightarrow> string list \<Rightarrow> int io" where
  "runUmount K args = (let p = fold umount_arg args (0, []) in umount_all K (fst p) (snd p))"


section \<open>Installing the applet\<close>

definition applet_links :: "string list" where
  "applet_links = [''/usr/bin/mount'', ''/usr/bin/umount'', ''/bin/mount'', ''/bin/umount'']"

definition link_one :: "kernel \<Rightarrow> string \<Rightarrow> string \<Rightarrow> unit io" where
  "link_one K self name =
     State_Monad.bind (os_ignore K (Remove name)) (\<lambda>_. os_ignore K (Symlink self name))"

definition installMountApplet :: "kernel \<Rightarrow> unit io" where
  "installMountApplet K =
     State_Monad.bind (os_data K Executable) (\<lambda>r.
       let self = (case r of Ok s \<Rightarrow> if s = [] then ''/usr/bin/kubelet'' else s
                           | _ \<Rightarrow> ''/usr/bin/kubelet'')
       in State_Monad.bind (State_Monad.traverse_list (link_one K self) applet_links)
            (\<lambda>_. State_Monad.return ()))"


section \<open>Correctness of the applet\<close>

text \<open>After an option list has been applied, each flag bit is decided by the
  last word of the list that touches it (set if that word sets it, cleared if it clears it) and
  is unchanged if no word touches it; the filesystem data grows by exactly the words that are no
  flag words, in their order.\<close>

lemma applyMountOpts_spec:
  "bit (fst (applyMountOpts opts f d)) n =
     (case find (\<lambda>w. bit (flag_sets w) n \<or> bit (flag_clears w) n) (rev (split_on (CHR '','') opts)) of
        Some w \<Rightarrow> bit (flag_sets w) n
      | None \<Rightarrow> bit f n)
   \<and> snd (applyMountOpts opts f d) = d @ filter data_word (split_on (CHR '','') opts)"
  using applet.fold_bit [of "split_on (CHR '','') opts" f d n]
    applet.fold_data [of "split_on (CHR '','') opts" f d]
  by (simp add: applyMountOpts_def applet.touches_def [abs_def])

lemma only_mount_io: "only (\<lambda>c. \<exists>s t ty f d. c = Mount s t ty f d) (runMount K args)"
  unfolding runMount_def do_mount_def Let_def
  by (auto split: list.splits intro!: only_intros)

lemma do_mount_run:
  "made (do_mount K st s t) h =
     [Mount s t (mc_fsType st) (mc_flags st) (join_with '','' (mc_data st))]
   \<and> result (do_mount K st s t) h = (if list_all succeeded (events (do_mount K st s t) h) then 0 else 32)"
  by (simp add: do_mount_def events_def made_def succeeded_as_unit split: res.splits)

lemma mount_arg_positional:
  "\<not> hasPrefix a ''-'' \<Longrightarrow> mount_arg a st = st\<lparr>mc_positional := mc_positional st @ [a]\<rparr>"
  by (cases a) (auto simp: mount_arg_def hasPrefix_def)

lemma not_dash_takes: "\<not> hasPrefix a ''-'' \<Longrightarrow> \<not> takes_type a \<and> \<not> takes_opts a"
  by (cases a) (auto simp: takes_type_def takes_opts_def hasPrefix_def)

text \<open>\<open>mount -t T -o O SRC DST\<close> makes exactly one call, the
  mount of SRC on DST with type T, the flags that the option list O denotes and its
  filesystem-specific words joined by commas, and exits 0 or 32 as that call succeeds or fails.\<close>

lemma runMount_volume:
  assumes "\<not> hasPrefix src ''-''" and "\<not> hasPrefix dst ''-''"
  shows "made (runMount K [''-t'', ty, ''-o'', opts, src, dst]) h =
           [Mount src dst ty (fst (applyMountOpts opts 0 []))
              (join_with '','' (filter data_word (split_on (CHR '','') opts)))]
       \<and> result (runMount K [''-t'', ty, ''-o'', opts, src, dst]) h =
           (if list_all succeeded (events (runMount K [''-t'', ty, ''-o'', opts, src, dst]) h) then 0 else 32)"
proof -
  have d: "snd (applyMountOpts opts 0 []) = filter data_word (split_on (CHR '','') opts)"
    using applet.fold_data [of "split_on (CHR '','') opts" 0 "[]"] by (simp add: applyMountOpts_def)
  have st: "mount_args [''-t'', ty, ''-o'', opts, src, dst] mount_cli0 =
      \<lparr>mc_fsType = ty, mc_flags = fst (applyMountOpts opts 0 []),
       mc_data = filter data_word (split_on (CHR '','') opts), mc_positional = [src, dst]\<rparr>"
    using assms not_dash_takes [OF assms(1)] not_dash_takes [OF assms(2)]
    by (simp add: takes_type_def takes_opts_def add_opts_def mount_cli0_def mount_arg_positional d)
  have "runMount K [''-t'', ty, ''-o'', opts, src, dst] =
      do_mount K \<lparr>mc_fsType = ty, mc_flags = fst (applyMountOpts opts 0 []),
        mc_data = filter data_word (split_on (CHR '','') opts), mc_positional = [src, dst]\<rparr> src dst"
    unfolding runMount_def st by simp
  then show ?thesis by (simp add: do_mount_run)
qed


lemma only_umount_all: "only (\<lambda>c. \<exists>t. c = Unmount t fl) (umount_all K fl ts)"
  by (induction ts) (auto split: res.splits intro!: only_intros)

lemma umount_all_Cons_ok:
  assumes "succeeded (Unmount t fl, K h (Unmount t fl))"
  shows "result (umount_all K fl (t # ts)) h =
           result (umount_all K fl ts) (h @ [(Unmount t fl, K h (Unmount t fl))])"
    and "events (umount_all K fl (t # ts)) h = (Unmount t fl, K h (Unmount t fl)) #
           events (umount_all K fl ts) (h @ [(Unmount t fl, K h (Unmount t fl))])"
proof -
  let ?h = "h @ [(Unmount t fl, K h (Unmount t fl))]"
  have r: "run_state (umount_all K fl (t # ts)) h = run_state (umount_all K fl ts) ?h"
    using assms by (simp add: succeeded_as_unit)
  then show "result (umount_all K fl (t # ts)) h = result (umount_all K fl ts) ?h" by simp
  show "events (umount_all K fl (t # ts)) h =
      (Unmount t fl, K h (Unmount t fl)) # events (umount_all K fl ts) ?h"
    unfolding events_def [of "umount_all K fl (t # ts)"] r after_events [OF only_umount_all] by simp
qed

lemma umount_all_Cons_fail:
  assumes "\<not> succeeded (Unmount t fl, K h (Unmount t fl))"
  shows "result (umount_all K fl (t # ts)) h = 32"
    and "events (umount_all K fl (t # ts)) h = [(Unmount t fl, K h (Unmount t fl))]"
proof -
  obtain e where "as_unit (K h (Unmount t fl)) = Err (Errno e)"
    using assms as_unit_cases by (auto simp: succeeded_as_unit)
  then show "result (umount_all K fl (t # ts)) h = 32"
    and "events (umount_all K fl (t # ts)) h = [(Unmount t fl, K h (Unmount t fl))]"
    by (simp_all add: events_def)
qed

text \<open>The targets are unmounted in the order given and the tool stops at the
  first failure: on exit 0 every target was unmounted, otherwise the exit code is 32 and the
  unmount of some target failed after all the targets before it had been unmounted.\<close>

lemma umount_all_trace:
  "if result (umount_all K fl ts) h = 0
   then made (umount_all K fl ts) h = map (\<lambda>t. Unmount t fl) ts
        \<and> list_all succeeded (events (umount_all K fl ts) h)
   else result (umount_all K fl ts) h = 32
        \<and> (\<exists>us t vs ev r. ts = us @ t # vs \<and> calls ev = map (\<lambda>t. Unmount t fl) us
             \<and> list_all succeeded ev \<and> \<not> succeeded (Unmount t fl, r)
             \<and> events (umount_all K fl ts) h = ev @ [(Unmount t fl, r)])"
proof (induction ts arbitrary: h)
  case Nil
  then show ?case by (simp add: made_def)
next
  case (Cons t ts)
  let ?e = "(Unmount t fl, K h (Unmount t fl))"
  show ?case
  proof (cases "succeeded ?e")
    case True
    note ok = umount_all_Cons_ok [where K = K and h = h, OF True]
    show ?thesis
    proof (cases "result (umount_all K fl ts) (h @ [?e]) = 0")
      case z: True
      then show ?thesis using Cons [of "h @ [?e]"] True
        by (simp add: ok made_def del: umount_all.simps)
    next
      case False
      then obtain us u vs ev r where
        "ts = us @ u # vs" "calls ev = map (\<lambda>t. Unmount t fl) us" "list_all succeeded ev"
        "\<not> succeeded (Unmount u fl, r)" "result (umount_all K fl ts) (h @ [?e]) = 32"
        "events (umount_all K fl ts) (h @ [?e]) = ev @ [(Unmount u fl, r)]"
        using Cons [of "h @ [?e]"] by auto
      then show ?thesis using True
        by (simp add: ok del: umount_all.simps)
          (intro exI [of _ "t # us"] exI [of _ u] exI [of _ "?e # ev"], auto)
    qed
  next
    case False
    note fl = umount_all_Cons_fail [where K = K and h = h, OF False]
    show ?thesis using False
      by (simp add: fl del: umount_all.simps)
  qed
qed

end
