(* ===== verification/OciSpec.thy ===== *)
theory OciSpec
  imports Json MountApplet
begin

text \<open>
  The data of the OCI runtime in \<open>ociruntime_linux.go\<close> and \<open>runc_exec_linux.go\<close>: the subset of
  the runtime specification it reads from \<open>config.json\<close>, the process specification of
  \<open>runc exec\<close>, the container state it keeps in \<open>state.json\<close>, and the decoders and encoders
  between these and JSON.
\<close>

section \<open>The runtime specification\<close>

record ociProcess =
  pr_Terminal :: bool
  pr_Cwd :: string
  pr_Env :: "string list"
  pr_Args :: "string list"

record ociRoot =
  rt_Path :: string
  rt_Readonly :: bool

record ociMount =
  mo_Destination :: string
  mo_Type :: string
  mo_Source :: string
  mo_Options :: "string list"

record ociNamespace =
  ns_Type :: string
  ns_Path :: string

text \<open>\<open>ociResources\<close>: the memory limit, and the CPU quota and period; the pointers of the source
  are options.\<close>

record ociCPU =
  cpu_Quota :: "int option"
  cpu_Period :: "int option"

record ociResources =
  rs_Memory :: "int option option"
  rs_CPU :: "ociCPU option"

record ociLinux =
  li_Namespaces :: "ociNamespace list"
  li_Resources :: "ociResources option"
  li_CgroupsPath :: string

record ociSpec =
  sp_OCIVersion :: string
  sp_Process :: "ociProcess option"
  sp_Root :: "ociRoot option"
  sp_Hostname :: string
  sp_Mounts :: "ociMount list"
  sp_Linux :: "ociLinux option"

record execProcess =
  ep_Terminal :: bool
  ep_Cwd :: string
  ep_Env :: "string list"
  ep_Args :: "string list"
  ep_UID :: int
  ep_GID :: int

record containerState =
  cs_OCIVersion :: string
  cs_ID :: string
  cs_InitPid :: int
  cs_Status :: string
  cs_Bundle :: string
  cs_Rootfs :: string
  cs_Created :: string
  cs_CgroupPath :: string

text \<open>Zero values.\<close>

definition process0 :: ociProcess where
  "process0 = \<lparr>pr_Terminal = False, pr_Cwd = [], pr_Env = [], pr_Args = []\<rparr>"

definition spec0 :: ociSpec where
  "spec0 = \<lparr>sp_OCIVersion = [], sp_Process = None, sp_Root = None, sp_Hostname = [], sp_Mounts = [], sp_Linux = None\<rparr>"

definition exec0 :: execProcess where
  "exec0 = \<lparr>ep_Terminal = False, ep_Cwd = [], ep_Env = [], ep_Args = [], ep_UID = 0, ep_GID = 0\<rparr>"

definition state0 :: containerState where
  "state0 = \<lparr>cs_OCIVersion = [], cs_ID = [], cs_InitPid = 0, cs_Status = [], cs_Bundle = [], cs_Rootfs = [],
             cs_Created = [], cs_CgroupPath = []\<rparr>"


section \<open>Decoding\<close>

abbreviation dec_str :: "json \<Rightarrow> string res" where
  "dec_str v \<equiv> dec_string v []"

definition process_field :: "string \<Rightarrow> json \<Rightarrow> ociProcess \<Rightarrow> ociProcess res" where
  "process_field f v p =
     (if f = ''terminal'' then set_res (dec_bool v (pr_Terminal p)) (\<lambda>x. p\<lparr>pr_Terminal := x\<rparr>)
      else if f = ''cwd'' then set_res (dec_string v (pr_Cwd p)) (\<lambda>x. p\<lparr>pr_Cwd := x\<rparr>)
      else if f = ''env'' then set_res (dec_list dec_str v (pr_Env p)) (\<lambda>x. p\<lparr>pr_Env := x\<rparr>)
      else if f = ''args'' then set_res (dec_list dec_str v (pr_Args p)) (\<lambda>x. p\<lparr>pr_Args := x\<rparr>)
      else Ok p)"

definition dec_process :: "json \<Rightarrow> ociProcess \<Rightarrow> ociProcess res" where
  "dec_process = dec_struct [''terminal'', ''cwd'', ''env'', ''args''] process_field"

definition root_field :: "string \<Rightarrow> json \<Rightarrow> ociRoot \<Rightarrow> ociRoot res" where
  "root_field f v r =
     (if f = ''path'' then set_res (dec_string v (rt_Path r)) (\<lambda>x. r\<lparr>rt_Path := x\<rparr>)
      else if f = ''readonly'' then set_res (dec_bool v (rt_Readonly r)) (\<lambda>x. r\<lparr>rt_Readonly := x\<rparr>)
      else Ok r)"

definition mount_field :: "string \<Rightarrow> json \<Rightarrow> ociMount \<Rightarrow> ociMount res" where
  "mount_field f v m =
     (if f = ''destination'' then set_res (dec_string v (mo_Destination m)) (\<lambda>x. m\<lparr>mo_Destination := x\<rparr>)
      else if f = ''type'' then set_res (dec_string v (mo_Type m)) (\<lambda>x. m\<lparr>mo_Type := x\<rparr>)
      else if f = ''source'' then set_res (dec_string v (mo_Source m)) (\<lambda>x. m\<lparr>mo_Source := x\<rparr>)
      else if f = ''options'' then set_res (dec_list dec_str v (mo_Options m)) (\<lambda>x. m\<lparr>mo_Options := x\<rparr>)
      else Ok m)"

definition dec_mount :: "json \<Rightarrow> ociMount res" where
  "dec_mount v = dec_struct [''destination'', ''type'', ''source'', ''options''] mount_field v
     \<lparr>mo_Destination = [], mo_Type = [], mo_Source = [], mo_Options = []\<rparr>"

definition namespace_field :: "string \<Rightarrow> json \<Rightarrow> ociNamespace \<Rightarrow> ociNamespace res" where
  "namespace_field f v n =
     (if f = ''type'' then set_res (dec_string v (ns_Type n)) (\<lambda>x. n\<lparr>ns_Type := x\<rparr>)
      else if f = ''path'' then set_res (dec_string v (ns_Path n)) (\<lambda>x. n\<lparr>ns_Path := x\<rparr>)
      else Ok n)"

definition dec_namespace :: "json \<Rightarrow> ociNamespace res" where
  "dec_namespace v = dec_struct [''type'', ''path''] namespace_field v \<lparr>ns_Type = [], ns_Path = []\<rparr>"

definition memory_field :: "string \<Rightarrow> json \<Rightarrow> int option \<Rightarrow> int option res" where
  "memory_field f v m = (if f = ''limit'' then dec_ptr dec_int64 0 v m else Ok m)"

definition cpu_field :: "string \<Rightarrow> json \<Rightarrow> ociCPU \<Rightarrow> ociCPU res" where
  "cpu_field f v c =
     (if f = ''quota'' then set_res (dec_ptr dec_int64 0 v (cpu_Quota c)) (\<lambda>x. c\<lparr>cpu_Quota := x\<rparr>)
      else if f = ''period'' then set_res (dec_ptr (dec_range 0 (2 ^ 64)) 0 v (cpu_Period c)) (\<lambda>x. c\<lparr>cpu_Period := x\<rparr>)
      else Ok c)"

definition resources_field :: "string \<Rightarrow> json \<Rightarrow> ociResources \<Rightarrow> ociResources res" where
  "resources_field f v r =
     (if f = ''memory'' then set_res (dec_ptr (dec_struct [''limit''] memory_field) None v (rs_Memory r)) (\<lambda>x. r\<lparr>rs_Memory := x\<rparr>)
      else if f = ''cpu'' then
        set_res (dec_ptr (dec_struct [''quota'', ''period''] cpu_field) \<lparr>cpu_Quota = None, cpu_Period = None\<rparr> v (rs_CPU r))
          (\<lambda>x. r\<lparr>rs_CPU := x\<rparr>)
      else Ok r)"

definition linux_field :: "string \<Rightarrow> json \<Rightarrow> ociLinux \<Rightarrow> ociLinux res" where
  "linux_field f v l =
     (if f = ''namespaces'' then set_res (dec_list dec_namespace v (li_Namespaces l)) (\<lambda>x. l\<lparr>li_Namespaces := x\<rparr>)
      else if f = ''resources'' then
        set_res (dec_ptr (dec_struct [''memory'', ''cpu''] resources_field) \<lparr>rs_Memory = None, rs_CPU = None\<rparr> v (li_Resources l))
          (\<lambda>x. l\<lparr>li_Resources := x\<rparr>)
      else if f = ''cgroupsPath'' then set_res (dec_string v (li_CgroupsPath l)) (\<lambda>x. l\<lparr>li_CgroupsPath := x\<rparr>)
      else Ok l)"

definition spec_field :: "string \<Rightarrow> json \<Rightarrow> ociSpec \<Rightarrow> ociSpec res" where
  "spec_field f v s =
     (if f = ''ociVersion'' then set_res (dec_string v (sp_OCIVersion s)) (\<lambda>x. s\<lparr>sp_OCIVersion := x\<rparr>)
      else if f = ''process'' then set_res (dec_ptr dec_process process0 v (sp_Process s)) (\<lambda>x. s\<lparr>sp_Process := x\<rparr>)
      else if f = ''root'' then
        set_res (dec_ptr (dec_struct [''path'', ''readonly''] root_field) \<lparr>rt_Path = [], rt_Readonly = False\<rparr> v (sp_Root s))
          (\<lambda>x. s\<lparr>sp_Root := x\<rparr>)
      else if f = ''hostname'' then set_res (dec_string v (sp_Hostname s)) (\<lambda>x. s\<lparr>sp_Hostname := x\<rparr>)
      else if f = ''mounts'' then set_res (dec_list dec_mount v (sp_Mounts s)) (\<lambda>x. s\<lparr>sp_Mounts := x\<rparr>)
      else if f = ''linux'' then
        set_res (dec_ptr (dec_struct [''namespaces'', ''resources'', ''cgroupsPath''] linux_field)
                   \<lparr>li_Namespaces = [], li_Resources = None, li_CgroupsPath = []\<rparr> v (sp_Linux s))
          (\<lambda>x. s\<lparr>sp_Linux := x\<rparr>)
      else Ok s)"

definition dec_spec :: "json \<Rightarrow> ociSpec \<Rightarrow> ociSpec res" where
  "dec_spec = dec_struct [''ociVersion'', ''process'', ''root'', ''hostname'', ''mounts'', ''linux''] spec_field"

definition user_field :: "string \<Rightarrow> json \<Rightarrow> int \<times> int \<Rightarrow> (int \<times> int) res" where
  "user_field f v u =
     (if f = ''uid'' then set_res (dec_range 0 (2 ^ 32) v (fst u)) (\<lambda>x. (x, snd u))
      else if f = ''gid'' then set_res (dec_range 0 (2 ^ 32) v (snd u)) (\<lambda>x. (fst u, x))
      else Ok u)"

definition exec_field :: "string \<Rightarrow> json \<Rightarrow> execProcess \<Rightarrow> execProcess res" where
  "exec_field f v p =
     (if f = ''terminal'' then set_res (dec_bool v (ep_Terminal p)) (\<lambda>x. p\<lparr>ep_Terminal := x\<rparr>)
      else if f = ''cwd'' then set_res (dec_string v (ep_Cwd p)) (\<lambda>x. p\<lparr>ep_Cwd := x\<rparr>)
      else if f = ''env'' then set_res (dec_list dec_str v (ep_Env p)) (\<lambda>x. p\<lparr>ep_Env := x\<rparr>)
      else if f = ''args'' then set_res (dec_list dec_str v (ep_Args p)) (\<lambda>x. p\<lparr>ep_Args := x\<rparr>)
      else if f = ''user'' then
        set_res (dec_struct [''uid'', ''gid''] user_field v (ep_UID p, ep_GID p)) (\<lambda>u. p\<lparr>ep_UID := fst u, ep_GID := snd u\<rparr>)
      else Ok p)"

definition dec_exec :: "json \<Rightarrow> execProcess \<Rightarrow> execProcess res" where
  "dec_exec = dec_struct [''terminal'', ''cwd'', ''env'', ''args'', ''user''] exec_field"

definition state_names :: "string list" where
  "state_names = [''ociVersion'', ''id'', ''pid'', ''status'', ''bundle'', ''rootfs'', ''created'', ''cgroupPath'']"

definition state_field :: "string \<Rightarrow> json \<Rightarrow> containerState \<Rightarrow> containerState res" where
  "state_field f v s =
     (if f = ''ociVersion'' then set_res (dec_string v (cs_OCIVersion s)) (\<lambda>x. s\<lparr>cs_OCIVersion := x\<rparr>)
      else if f = ''id'' then set_res (dec_string v (cs_ID s)) (\<lambda>x. s\<lparr>cs_ID := x\<rparr>)
      else if f = ''pid'' then set_res (dec_int64 v (cs_InitPid s)) (\<lambda>x. s\<lparr>cs_InitPid := x\<rparr>)
      else if f = ''status'' then set_res (dec_string v (cs_Status s)) (\<lambda>x. s\<lparr>cs_Status := x\<rparr>)
      else if f = ''bundle'' then set_res (dec_string v (cs_Bundle s)) (\<lambda>x. s\<lparr>cs_Bundle := x\<rparr>)
      else if f = ''rootfs'' then set_res (dec_string v (cs_Rootfs s)) (\<lambda>x. s\<lparr>cs_Rootfs := x\<rparr>)
      else if f = ''created'' then set_res (dec_string v (cs_Created s)) (\<lambda>x. s\<lparr>cs_Created := x\<rparr>)
      else if f = ''cgroupPath'' then set_res (dec_string v (cs_CgroupPath s)) (\<lambda>x. s\<lparr>cs_CgroupPath := x\<rparr>)
      else Ok s)"

definition dec_state :: "json \<Rightarrow> containerState \<Rightarrow> containerState res" where
  "dec_state = dec_struct state_names state_field"

definition enc_state :: "containerState \<Rightarrow> json" where
  "enc_state s = JObj
     [(''ociVersion'', JStr (cs_OCIVersion s)), (''id'', JStr (cs_ID s)), (''pid'', JNum (itoa (cs_InitPid s))),
      (''status'', JStr (cs_Status s)), (''bundle'', JStr (cs_Bundle s)), (''rootfs'', JStr (cs_Rootfs s)),
      (''created'', JStr (cs_Created s)), (''cgroupPath'', JStr (cs_CgroupPath s))]"


section \<open>Round trip of the state\<close>

lemma state_field_str:
  "state_field ''ociVersion'' (JStr x) s = Ok (s\<lparr>cs_OCIVersion := x\<rparr>)"
  "state_field ''id'' (JStr x) s = Ok (s\<lparr>cs_ID := x\<rparr>)"
  "state_field ''status'' (JStr x) s = Ok (s\<lparr>cs_Status := x\<rparr>)"
  "state_field ''bundle'' (JStr x) s = Ok (s\<lparr>cs_Bundle := x\<rparr>)"
  "state_field ''rootfs'' (JStr x) s = Ok (s\<lparr>cs_Rootfs := x\<rparr>)"
  "state_field ''created'' (JStr x) s = Ok (s\<lparr>cs_Created := x\<rparr>)"
  "state_field ''cgroupPath'' (JStr x) s = Ok (s\<lparr>cs_CgroupPath := x\<rparr>)"
  by (simp_all add: state_field_def dec_string_def)

lemma state_field_pid:
  "- (2 ^ 63) \<le> n \<Longrightarrow> n < 2 ^ 63 \<Longrightarrow> state_field ''pid'' (JNum (itoa n)) s = Ok (s\<lparr>cs_InitPid := n\<rparr>)"
  by (simp add: state_field_def dec_range_itoa)

text \<open>Decoding never panics.\<close>

lemma fold_res_returns:
  "(\<And>x b. f x b \<noteq> Panic \<and> f x b \<noteq> Hang) \<Longrightarrow> fold_res f xs b \<noteq> Panic \<and> fold_res f xs b \<noteq> Hang"
  by (induction xs arbitrary: b) (auto split: res.splits)

lemma set_res_returns: "r \<noteq> Panic \<Longrightarrow> r \<noteq> Hang \<Longrightarrow> set_res r f \<noteq> Panic \<and> set_res r f \<noteq> Hang"
  by (cases r) auto

lemma dec_returns:
  "dec_string v a \<noteq> Panic" "dec_string v a \<noteq> Hang" "dec_range lo hi v n \<noteq> Panic" "dec_range lo hi v n \<noteq> Hang"
  by (auto simp: dec_string_def dec_range_def Let_def split: json.splits)

lemma state_field_returns: "state_field f v s \<noteq> Panic \<and> state_field f v s \<noteq> Hang"
  unfolding state_field_def by (simp add: set_res_returns dec_returns)

lemma state_unmarshal_returns:
  "json_unmarshal dec_state b s \<noteq> Panic" "json_unmarshal dec_state b s \<noteq> Hang"
  using fold_res_returns [of "\<lambda>(k, w). state_field (json_field state_names k) w"] state_field_returns
  by (auto simp: json_unmarshal_def dec_state_def dec_struct_def split: option.splits json.splits)

lemma state_reads_back:
  assumes "- (2 ^ 63) \<le> cs_InitPid s" and "cs_InitPid s < 2 ^ 63"
  shows "json_unmarshal dec_state (json_print (enc_state s)) state0 = Ok s"
proof -
  have "json_parse (json_print (enc_state s)) = Some (enc_state s)"
    by (rule json_parse_print) (use assms in \<open>simp add: enc_state_def atoi_itoa\<close>)
  moreover have "json_field state_names f = f" if "f \<in> set state_names" for f
    using that by (simp add: json_field_def)
  ultimately show ?thesis
    by (simp add: json_unmarshal_def dec_state_def dec_struct_def enc_state_def state_names_def
        state_field_str state_field_pid [OF assms] state0_def)
qed


definition sample_state :: containerState where
  "sample_state = \<lparr>cs_OCIVersion = ''1.2.0'', cs_ID = ''web'', cs_InitPid = 4711, cs_Status = ''created'',
     cs_Bundle = ''/run/b'', cs_Rootfs = ''/run/b/rootfs'', cs_Created = ''now'', cs_CgroupPath = []\<rparr>"




section \<open>Decoded values fit their types\<close>

definition in_int64 :: "int \<Rightarrow> bool" where "in_int64 n \<longleftrightarrow> - (2 ^ 63) \<le> n \<and> n < 2 ^ 63"
definition in_uint64 :: "int \<Rightarrow> bool" where "in_uint64 n \<longleftrightarrow> 0 \<le> n \<and> n < 2 ^ 64"
definition in_uint32 :: "int \<Rightarrow> bool" where "in_uint32 n \<longleftrightarrow> 0 \<le> n \<and> n < 2 ^ 32"

definition cpu_typed :: "ociCPU \<Rightarrow> bool" where
  "cpu_typed c \<longleftrightarrow> pred_option in_int64 (cpu_Quota c) \<and> pred_option in_uint64 (cpu_Period c)"

definition resources_typed :: "ociResources \<Rightarrow> bool" where
  "resources_typed r \<longleftrightarrow> pred_option (pred_option in_int64) (rs_Memory r) \<and> pred_option cpu_typed (rs_CPU r)"

definition linux_typed :: "ociLinux \<Rightarrow> bool" where
  "linux_typed l \<longleftrightarrow> pred_option resources_typed (li_Resources l)"

definition spec_typed :: "ociSpec \<Rightarrow> bool" where
  "spec_typed s \<longleftrightarrow> pred_option linux_typed (sp_Linux s)"

definition exec_typed :: "execProcess \<Rightarrow> bool" where
  "exec_typed p \<longleftrightarrow> in_uint32 (ep_UID p) \<and> in_uint32 (ep_GID p)"

definition state_typed :: "containerState \<Rightarrow> bool" where
  "state_typed s \<longleftrightarrow> in_int64 (cs_InitPid s)"

text \<open>A result that is a value with the property or an error, and neither a panic nor an endless run.\<close>

definition yields :: "('a \<Rightarrow> bool) \<Rightarrow> 'a res \<Rightarrow> bool" where
  "yields P r \<longleftrightarrow> (case r of Ok a \<Rightarrow> P a | Err e \<Rightarrow> True | Panic \<Rightarrow> False | Hang \<Rightarrow> False)"

lemma yields_simps [simp]: "yields P (Ok a) = P a" "yields P (Err e)" "\<not> yields P Panic" "\<not> yields P Hang"
  by (simp_all add: yields_def)

lemma yields_set: "yields P r \<Longrightarrow> (\<And>a. P a \<Longrightarrow> Q (f a)) \<Longrightarrow> yields Q (set_res r f)"
  by (cases r) simp_all

lemma yields_if: "(b \<Longrightarrow> yields P r) \<Longrightarrow> (\<not> b \<Longrightarrow> yields P s) \<Longrightarrow> yields P (if b then r else s)"
  by simp

lemma yields_string: "yields (\<lambda>_. True) (dec_string v old)"
  by (cases v) (simp_all add: dec_string_def)

lemma yields_bool: "yields (\<lambda>_. True) (dec_bool v old)"
  by (cases v) (simp_all add: dec_bool_def)

lemma yields_int64: "in_int64 old \<Longrightarrow> yields in_int64 (dec_int64 v old)"
  by (cases v) (simp_all add: dec_range_def in_int64_def Let_def)

lemma yields_uint64: "in_uint64 old \<Longrightarrow> yields in_uint64 (dec_range 0 (2 ^ 64) v old)"
  by (cases v) (simp_all add: dec_range_def in_uint64_def Let_def)

lemma yields_uint32: "in_uint32 old \<Longrightarrow> yields in_uint32 (dec_range 0 (2 ^ 32) v old)"
  by (cases v) (simp_all add: dec_range_def in_uint32_def Let_def)

lemma yields_fold: "(\<And>x b. P b \<Longrightarrow> yields P (f x b)) \<Longrightarrow> P b \<Longrightarrow> yields P (fold_res f xs b)"
proof (induction xs arbitrary: b)
  case (Cons x xs)
  then show ?case using Cons.prems(1) [OF Cons.prems(2), of x] by (cases "f x b") simp_all
qed simp

lemma yields_struct:
  assumes "\<And>f v a. P a \<Longrightarrow> yields P (d f v a)" "P old"
  shows "yields P (dec_struct names d v old)"
proof (cases v)
  case (JObj kvs)
  have "yields P (fold_res (\<lambda>(k, w). d (json_field names k) w) kvs old)"
    by (rule yields_fold) (auto simp: assms split: prod.splits)
  then show ?thesis by (simp add: dec_struct_def JObj)
qed (simp_all add: dec_struct_def assms(2))

lemma yields_ptr:
  assumes "\<And>v a. P a \<Longrightarrow> yields P (d v a)" "P zero" "pred_option P old"
  shows "yields (pred_option P) (dec_ptr d zero v old)"
proof -
  have "P (case old of Some a \<Rightarrow> a | None \<Rightarrow> zero)" using assms(2,3) by (cases old) simp_all
  then have "yields (pred_option P) (set_res (d v (case old of Some a \<Rightarrow> a | None \<Rightarrow> zero)) Some)"
    by (intro yields_set [where P = P]) (simp_all add: assms(1))
  then show ?thesis by (cases v) (simp_all add: dec_ptr_def)
qed

lemma yields_list:
  assumes "\<And>v. yields (\<lambda>_. True) (d v)"
  shows "yields (\<lambda>_. True) (dec_list d v old)"
proof -
  have "yields (\<lambda>_. True) (map_res d vs)" for vs
  proof (induction vs)
    case (Cons v vs)
    then show ?case using assms [of v] by (cases "d v"; cases "map_res d vs") simp_all
  qed simp
  then show ?thesis by (cases v) (simp_all add: dec_list_def)
qed


lemmas yields_text = yields_set [OF yields_string] yields_set [OF yields_bool] yields_set [OF yields_list [OF yields_string]]

lemma yields_fields:
  "yields (\<lambda>_. True) (process_field f v p)" "yields (\<lambda>_. True) (root_field f v r)" "yields (\<lambda>_. True) (mount_field f v m)"
  "yields (\<lambda>_. True) (namespace_field f v n)"
  unfolding process_field_def root_field_def mount_field_def namespace_field_def
  by (intro yields_if yields_text; simp)+

lemma yields_parts:
  "yields (\<lambda>_. True) (dec_process v p)" "yields (\<lambda>_. True) (dec_mount v)" "yields (\<lambda>_. True) (dec_namespace v)"
  unfolding dec_process_def dec_mount_def dec_namespace_def by (intro yields_struct yields_fields; simp)+

lemma yields_memory: "pred_option in_int64 m \<Longrightarrow> yields (pred_option in_int64) (memory_field f v m)"
  unfolding memory_field_def by (intro yields_if yields_ptr yields_int64) (simp_all add: in_int64_def)

lemma yields_cpu: "cpu_typed c \<Longrightarrow> yields cpu_typed (cpu_field f v c)"
  unfolding cpu_field_def
  by (intro yields_if yields_set [OF yields_ptr [OF yields_int64]] yields_set [OF yields_ptr [OF yields_uint64]])
     (auto simp: cpu_typed_def in_int64_def in_uint64_def)

lemma yields_resources: "resources_typed r \<Longrightarrow> yields resources_typed (resources_field f v r)"
  unfolding resources_field_def
  by (intro yields_if yields_set [OF yields_ptr [OF yields_struct [OF yields_memory]]] yields_set [OF yields_ptr [OF yields_struct [OF yields_cpu]]])
     (auto simp: resources_typed_def cpu_typed_def)

lemma yields_linux: "linux_typed l \<Longrightarrow> yields linux_typed (linux_field f v l)"
  unfolding linux_field_def
  by (intro yields_if yields_set [OF yields_list [OF yields_parts(3)]] yields_set [OF yields_string]
      yields_set [OF yields_ptr [OF yields_struct [OF yields_resources]]])
     (auto simp: linux_typed_def resources_typed_def)

lemma yields_spec: "spec_typed s \<Longrightarrow> yields spec_typed (spec_field f v s)"
proof -
  assume s: "spec_typed s"
  have root: "yields (\<lambda>_. True) (dec_struct names root_field v r)" for names v r
    by (intro yields_struct yields_fields) simp
  show ?thesis
    unfolding spec_field_def
    by (intro yields_if yields_set [OF yields_string] yields_set [OF yields_list [OF yields_parts(2)]]
        yields_set [OF yields_ptr [where P = "\<lambda>_. True", OF yields_parts(1)]] yields_set [OF yields_ptr [where P = "\<lambda>_. True", OF root]]
        yields_set [OF yields_ptr [OF yields_struct [OF yields_linux]]])
       (use s in \<open>auto simp: spec_typed_def linux_typed_def pred_option_def\<close>)
qed

lemma yields_exec: "exec_typed p \<Longrightarrow> yields exec_typed (exec_field f v p)"
proof -
  assume p: "exec_typed p"
  have "yields (\<lambda>u. in_uint32 (fst u) \<and> in_uint32 (snd u)) (user_field f v u)" if "in_uint32 (fst u) \<and> in_uint32 (snd u)" for f v u
    unfolding user_field_def by (intro yields_if yields_set [OF yields_uint32]) (use that in auto)
  then have user: "yields (\<lambda>u. in_uint32 (fst u) \<and> in_uint32 (snd u)) (dec_struct names user_field v (ep_UID p, ep_GID p))" for names v
    by (intro yields_struct) (use p in \<open>auto simp: exec_typed_def\<close>)
  show ?thesis
    unfolding exec_field_def
    by (intro yields_if yields_text yields_set [OF user])
       (use p in \<open>auto simp: exec_typed_def\<close>)
qed

lemma yields_state: "state_typed s \<Longrightarrow> yields state_typed (state_field f v s)"
  unfolding state_field_def
  by (intro yields_if yields_set [OF yields_string] yields_set [OF yields_int64]) (auto simp: state_typed_def)

lemma yields_unmarshal: "(\<And>v. yields P (d v zero)) \<Longrightarrow> yields P (json_unmarshal d text zero)"
  by (simp add: json_unmarshal_def split: option.splits)



end
