(* ===== verification/OciRuntime.thy ===== *)
theory OciRuntime
  imports OciSpec
begin

text \<open>
  The commands of the OCI runtime in \<open>ociruntime_linux.go\<close>: global flags and dispatch, create,
  the container init, start, state, kill and delete. Every command runs against the kernel
  parameter \<open>K\<close>; how the Go library formats times and errors, and the environment of the process,
  are the fields of the parameter \<open>E\<close>. What the commands print on their standard output is a write
  to descriptor 1; messages on standard error are not modelled.
\<close>

record rt_env =
  e_time :: "int \<Rightarrow> string"
  e_text :: "goerr \<Rightarrow> string"
  e_environ :: "string list"

record runtimeGlobals =
  g_root :: string
  g_log :: string

definition defaultRuntimeRoot :: string where
  "defaultRuntimeRoot = ''/run/asterkube-runc''"

definition CLONE_NEWNS :: mflags where "CLONE_NEWNS = push_bit 17 1"
definition CLONE_NEWCGROUP :: mflags where "CLONE_NEWCGROUP = push_bit 25 1"
definition CLONE_NEWUTS :: mflags where "CLONE_NEWUTS = push_bit 26 1"
definition CLONE_NEWIPC :: mflags where "CLONE_NEWIPC = push_bit 27 1"
definition CLONE_NEWUSER :: mflags where "CLONE_NEWUSER = push_bit 28 1"
definition CLONE_NEWPID :: mflags where "CLONE_NEWPID = push_bit 29 1"
definition CLONE_NEWNET :: mflags where "CLONE_NEWNET = push_bit 30 1"

lemmas clone_defs = CLONE_NEWNS_def CLONE_NEWCGROUP_def CLONE_NEWUTS_def CLONE_NEWIPC_def
  CLONE_NEWUSER_def CLONE_NEWPID_def CLONE_NEWNET_def

definition O_RDONLY :: mflags where "O_RDONLY = 0"
definition O_WRONLY :: mflags where "O_WRONLY = 1"
definition O_RDWR :: mflags where "O_RDWR = 2"
definition O_CREATE :: mflags where "O_CREATE = 0x40"
definition O_NOCTTY :: mflags where "O_NOCTTY = 0x100"
definition O_APPEND :: mflags where "O_APPEND = 0x400"
definition O_CLOEXEC :: mflags where "O_CLOEXEC = 0x80000"
definition oPath :: mflags where "oPath = 0x200000"

definition SIGHUP :: int where "SIGHUP = 1"
definition SIGINT :: int where "SIGINT = 2"
definition SIGQUIT :: int where "SIGQUIT = 3"
definition SIGKILL :: int where "SIGKILL = 9"
definition SIGUSR1 :: int where "SIGUSR1 = 10"
definition SIGTERM :: int where "SIGTERM = 15"

lemmas sig_defs = SIGHUP_def SIGINT_def SIGQUIT_def SIGKILL_def SIGUSR1_def SIGTERM_def


section \<open>Helpers\<close>

definition readSpec :: "kernel \<Rightarrow> string \<Rightarrow> ociSpec res io" where
  "readSpec K bundle =
     try_io (wrap_io ''read config.json'' (os_data K (ReadFile (path_join [bundle, ''config.json''])))) (\<lambda>b.
     State_Monad.return (case json_unmarshal dec_spec b spec0 of
         Ok s \<Rightarrow> Ok (if sp_Root s = None then s\<lparr>sp_Root := Some \<lparr>rt_Path = ''rootfs'', rt_Readonly = False\<rparr>\<rparr> else s)
       | r \<Rightarrow> wrap_err ''parse config.json'' r))"

definition state_file :: "runtimeGlobals \<Rightarrow> string \<Rightarrow> string" where
  "state_file g cid = path_join [g_root g, cid, ''state.json'']"

definition writeState :: "kernel \<Rightarrow> runtimeGlobals \<Rightarrow> containerState \<Rightarrow> unit res io" where
  "writeState K g st = os_unit K (WriteFile (state_file g (cs_ID st)) (json_print (enc_state st)) 384)"

definition readState :: "kernel \<Rightarrow> runtimeGlobals \<Rightarrow> string \<Rightarrow> containerState res io" where
  "readState K g cid =
     State_Monad.bind (os_data K (ReadFile (state_file g cid))) (\<lambda>r. State_Monad.return (case r of
         Ok b \<Rightarrow> json_unmarshal dec_state b state0
       | Err e \<Rightarrow> Err (Text (''container '' @ cid @ '' not found''))
       | Panic \<Rightarrow> Panic
       | Hang \<Rightarrow> Hang))"

definition cgroup_dir :: "ociLinux \<Rightarrow> string \<Rightarrow> string" where
  "cgroup_dir l cid =
     (let rel = (if li_CgroupsPath l = [] then ''/asterkube/'' @ cid else li_CgroupsPath l);
          rel = map (\<lambda>c. if c = CHR '':'' then CHR ''/'' else c) rel
      in path_join [''/sys/fs/cgroup'', rel])"

definition memory_limit :: "ociResources \<Rightarrow> int option" where
  "memory_limit r = (case rs_Memory r of
       Some (Some n) \<Rightarrow> if n > 0 then Some n else None
     | _ \<Rightarrow> None)"

definition cpu_limit :: "ociResources \<Rightarrow> (int \<times> int) option" where
  "cpu_limit r = (case rs_CPU r of
       None \<Rightarrow> None
     | Some c \<Rightarrow> (case cpu_Quota c of
         None \<Rightarrow> None
       | Some q \<Rightarrow> if q > 0
                  then Some (q, case cpu_Period c of Some p \<Rightarrow> if p > 0 then p else 100000 | None \<Rightarrow> 100000)
                  else None))"

definition write_limits :: "kernel \<Rightarrow> string \<Rightarrow> ociResources option \<Rightarrow> unit io" where
  "write_limits K cg r = (case r of
       None \<Rightarrow> State_Monad.return ()
     | Some r \<Rightarrow>
         State_Monad.bind (case memory_limit r of
             Some n \<Rightarrow> os_ignore K (WriteFile (path_join [cg, ''memory.max'']) (itoa n) 420)
           | None \<Rightarrow> State_Monad.return ()) (\<lambda>_.
         (case cpu_limit r of
             Some (q, p) \<Rightarrow> os_ignore K (WriteFile (path_join [cg, ''cpu.max'']) (itoa q @ '' '' @ itoa p) 420)
           | None \<Rightarrow> State_Monad.return ())))"

definition applyCgroup :: "kernel \<Rightarrow> ociSpec \<Rightarrow> string \<Rightarrow> int \<Rightarrow> string io" where
  "applyCgroup K spec cid pid = (case sp_Linux spec of
       None \<Rightarrow> State_Monad.return []
     | Some l \<Rightarrow>
         let cg = cgroup_dir l cid in
         State_Monad.bind (os_unit K (MkdirAll cg)) (\<lambda>r. case r of
             Ok _ \<Rightarrow>
               State_Monad.bind (write_limits K cg (li_Resources l)) (\<lambda>_.
               State_Monad.bind (os_ignore K (WriteFile (path_join [cg, ''cgroup.procs'']) (itoa pid) 420)) (\<lambda>_.
               State_Monad.return cg))
           | _ \<Rightarrow> State_Monad.return []))"

definition pidAlive :: "kernel \<Rightarrow> int \<Rightarrow> bool io" where
  "pidAlive K pid = os_as (\<lambda>r. is_ok (as_unit r)) K (Kill pid 0)"

definition containsArg :: "string list \<Rightarrow> string \<Rightarrow> bool" where
  "containsArg args want \<longleftrightarrow> want \<in> set args"

definition lastArg :: "string list \<Rightarrow> string" where
  "lastArg args = (case find (\<lambda>a. \<not> hasPrefix a ''-'') (rev args) of Some a \<Rightarrow> a | None \<Rightarrow> [])"

definition named_signal :: "string \<Rightarrow> int option" where
  "named_signal s =
     (if s = ''TERM'' \<or> s = ''15'' \<or> s = [] then Some SIGTERM
      else if s = ''KILL'' \<or> s = ''9'' then Some SIGKILL
      else if s = ''INT'' \<or> s = ''2'' then Some SIGINT
      else if s = ''HUP'' \<or> s = ''1'' then Some SIGHUP
      else if s = ''QUIT'' \<or> s = ''3'' then Some SIGQUIT
      else if s = ''USR1'' \<or> s = ''10'' then Some SIGUSR1
      else None)"

definition parseSignal :: "string \<Rightarrow> int" where
  "parseSignal s0 =
     (let s = trimPrefix (toUpper s0) ''SIG'' in
      case named_signal s of
        Some n \<Rightarrow> n
      | None \<Rightarrow> (case atoi s of Some n \<Rightarrow> n | None \<Rightarrow> SIGTERM))"

definition orDefault :: "string \<Rightarrow> string \<Rightarrow> string" where
  "orDefault s d = (if s = [] then d else s)"

definition rootfs_of :: "string \<Rightarrow> ociSpec \<Rightarrow> string" where
  "rootfs_of bundle spec =
     (let p = (case sp_Root spec of Some r \<Rightarrow> rt_Path r | None \<Rightarrow> [])
      in if isAbs p then p else path_join [bundle, p])"

definition fifo_path :: "string \<Rightarrow> string \<Rightarrow> string" where
  "fifo_path root cid = path_join [root, cid, ''exec.fifo'']"


section \<open>Create\<close>

text \<open>A command-line loop: an argument continues with the rest of the line, or runs past its end and
  panics.\<close>

datatype 'a arg_step = Continue 'a "string list" | Overrun

record create_args =
  c_bundle :: string
  c_pidFile :: string
  c_id :: string

definition take_value :: "('a \<Rightarrow> string \<Rightarrow> 'a) \<Rightarrow> 'a \<Rightarrow> string list \<Rightarrow> 'a arg_step" where
  "take_value upd a rest = (case rest of [] \<Rightarrow> Overrun | v # r \<Rightarrow> Continue (upd a v) r)"

definition create_arg :: "string \<Rightarrow> string list \<Rightarrow> create_args \<Rightarrow> create_args arg_step" where
  "create_arg a rest c =
     (if a = ''--bundle'' \<or> a = ''-b'' then take_value (\<lambda>c v. c\<lparr>c_bundle := v\<rparr>) c rest
      else if hasPrefix a ''--bundle='' then Continue (c\<lparr>c_bundle := trimPrefix a ''--bundle=''\<rparr>) rest
      else if a = ''--pid-file'' then take_value (\<lambda>c v. c\<lparr>c_pidFile := v\<rparr>) c rest
      else if hasPrefix a ''--pid-file='' then Continue (c\<lparr>c_pidFile := trimPrefix a ''--pid-file=''\<rparr>) rest
      else if a = ''--console-socket'' \<or> a = ''--preserve-fds'' then Continue c (tl rest)
      else if a = ''--no-pivot'' \<or> a = ''--no-new-keyring'' then Continue c rest
      else if \<not> hasPrefix a ''-'' then Continue (c\<lparr>c_id := a\<rparr>) rest
      else Continue c rest)"

text \<open>The loop shared by the command lines: \<open>step\<close> consumes one argument and possibly its value. The
  fuel is the number of arguments; each turn consumes at least one.\<close>

fun arg_loop :: "nat \<Rightarrow> (string \<Rightarrow> string list \<Rightarrow> 'a \<Rightarrow> 'a arg_step) \<Rightarrow> string list \<Rightarrow> 'a \<Rightarrow> 'a res" where
  "arg_loop n step [] a = Ok a"
| "arg_loop 0 step (x # xs) a = Hang"
| "arg_loop (Suc n) step (x # xs) a = (case step x xs a of
       Overrun \<Rightarrow> Panic
     | Continue a' rest \<Rightarrow> arg_loop n step rest a')"

definition create_args_of :: "string list \<Rightarrow> create_args res" where
  "create_args_of args = arg_loop (length args) create_arg args \<lparr>c_bundle = [], c_pidFile = [], c_id = []\<rparr>"

definition ns_clone_flag :: "string \<Rightarrow> mflags" where
  "ns_clone_flag t =
     (if t = ''pid'' then CLONE_NEWPID else if t = ''mount'' then CLONE_NEWNS
      else if t = ''ipc'' then CLONE_NEWIPC else if t = ''uts'' then CLONE_NEWUTS
      else if t = ''network'' then CLONE_NEWNET else if t = ''cgroup'' then CLONE_NEWCGROUP
      else if t = ''user'' then CLONE_NEWUSER else 0)"

definition add_ns_flag :: "ociNamespace \<Rightarrow> mflags \<Rightarrow> mflags" where
  "add_ns_flag ns f = (if ns_Path ns \<noteq> [] then f else f OR ns_clone_flag (ns_Type ns))"

definition cloneFlagsFor :: "ociSpec \<Rightarrow> mflags" where
  "cloneFlagsFor spec = (case sp_Linux spec of
       None \<Rightarrow> CLONE_NEWNS
     | Some l \<Rightarrow>
         let f = fold add_ns_flag (li_Namespaces l) 0
         in if f AND CLONE_NEWNS = 0 then f OR CLONE_NEWNS else f)"

definition init_process :: "rt_env \<Rightarrow> runtimeGlobals \<Rightarrow> string \<Rightarrow> string \<Rightarrow> ociSpec \<Rightarrow> proc_attr" where
  "init_process E g cid bundle spec =
     \<lparr>pa_path = ''/proc/self/exe'', pa_argv = [''runc'', ''__runc_init'', g_root g, cid, bundle],
      pa_env = e_environ E, pa_dir = [], pa_flags = cloneFlagsFor spec, pa_chroot = [], pa_cred = None,
      pa_files = [0, 1, 2], pa_tty = False\<rparr>"

definition created_state ::
  "rt_env \<Rightarrow> ociSpec \<Rightarrow> string \<Rightarrow> string \<Rightarrow> int \<Rightarrow> string \<Rightarrow> int \<Rightarrow> containerState" where
  "created_state E spec cid bundle pid cg now =
     \<lparr>cs_OCIVersion = orDefault (sp_OCIVersion spec) ''1.2.0'', cs_ID = cid, cs_InitPid = pid, cs_Status = ''created'',
      cs_Bundle = bundle, cs_Rootfs = rootfs_of bundle spec, cs_Created = e_time E now, cs_CgroupPath = cg\<rparr>"

text \<open>From the fork of the container init to the pid file.\<close>

definition create_record :: "rt_env \<Rightarrow> kernel \<Rightarrow> runtimeGlobals \<Rightarrow> create_args \<Rightarrow> string \<Rightarrow> ociSpec \<Rightarrow> int \<Rightarrow> unit res io" where
  "create_record E K g c bundle spec pid =
     State_Monad.bind (applyCgroup K spec (c_id c) pid) (\<lambda>cg.
     State_Monad.bind (os_now K) (\<lambda>now.
     try_io (writeState K g (created_state E spec (c_id c) bundle pid cg now)) (\<lambda>_.
     if c_pidFile c \<noteq> []
     then wrap_io ''write pid-file'' (os_unit K (WriteFile (c_pidFile c) (itoa pid) 420))
     else ok_io ())))"

definition create_fork :: "rt_env \<Rightarrow> kernel \<Rightarrow> runtimeGlobals \<Rightarrow> create_args \<Rightarrow> string \<Rightarrow> ociSpec \<Rightarrow> unit res io" where
  "create_fork E K g c bundle spec =
     try_io (os_unit K (MkdirAll (path_join [g_root g, c_id c]))) (\<lambda>_.
     State_Monad.bind (os_ignore K (Remove (fifo_path (g_root g) (c_id c)))) (\<lambda>_.
     try_io (wrap_io ''mkfifo'' (os_unit K (Mkfifo (fifo_path (g_root g) (c_id c))))) (\<lambda>_.
     try_io (wrap_io ''fork container init'' (os_int K (StartProcess (init_process E g (c_id c) bundle spec)))) (\<lambda>pid.
     create_record E K g c bundle spec pid))))"

definition bundle_dir :: "kernel \<Rightarrow> create_args \<Rightarrow> string io" where
  "bundle_dir K c =
     (if c_bundle c \<noteq> [] then State_Monad.return (c_bundle c)
      else os_as (\<lambda>r. case r of RData d \<Rightarrow> d | _ \<Rightarrow> []) K Getwd)"

definition cmdCreate :: "rt_env \<Rightarrow> kernel \<Rightarrow> runtimeGlobals \<Rightarrow> string list \<Rightarrow> unit res io" where
  "cmdCreate E K g args =
     try_io (State_Monad.return (create_args_of args)) (\<lambda>c.
     if c_id c = [] then err_io (Text ''no container id'')
     else State_Monad.bind (bundle_dir K c) (\<lambda>bundle.
     try_io (readSpec K bundle) (\<lambda>spec. create_fork E K g c bundle spec)))"


section \<open>The container init\<close>

definition ns_join_flag :: "string \<Rightarrow> mflags option" where
  "ns_join_flag t =
     (if t = ''network'' then Some CLONE_NEWNET else if t = ''ipc'' then Some CLONE_NEWIPC
      else if t = ''uts'' then Some CLONE_NEWUTS else if t = ''cgroup'' then Some CLONE_NEWCGROUP
      else None)"

definition join_one :: "kernel \<Rightarrow> ociNamespace \<Rightarrow> unit res io" where
  "join_one K ns =
     (if ns_Path ns = [] then ok_io ()
      else case ns_join_flag (ns_Type ns) of
          None \<Rightarrow> ok_io ()
        | Some flag \<Rightarrow>
            try_io (wrap_io (''open '' @ ns_Type ns @ '' ns'') (os_int K (OpenFile (ns_Path ns) (O_RDONLY OR O_CLOEXEC)))) (\<lambda>fd.
            State_Monad.bind (os_unit K (Setns fd flag)) (\<lambda>r.
            State_Monad.bind (os_ignore K (CloseFd fd)) (\<lambda>_.
            State_Monad.return (wrap_err (''setns '' @ ns_Type ns) r)))))"

fun join_all :: "kernel \<Rightarrow> ociNamespace list \<Rightarrow> unit res io" where
  "join_all K [] = ok_io ()"
| "join_all K (ns # nss) = try_io (join_one K ns) (\<lambda>_. join_all K nss)"

definition joinNamespaces :: "kernel \<Rightarrow> ociSpec \<Rightarrow> unit res io" where
  "joinNamespaces K spec = (case sp_Linux spec of None \<Rightarrow> ok_io () | Some l \<Rightarrow> join_all K (li_Namespaces l))"

definition mount_option :: "string \<Rightarrow> mflags \<times> string list \<Rightarrow> mflags \<times> string list" where
  "mount_option w fd = (let f = fst fd; d = snd fd in
     if w = ''ro'' then (f OR msRdonly, d)
     else if w = ''nosuid'' then (f OR msNosuid, d)
     else if w = ''nodev'' then (f OR msNodev, d)
     else if w = ''noexec'' then (f OR msNoexec, d)
     else if w = ''bind'' then (f OR msBind, d)
     else if w = ''rbind'' then (f OR (msBind OR msRec), d)
     else if w = ''relatime'' then (f OR msRelatime, d)
     else if w = ''strictatime'' then (f OR msStrictatime, d)
     else if w = ''remount'' then (f OR msRemount, d)
     else (f, d @ [w]))"

definition mountOptions :: "string list \<Rightarrow> mflags \<times> string" where
  "mountOptions opts = (case fold mount_option opts (0, []) of (f, d) \<Rightarrow> (f, join_with '','' d))"

definition spec_mount :: "kernel \<Rightarrow> string \<Rightarrow> ociMount \<Rightarrow> unit io" where
  "spec_mount K rootfs m =
     (let dest = path_join [rootfs, mo_Destination m];
          src = (if mo_Source m = [] then mo_Type m else mo_Source m)
      in State_Monad.bind (os_ignore K (MkdirAll dest)) (\<lambda>_.
         case mountOptions (mo_Options m) of (flags, data) \<Rightarrow>
         os_ignore K (Mount src dest (mo_Type m) flags data)))"

definition enter_root :: "kernel \<Rightarrow> string \<Rightarrow> unit res io" where
  "enter_root K rootfs =
     (let old = path_join [rootfs, ''.oldroot''] in
      State_Monad.bind (os_ignore K (MkdirAll old)) (\<lambda>_.
      State_Monad.bind (os_unit K (PivotRoot rootfs old)) (\<lambda>r. case r of
          Err e \<Rightarrow> try_io (wrap_io ''pivot_root'' (os_unit K (Chroot rootfs))) (\<lambda>_. os_unit K (Chdir ''/''))
        | _ \<Rightarrow>
            try_io (os_unit K (Chdir ''/'')) (\<lambda>_.
            State_Monad.bind (os_ignore K (Unmount ''/.oldroot'' mntDetach)) (\<lambda>_.
            State_Monad.bind (os_ignore K (Remove ''/.oldroot'')) (\<lambda>_. ok_io ()))))))"

definition setupRootfs :: "kernel \<Rightarrow> string \<Rightarrow> ociSpec \<Rightarrow> unit res io" where
  "setupRootfs K rootfs spec =
     try_io (wrap_io ''make-rprivate'' (os_unit K (Mount [] ''/'' [] (msRec OR msPrivate) []))) (\<lambda>_.
     try_io (wrap_io ''bind rootfs'' (os_unit K (Mount rootfs rootfs [] (msBind OR msRec) []))) (\<lambda>_.
     State_Monad.bind (State_Monad.traverse_list (spec_mount K rootfs) (sp_Mounts spec)) (\<lambda>_.
     enter_root K rootfs)))"

definition default_path :: string where
  "default_path = ''/usr/local/sbin:/usr/local/bin:/usr/sbin:/usr/bin:/sbin:/bin''"

text \<open>The last \<open>PATH=\<close> of the environment wins.\<close>

definition last_path :: "string list \<Rightarrow> string" where
  "last_path env = fold (\<lambda>e p. if hasPrefix e ''PATH='' then trimPrefix e ''PATH='' else p) env []"

definition executable_mode :: "reply \<Rightarrow> bool" where
  "executable_mode r = (case r of RStat d m \<Rightarrow> and m 73 \<noteq> 0 | _ \<Rightarrow> False)"

fun search_dirs :: "kernel \<Rightarrow> string \<Rightarrow> string list \<Rightarrow> string io" where
  "search_dirs K argv0 [] = State_Monad.return argv0"
| "search_dirs K argv0 (dir # dirs) =
     (let cand = path_join [dir, argv0] in
      State_Monad.bind (os_as executable_mode K (Stat cand)) (\<lambda>ok.
      if ok then State_Monad.return cand else search_dirs K argv0 dirs))"

definition resolveInRootPath :: "kernel \<Rightarrow> string \<Rightarrow> string list \<Rightarrow> string io" where
  "resolveInRootPath K argv0 env =
     (if contains argv0 ''/'' then State_Monad.return argv0
      else let p = last_path env
           in search_dirs K argv0 (split_on (CHR '':'') (if p = [] then default_path else p)))"

text \<open>After the signal on the fifo: the user process.\<close>

definition exec_user :: "kernel \<Rightarrow> ociSpec \<Rightarrow> int res io" where
  "exec_user K spec = (case sp_Process spec of
       None \<Rightarrow> ok_io 1
     | Some p \<Rightarrow> (case pr_Args p of
         [] \<Rightarrow> ok_io 1
       | argv0 # _ \<Rightarrow>
           State_Monad.bind (if pr_Cwd p \<noteq> [] then os_ignore K (Chdir (pr_Cwd p)) else State_Monad.return ()) (\<lambda>_.
           State_Monad.bind (resolveInRootPath K argv0 (pr_Env p)) (\<lambda>path.
           State_Monad.bind (os_unit K (ExecImage path (pr_Args p) (pr_Env p))) (\<lambda>r. ok_io (if is_ok r then 0 else 1))))))"

text \<open>\<open>x, err := m; if err != nil { return 1 }\<close> in a function that returns an exit code.\<close>

definition or_exit1 :: "'a res io \<Rightarrow> ('a \<Rightarrow> int res io) \<Rightarrow> int res io" where
  "or_exit1 m f = State_Monad.bind m (\<lambda>r. case r of
       Ok a \<Rightarrow> f a
     | Err e \<Rightarrow> ok_io 1
     | Panic \<Rightarrow> State_Monad.return Panic
     | Hang \<Rightarrow> State_Monad.return Hang)"

definition self_fd :: "int \<Rightarrow> string" where
  "self_fd fd = ''/proc/self/fd/'' @ itoa fd"

definition await_start :: "kernel \<Rightarrow> int \<Rightarrow> unit res io" where
  "await_start K fifoFd =
     try_io (os_int K (OpenFile (self_fd fifoFd) O_WRONLY)) (\<lambda>wf.
     try_io (os_unit K (WriteFd wf [CHR 0x00])) (\<lambda>_.
     State_Monad.bind (os_ignore K (CloseFd wf)) (\<lambda>_.
     State_Monad.bind (os_ignore K (CloseFd fifoFd)) (\<lambda>_. ok_io ()))))"

text \<open>From the root filesystem to the user process.\<close>

definition init_enter :: "kernel \<Rightarrow> string \<Rightarrow> ociSpec \<Rightarrow> int \<Rightarrow> int res io" where
  "init_enter K bundle spec fifoFd =
     or_exit1 (setupRootfs K (rootfs_of bundle spec) spec) (\<lambda>_.
     or_exit1 (await_start K fifoFd) (\<lambda>_.
     exec_user K spec))"

definition set_hostname :: "kernel \<Rightarrow> ociSpec \<Rightarrow> unit io" where
  "set_hostname K spec =
     (if sp_Hostname spec \<noteq> [] then os_ignore K (Sethostname (sp_Hostname spec)) else State_Monad.return ())"

definition runcInit :: "kernel \<Rightarrow> string \<Rightarrow> string \<Rightarrow> string \<Rightarrow> int res io" where
  "runcInit K root cid bundle =
     or_exit1 (readSpec K bundle) (\<lambda>spec.
     or_exit1 (joinNamespaces K spec) (\<lambda>_.
     or_exit1 (os_int K (OpenFile (fifo_path root cid) (oPath OR O_CLOEXEC))) (\<lambda>fifoFd.
     State_Monad.bind (set_hostname K spec) (\<lambda>_.
     init_enter K bundle spec fifoFd))))"


section \<open>Start, state, kill, delete\<close>

definition cmdStart :: "kernel \<Rightarrow> runtimeGlobals \<Rightarrow> string list \<Rightarrow> unit res io" where
  "cmdStart K g args =
     (let cid = lastArg args in
      try_io (readState K g cid) (\<lambda>st.
      try_io (wrap_io ''open fifo'' (os_int K (OpenFile (fifo_path (g_root g) cid) O_RDONLY))) (\<lambda>f.
      State_Monad.bind (os_ignore K (ReadFd f)) (\<lambda>_.
      State_Monad.bind (os_ignore K (CloseFd f)) (\<lambda>_.
      State_Monad.bind (os_ignore K (Remove (fifo_path (g_root g) cid))) (\<lambda>_.
      writeState K g (st\<lparr>cs_Status := ''running''\<rparr>)))))))"

definition state_report :: "containerState \<Rightarrow> string \<Rightarrow> json" where
  "state_report st status = JObj
     [(''annotations'', JObj []), (''bundle'', JStr (cs_Bundle st)), (''created'', JStr (cs_Created st)),
      (''id'', JStr (cs_ID st)), (''ociVersion'', JStr (cs_OCIVersion st)), (''pid'', JNum (itoa (cs_InitPid st))),
      (''rootfs'', JStr (cs_Rootfs st)), (''status'', JStr status)]"

definition current_status :: "kernel \<Rightarrow> containerState \<Rightarrow> string io" where
  "current_status K st =
     (if cs_InitPid st > 0
      then State_Monad.bind (pidAlive K (cs_InitPid st)) (\<lambda>alive.
           State_Monad.return (if alive then cs_Status st else ''stopped''))
      else State_Monad.return (cs_Status st))"

definition cmdState :: "kernel \<Rightarrow> runtimeGlobals \<Rightarrow> string list \<Rightarrow> unit res io" where
  "cmdState K g args =
     try_io (readState K g (lastArg args)) (\<lambda>st.
     State_Monad.bind (current_status K st) (\<lambda>status.
     State_Monad.bind (os_ignore K (WriteFd 1 (json_print (state_report st status)))) (\<lambda>_.
     State_Monad.bind (os_ignore K (WriteFd 1 [CHR 0x0A])) (\<lambda>_. ok_io ()))))"

text \<open>The id is the first word, the signal the last of the others.\<close>

definition kill_arg :: "string \<Rightarrow> string \<times> string \<Rightarrow> string \<times> string" where
  "kill_arg a is = (if hasPrefix a ''-'' then is else if fst is = [] then (a, snd is) else (fst is, a))"

definition cmdKill :: "kernel \<Rightarrow> runtimeGlobals \<Rightarrow> string list \<Rightarrow> unit res io" where
  "cmdKill K g args = (case fold kill_arg args ([], []) of (cid, sig) \<Rightarrow>
     try_io (readState K g cid) (\<lambda>st.
     if cs_InitPid st > 0
     then State_Monad.bind (os_unit K (Kill (cs_InitPid st) (parseSignal sig))) (\<lambda>r.
          State_Monad.return (if r = Err (Errno ESRCH) then Ok () else r))
     else ok_io ()))"

definition delete_arg :: "string \<Rightarrow> bool \<times> string \<Rightarrow> bool \<times> string" where
  "delete_arg a fi = (if a = ''--force'' \<or> a = ''-f'' then (True, snd fi)
                      else if \<not> hasPrefix a ''-'' then (fst fi, a) else fi)"

definition cmdDelete :: "kernel \<Rightarrow> runtimeGlobals \<Rightarrow> string list \<Rightarrow> unit res io" where
  "cmdDelete K g args = (case fold delete_arg args (False, []) of (force, cid) \<Rightarrow>
     State_Monad.bind (readState K g cid) (\<lambda>r. case r of
         Ok st \<Rightarrow>
           State_Monad.bind
             (if force \<and> cs_InitPid st > 0
              then State_Monad.bind (pidAlive K (cs_InitPid st)) (\<lambda>alive.
                   if alive then os_ignore K (Kill (cs_InitPid st) SIGKILL) else State_Monad.return ())
              else State_Monad.return ()) (\<lambda>_.
           State_Monad.bind
             (if cs_CgroupPath st \<noteq> [] then os_ignore K (Remove (cs_CgroupPath st)) else State_Monad.return ()) (\<lambda>_.
           os_unit K (RemoveAll (path_join [g_root g, cid]))))
       | Err e \<Rightarrow> ok_io ()
       | Panic \<Rightarrow> State_Monad.return Panic
       | Hang \<Rightarrow> State_Monad.return Hang))"


section \<open>Namespaces\<close>

definition spec_namespaces :: "ociSpec \<Rightarrow> ociNamespace list" where
  "spec_namespaces spec = (case sp_Linux spec of None \<Rightarrow> [] | Some l \<Rightarrow> li_Namespaces l)"

lemma bit_fold_ns:
  "bit (fold add_ns_flag nss f) n \<longleftrightarrow>
     bit f n \<or> (\<exists>ns \<in> set nss. ns_Path ns = [] \<and> bit (ns_clone_flag (ns_Type ns)) n)"
  by (induction nss arbitrary: f) (auto simp: add_ns_flag_def bit_simps)

lemma bit_NEWNS: "bit CLONE_NEWNS n \<longleftrightarrow> n = 17"
  by (simp only: CLONE_NEWNS_def push_bit_of_1 bit_exp_iff) (auto simp: possible_bit_word)

lemma and_NEWNS: "f AND CLONE_NEWNS = 0 \<longleftrightarrow> \<not> bit f 17"
proof
  assume "f AND CLONE_NEWNS = 0"
  then have "\<not> bit (f AND CLONE_NEWNS) 17" by simp
  then show "\<not> bit f 17" by (simp add: bit_simps bit_NEWNS)
next
  assume "\<not> bit f 17"
  then show "f AND CLONE_NEWNS = 0" by (intro bit_word_eqI) (auto simp: bit_simps bit_NEWNS)
qed

lemma bit_cloneFlagsFor:
  "bit (cloneFlagsFor spec) n \<longleftrightarrow> n = 17 \<or>
     (\<exists>ns \<in> set (spec_namespaces spec). ns_Path ns = [] \<and> bit (ns_clone_flag (ns_Type ns)) n)"
proof (cases "sp_Linux spec")
  case None
  then show ?thesis by (simp add: cloneFlagsFor_def spec_namespaces_def bit_NEWNS)
next
  case (Some l)
  then show ?thesis
    using and_NEWNS [of "fold add_ns_flag (li_Namespaces l) 0"]
    by (auto simp: cloneFlagsFor_def spec_namespaces_def Let_def bit_simps bit_NEWNS bit_fold_ns)
qed

text \<open>The container init is cloned into its own mount namespace whatever the
  specification says, and into exactly those other namespaces that the specification lists
  without a path.\<close>

lemma cloneFlagsFor_spec:
  "bit (cloneFlagsFor spec) n \<longleftrightarrow> bit CLONE_NEWNS n \<or>
     (\<exists>ns \<in> set (spec_namespaces spec). ns_Path ns = [] \<and> bit (ns_clone_flag (ns_Type ns)) n)"
  by (simp add: bit_cloneFlagsFor bit_NEWNS)

lemma only_join_one:
  "(\<And>p f. P (OpenFile p f)) \<Longrightarrow> (\<And>fd f. f \<in> {CLONE_NEWNET, CLONE_NEWIPC, CLONE_NEWUTS, CLONE_NEWCGROUP} \<Longrightarrow> P (Setns fd f)) \<Longrightarrow>
     (\<And>fd. P (CloseFd fd)) \<Longrightarrow> only P (join_one K ns)"
  unfolding join_one_def ns_join_flag_def by (auto intro!: only_intros split: option.splits)

lemma only_joinNamespaces:
  assumes "\<And>p f. P (OpenFile p f)" "\<And>fd. P (CloseFd fd)"
    "\<And>fd f. f \<in> {CLONE_NEWNET, CLONE_NEWIPC, CLONE_NEWUTS, CLONE_NEWCGROUP} \<Longrightarrow> P (Setns fd f)"
  shows "only P (joinNamespaces K spec)"
proof -
  have "only P (join_all K nss)" for nss
    by (induction nss) (use assms in \<open>auto intro!: only_intros only_join_one\<close>)
  then show ?thesis by (auto simp: joinNamespaces_def intro!: only_intros split: option.splits)
qed

lemma clone_pid_distinct: "CLONE_NEWPID \<notin> {CLONE_NEWNET, CLONE_NEWIPC, CLONE_NEWUTS, CLONE_NEWCGROUP}"
  by (simp add: clone_defs)

text \<open>When every PID namespace of the specification is given by a path,
  the container gets no PID namespace of its own and never joins the given one: the clone flag is
  absent and the init makes no \<open>setns\<close> for it.\<close>

lemma pid_namespace_by_path:
  assumes "\<forall>ns \<in> set (spec_namespaces spec). ns_Type ns = ''pid'' \<longrightarrow> ns_Path ns \<noteq> []"
  shows "\<not> bit (cloneFlagsFor spec) 29 \<and> Setns fd CLONE_NEWPID \<notin> set (made (joinNamespaces K spec) h)"
proof
  have "\<not> bit (ns_clone_flag t) 29" if "t \<noteq> ''pid''" for t
    using that by (simp add: ns_clone_flag_def clone_defs)
  then show "\<not> bit (cloneFlagsFor spec) 29" using assms by (auto simp: bit_cloneFlagsFor)
  have "only (\<lambda>c. c \<noteq> Setns fd CLONE_NEWPID) (joinNamespaces K spec)"
    by (rule only_joinNamespaces) (use clone_pid_distinct in auto)
  then show "Setns fd CLONE_NEWPID \<notin> set (made (joinNamespaces K spec) h)"
    by (auto dest: only_made)
qed

section \<open>Mounts and the root\<close>

definition oci_table :: "(string \<times> mflags) list" where
  "oci_table = [(''ro'', msRdonly), (''nosuid'', msNosuid), (''nodev'', msNodev), (''noexec'', msNoexec), (''bind'', msBind),
     (''rbind'', msBind OR msRec), (''relatime'', msRelatime), (''strictatime'', msStrictatime), (''remount'', msRemount)]"

definition oci_sets :: "string \<Rightarrow> mflags" where
  "oci_sets w = (case map_of oci_table w of Some f \<Rightarrow> f | None \<Rightarrow> 0)"

definition oci_data :: "string \<Rightarrow> bool" where
  "oci_data w \<longleftrightarrow> map_of oci_table w = None"

interpretation oci: option_words mount_option oci_sets "\<lambda>_. 0" oci_data
proof
  fix w f d
  show "mount_option w (f, d) = ((f AND NOT 0) OR oci_sets w, if oci_data w then d @ [w] else d)"
    unfolding mount_option_def oci_sets_def oci_data_def oci_table_def by simp
qed

lemma oci_applet_agree:
  assumes "\<not> oci_data w"
  shows "flag_sets w = oci_sets w" "flag_clears w = 0" "\<not> data_word w"
  using assms
  by (auto simp: oci_data_def oci_table_def oci_sets_def flag_sets_def flag_clears_def data_word_def flag_table_def
      split: if_splits)

lemma oci_fold_bit: "bit (fst (fold mount_option ws (f, d))) n \<longleftrightarrow> bit f n \<or> (\<exists>w \<in> set ws. bit (oci_sets w) n)"
  by (induction ws arbitrary: f d) (auto simp: oci.step_law bit_simps)

text \<open>A flag is set exactly when some option word asks for it,
  the other words are passed on in order as data, and on the words that the runtime knows as flags
  it agrees with the option parser of the mount command.\<close>

lemma mountOptions_spec:
  "(bit (fst (mountOptions opts)) n \<longleftrightarrow> (\<exists>w \<in> set opts. bit (oci_sets w) n))
   \<and> snd (mountOptions opts) = join_with '','' (filter oci_data opts)
   \<and> fst (mountOptions (filter (\<lambda>w. \<not> oci_data w) opts)) =
       fst (fold apply_mount_opt (filter (\<lambda>w. \<not> oci_data w) opts) (0, []))"
proof -
  have a: "fst (fold mount_option ws (f, d)) = fst (fold apply_mount_opt ws (f, d))"
    if "\<forall>w \<in> set ws. \<not> oci_data w" for ws f d
    using that
    by (induction ws arbitrary: f d) (auto simp: oci.step_law applet.step_law oci_applet_agree)
  have "snd (fold mount_option opts (0, [])) = [] @ filter oci_data opts" by (rule oci.fold_data)
  then show ?thesis using oci_fold_bit [of opts 0 "[]" n] a [of "filter (\<lambda>w. \<not> oci_data w) opts" 0 "[]"]
    by (auto simp: mountOptions_def split: prod.splits)
qed


definition spec_mount_calls :: "string \<Rightarrow> ociMount \<Rightarrow> call list" where
  "spec_mount_calls rootfs m =
     [MkdirAll (path_join [rootfs, mo_Destination m]),
      Mount (if mo_Source m = [] then mo_Type m else mo_Source m) (path_join [rootfs, mo_Destination m]) (mo_Type m)
        (fst (mountOptions (mo_Options m))) (snd (mountOptions (mo_Options m)))]"

lemma grows_spec_mount [only_intros]: "grows (spec_mount K rootfs m)"
  unfolding spec_mount_def Let_def by (auto intro!: only_intros split: prod.splits)

lemma made_spec_mount: "made (spec_mount K rootfs m) h = spec_mount_calls rootfs m"
  by (simp add: spec_mount_def spec_mount_calls_def made_def events_def Let_def split: prod.splits)

lemma made_spec_mounts:
  "made (State_Monad.traverse_list (spec_mount K rootfs) ms) h = concat (map (spec_mount_calls rootfs) ms)"
proof (induction ms arbitrary: h)
  case Nil
  then show ?case by simp
next
  case (Cons m ms)
  have "made (State_Monad.traverse_list (spec_mount K rootfs) (m # ms)) h =
      made (spec_mount K rootfs m) h @ made (State_Monad.traverse_list (spec_mount K rootfs) ms) (after (spec_mount K rootfs m) h)"
    by (rule made_traverse_Cons [where P = "\<lambda>_. True"]) (rule grows_spec_mount)
  then show ?case using Cons by (simp add: made_spec_mount del: State_Monad.traverse_list.simps)
qed

lemma grows_enter_root [only_intros]: "grows (enter_root K rootfs)"
  unfolding enter_root_def Let_def by (auto intro!: only_intros split: res.splits)

lemma enter_root_confines:
  assumes "result (enter_root K rootfs) h = Ok ()"
  shows "\<exists>c r r'. (c, r) \<in> set (events (enter_root K rootfs) h)
    \<and> c \<in> {PivotRoot rootfs (path_join [rootfs, ''.oldroot'']), Chroot rootfs} \<and> as_unit r = Ok ()
    \<and> (Chdir ''/'', r') \<in> set (events (enter_root K rootfs) h) \<and> as_unit r' = Ok ()"
proof -
  define old where "old = path_join [rootfs, ''.oldroot'']"
  let ?pv = "PivotRoot rootfs old"
  let ?h1 = "h @ [(MkdirAll old, K h (MkdirAll old))]"
  let ?h2 = "?h1 @ [(?pv, K ?h1 ?pv)]"
  let ?h3 = "?h2 @ [(Chroot rootfs, K ?h2 (Chroot rootfs))]"
  note defs = enter_root_def old_def [symmetric] run_try_io Let_def
  consider "as_unit (K ?h1 ?pv) = Ok ()" | e where "as_unit (K ?h1 ?pv) = Err (Errno e)"
    using as_unit_cases by blast
  then show ?thesis
  proof cases
    case 1
    then have "as_unit (K ?h2 (Chdir ''/'')) = Ok ()"
      using assms by (simp add: defs split: res.splits)
    then show ?thesis using 1 unfolding old_def [symmetric]
      by (intro exI [of _ ?pv] exI [of _ "K ?h1 ?pv"] exI [of _ "K ?h2 (Chdir ''/'')"]) (simp add: defs events_def)
  next
    case 2
    then have "as_unit (K ?h2 (Chroot rootfs)) = Ok ()"
      using assms by (auto simp: defs split: res.splits)
    moreover from this have "as_unit (K ?h3 (Chdir ''/'')) = Ok ()"
      using assms 2 by (auto simp: defs split: res.splits)
    ultimately show ?thesis using 2 unfolding old_def [symmetric]
      by (intro exI [of _ "Chroot rootfs"] exI [of _ "K ?h2 (Chroot rootfs)"] exI [of _ "K ?h3 (Chdir ''/'')"])
         (simp add: defs events_def)
  qed
qed

text \<open>C25 (entering the root): setting up the root filesystem makes all mounts private, binds the root
  onto itself, performs every mount of the specification in order under the root, and succeeds only
  after a \<open>pivot_root\<close> or a \<open>chroot\<close> to that root has succeeded and the working directory is its top.\<close>

theorem setupRootfs_confines:
  assumes "result (setupRootfs K rootfs spec) h = Ok ()"
  shows "\<exists>tail. made (setupRootfs K rootfs spec) h =
        [Mount [] ''/'' [] (msRec OR msPrivate) [], Mount rootfs rootfs [] (msBind OR msRec) []]
        @ concat (map (spec_mount_calls rootfs) (sp_Mounts spec)) @ calls tail
    \<and> (\<exists>c r r'. (c, r) \<in> set tail \<and> c \<in> {PivotRoot rootfs (path_join [rootfs, ''.oldroot'']), Chroot rootfs}
         \<and> as_unit r = Ok () \<and> (Chdir ''/'', r') \<in> set tail \<and> as_unit r' = Ok ())"
proof -
  let ?m1 = "Mount [] ''/'' [] (msRec OR msPrivate) []"
  let ?m2 = "Mount rootfs rootfs [] (msBind OR msRec) []"
  let ?t = "State_Monad.traverse_list (spec_mount K rootfs) (sp_Mounts spec)"
  let ?rest = "State_Monad.bind ?t (\<lambda>_. enter_root K rootfs)"
  let ?h1 = "h @ [(?m1, K h ?m1)]"
  let ?h2 = "?h1 @ [(?m2, K ?h1 ?m2)]"
  have g: "grows ?t" "grows ?rest" by (auto intro!: only_intros)
  have ok: "as_unit (K h ?m1) = Ok ()" "as_unit (K ?h1 ?m2) = Ok ()" "result ?rest ?h2 = Ok ()"
    using assms by (auto simp: setupRootfs_def result_try_Ok)
  have ev: "events (setupRootfs K rootfs spec) h = (?m1, K h ?m1) # (?m2, K ?h1 ?m2) # events ?rest ?h2"
    using ok g by (simp add: setupRootfs_def events_try_Ok only_intros del: run_wrap_io)
  have rest: "events ?rest ?h2 = events ?t ?h2 @ events (enter_root K rootfs) (after ?t ?h2)"
    using g by (simp add: events_bind_grows only_intros)
  have "result (enter_root K rootfs) (after ?t ?h2) = Ok ()" using ok(3) unfolding result_bind .
  from enter_root_confines [OF this] show ?thesis
    unfolding made_def ev rest
    using made_spec_mounts [of K rootfs "sp_Mounts spec" ?h2]
    by (intro exI [of _ "events (enter_root K rootfs) (after ?t ?h2)"] conjI) (simp add: made_def)
qed

theorem setupRootfs_confines_witness:
  "\<exists>tail. made (setupRootfs (\<lambda>h c. RUnit) ''/r'' spec0) [] =
        [Mount [] ''/'' [] (msRec OR msPrivate) [], Mount ''/r'' ''/r'' [] (msBind OR msRec) []] @ calls tail
    \<and> (\<exists>c r. (c, r) \<in> set tail \<and> c \<in> {PivotRoot ''/r'' (path_join [''/r'', ''.oldroot'']), Chroot ''/r''} \<and> as_unit r = Ok ())"
proof -
  have "result (setupRootfs (\<lambda>h c. RUnit) ''/r'' spec0) [] = Ok ()"
    by (simp add: setupRootfs_def run_try_io spec0_def enter_root_def Let_def)
  from setupRootfs_confines [OF this] show ?thesis by (auto simp: spec0_def)
qed


section \<open>The handshake of create and start\<close>

definition no_exec :: "call \<Rightarrow> bool" where
  "no_exec c \<longleftrightarrow> (case c of ExecImage p a e \<Rightarrow> False | _ \<Rightarrow> True)"

lemma no_exec_simps [simp]:
  "no_exec (OpenFile p f)" "no_exec (Setns fd m)" "no_exec (CloseFd fd)" "no_exec (ReadFile p)" "no_exec (MkdirAll p)"
  "no_exec (Mount s t y m d)" "no_exec (Chdir p)" "no_exec (Chroot p)" "no_exec (PivotRoot p q)" "no_exec (Unmount p m)"
  "no_exec (Remove p)" "no_exec (WriteFd fd s)" "no_exec (Sethostname s)" "\<not> no_exec (ExecImage p a e)"
  by (simp_all add: no_exec_def)

lemma only_readSpec [only_intros]: "(\<And>p. P (ReadFile p)) \<Longrightarrow> only P (readSpec K bundle)"
  unfolding readSpec_def by (intro only_intros) auto

lemma no_exec_setupRootfs: "only no_exec (setupRootfs K rootfs spec)"
  unfolding setupRootfs_def enter_root_def spec_mount_def Let_def
  by (auto intro!: only_intros split: res.splits prod.splits)

lemma no_exec_await_start: "only no_exec (await_start K fd)"
  unfolding await_start_def by (auto intro!: only_intros)

lemma grows_resolveInRootPath [only_intros]: "grows (resolveInRootPath K argv0 env)"
proof -
  have "grows (search_dirs K argv0 ds)" for ds
    by (induction ds) (auto intro!: only_intros simp: Let_def)
  then show ?thesis by (auto simp: resolveInRootPath_def Let_def intro!: only_intros)
qed

lemma grows_exec_user [only_intros]: "grows (exec_user K spec)"
  unfolding exec_user_def by (auto intro!: only_intros split: option.splits list.splits)

lemma only_or_exit1 [only_intros]: "only P m \<Longrightarrow> (\<And>a. only P (f a)) \<Longrightarrow> only P (or_exit1 m f)"
  unfolding or_exit1_def by (auto intro!: only_intros split: res.splits)

text \<open>An event that \<open>m\<close> cannot make is made by what follows \<open>m\<close>, and only if \<open>m\<close> succeeded.\<close>

lemma or_exit1_reach:
  assumes "e \<in> set (events (or_exit1 m f) h)" "only P m" "\<not> P (fst e)" "\<And>a. grows (f a)"
  obtains a where "result m h = Ok a" "events (or_exit1 m f) h = events m h @ events (f a) (after m h)"
    "e \<in> set (events (f a) (after m h))"
proof -
  have g: "grows m" using assms(2) by (rule only_mono) simp
  have ne: "e \<notin> set (events m h)"
    using only_made [OF assms(2), of "fst e" h] assms(3) by (auto simp: made_def calls_def)
  let ?k = "\<lambda>r. case r of Ok a \<Rightarrow> f a | Err e \<Rightarrow> ok_io 1 | Panic \<Rightarrow> State_Monad.return Panic | Hang \<Rightarrow> State_Monad.return Hang"
  have gk: "grows (?k (result m h))" using assms(4) by (auto intro!: only_intros split: res.splits)
  have ev: "events (or_exit1 m f) h = events m h @ events (?k (result m h)) (after m h)"
    unfolding or_exit1_def by (rule events_bind_grows [where m = m and f = ?k and h = h, OF g gk])
  then have "e \<in> set (events (?k (result m h)) (after m h))" using assms(1) ne by auto
  then show ?thesis using that ev by (cases "result m h") auto
qed

lemma await_start_Ok:
  assumes "result (await_start K fd) h = Ok ()"
  shows "\<exists>wf r. (OpenFile (self_fd fd) O_WRONLY, RInt wf) \<in> set (events (await_start K fd) h)
    \<and> (WriteFd wf [CHR 0x00], r) \<in> set (events (await_start K fd) h) \<and> as_unit r = Ok ()"
proof -
  let ?o = "OpenFile (self_fd fd) O_WRONLY"
  note defs = await_start_def run_try_io
  obtain wf where wf: "K h ?o = RInt wf"
    using assms by (cases "K h ?o") (auto simp: defs)
  let ?h1 = "h @ [(?o, RInt wf)]"
  have "as_unit (K ?h1 (WriteFd wf [CHR 0x00])) = Ok ()"
    using assms by (auto simp: defs wf split: res.splits)
  then show ?thesis using wf
    by (intro exI [of _ wf] exI [of _ "K ?h1 (WriteFd wf [CHR 0x00])"]) (auto simp: defs events_def)
qed

lemma no_exec_events: "only no_exec m \<Longrightarrow> list_all no_exec (calls (events m h))"
  using only_made [of no_exec m] by (auto simp: made_def list_all_iff)

lemma grows_init_exec: "grows (or_exit1 (await_start K fd) (\<lambda>_. exec_user K spec))"
  by (intro only_intros only_mono [OF no_exec_await_start]) auto

lemma grows_init_enter: "grows (init_enter K bundle spec fd)"
  unfolding init_enter_def
  by (rule only_or_exit1 [OF only_mono [OF no_exec_setupRootfs] grows_init_exec]) simp

lemma init_enter_waits:
  assumes "(ExecImage path argv envv, r) \<in> set (events (init_enter K bundle spec fd) h)"
  shows "\<exists>pre post wf w. events (init_enter K bundle spec fd) h = pre @ post \<and> list_all no_exec (calls pre)
    \<and> (ExecImage path argv envv, r) \<in> set post
    \<and> set (events (setupRootfs K (rootfs_of bundle spec) spec) h) \<subseteq> set pre
    \<and> result (setupRootfs K (rootfs_of bundle spec) spec) h = Ok ()
    \<and> (OpenFile (self_fd fd) O_WRONLY, RInt wf) \<in> set pre
    \<and> (WriteFd wf [CHR 0x00], w) \<in> set pre \<and> as_unit w = Ok ()"
proof -
  let ?e = "(ExecImage path argv envv, r)"
  let ?su = "setupRootfs K (rootfs_of bundle spec) spec"
  let ?f = "or_exit1 (await_start K fd) (\<lambda>_. exec_user K spec)"
  have ne: "\<not> no_exec (fst ?e)" by simp
  obtain v :: unit where s1: "result ?su h = Ok v"
    "events (init_enter K bundle spec fd) h = events ?su h @ events ?f (after ?su h)"
    "?e \<in> set (events ?f (after ?su h))"
    by (rule or_exit1_reach [OF assms [unfolded init_enter_def] no_exec_setupRootfs ne grows_init_exec])
       (simp add: init_enter_def)
  let ?h = "after ?su h"
  obtain w :: unit where s2: "result (await_start K fd) ?h = Ok w"
    "events ?f ?h = events (await_start K fd) ?h @ events (exec_user K spec) (after (await_start K fd) ?h)"
    "?e \<in> set (events (exec_user K spec) (after (await_start K fd) ?h))"
    by (rule or_exit1_reach [OF s1(3) no_exec_await_start ne grows_exec_user])
  have "result (await_start K fd) ?h = Ok ()" using s2(1) by simp
  from await_start_Ok [OF this] obtain wf x where
    x: "(OpenFile (self_fd fd) O_WRONLY, RInt wf) \<in> set (events (await_start K fd) ?h)"
    "(WriteFd wf [CHR 0x00], x) \<in> set (events (await_start K fd) ?h)" "as_unit x = Ok ()" by blast
  let ?pre = "events ?su h @ events (await_start K fd) ?h"
  have p: "list_all no_exec (calls ?pre)"
    using no_exec_events [OF no_exec_setupRootfs] no_exec_events [OF no_exec_await_start] by simp
  have e: "events (init_enter K bundle spec fd) h = ?pre @ events (exec_user K spec) (after (await_start K fd) ?h)"
    unfolding s1(2) s2(2) by simp
  show ?thesis
    by (rule exI [of _ ?pre], rule exI [of _ "events (exec_user K spec) (after (await_start K fd) ?h)"],
        rule exI [of _ wf], rule exI [of _ x]) (use p e s1(1) s2(3) x in simp)
qed

text \<open>Nothing is executed before \<open>init_enter\<close>, which gets the descriptor of the container's \<open>exec.fifo\<close>.\<close>

lemma runcInit_enters:
  assumes "(ExecImage path argv envv, r) \<in> set (events (runcInit K root cid bundle) h)"
  obtains pre spec fd h' where "events (runcInit K root cid bundle) h = pre @ events (init_enter K bundle spec fd) h'"
    "list_all no_exec (calls pre)" "(OpenFile (fifo_path root cid) (oPath OR O_CLOEXEC), RInt fd) \<in> set pre"
    "(ExecImage path argv envv, r) \<in> set (events (init_enter K bundle spec fd) h')"
proof -
  let ?e = "(ExecImage path argv envv, r)"
  let ?of = "OpenFile (fifo_path root cid) (oPath OR O_CLOEXEC)"
  have ne: "\<not> no_exec (fst ?e)" by simp
  let ?f2 = "\<lambda>spec fd. State_Monad.bind (set_hostname K spec) (\<lambda>_. init_enter K bundle spec fd)"
  let ?f1 = "\<lambda>spec. or_exit1 (os_int K ?of) (?f2 spec)"
  let ?f0 = "\<lambda>spec. or_exit1 (joinNamespaces K spec) (\<lambda>_. ?f1 spec)"
  have hn: "only no_exec (set_hostname K spec)" for spec by (auto simp: set_hostname_def intro!: only_intros)
  have j: "only no_exec (joinNamespaces K spec)" for spec by (rule only_joinNamespaces) simp_all
  have rs: "only no_exec (readSpec K bundle)" and op: "only no_exec (os_int K ?of)" by (intro only_intros; simp)+
  have g2: "grows (?f2 spec fd)" for spec fd by (rule only_bind [OF only_mono [OF hn] grows_init_enter]) simp
  have g1: "grows (?f1 spec)" for spec by (rule only_or_exit1 [OF only_mono [OF op] g2]) simp
  have g0: "grows (?f0 spec)" for spec by (rule only_or_exit1 [OF only_mono [OF j] g1]) simp
  obtain spec where s0: "events (runcInit K root cid bundle) h = events (readSpec K bundle) h @ events (?f0 spec) (after (readSpec K bundle) h)"
    "?e \<in> set (events (?f0 spec) (after (readSpec K bundle) h))"
    by (rule or_exit1_reach [OF assms [unfolded runcInit_def] rs ne g0]) (simp add: runcInit_def)
  let ?h0 = "after (readSpec K bundle) h"
  obtain u where s1: "events (?f0 spec) ?h0 = events (joinNamespaces K spec) ?h0 @ events (?f1 spec) (after (joinNamespaces K spec) ?h0)"
    "?e \<in> set (events (?f1 spec) (after (joinNamespaces K spec) ?h0))"
    by (rule or_exit1_reach [OF s0(2) j ne g1])
  let ?h1 = "after (joinNamespaces K spec) ?h0"
  obtain fd where s2: "result (os_int K ?of) ?h1 = Ok fd"
    "events (?f1 spec) ?h1 = events (os_int K ?of) ?h1 @ events (?f2 spec fd) (after (os_int K ?of) ?h1)"
    "?e \<in> set (events (?f2 spec fd) (after (os_int K ?of) ?h1))"
    by (rule or_exit1_reach [OF s1(2) op ne g2])
  let ?h2 = "after (os_int K ?of) ?h1"
  have s3: "events (?f2 spec fd) ?h2 = events (set_hostname K spec) ?h2 @ events (init_enter K bundle spec fd) (after (set_hostname K spec) ?h2)"
    by (rule events_bind_grows [OF only_mono [OF hn] grows_init_enter]) simp
  let ?p = "events (readSpec K bundle) h @ events (joinNamespaces K spec) ?h0 @ events (os_int K ?of) ?h1 @ events (set_hostname K spec) ?h2"
  have o: "K ?h1 ?of = RInt fd" using s2(1) by (cases "K ?h1 ?of") auto
  have p: "list_all no_exec (calls ?p)" using no_exec_events [OF rs] no_exec_events [OF j] no_exec_events [OF hn] by simp
  have "?e \<notin> set (events (set_hostname K spec) ?h2)"
    using no_exec_events [OF hn, of spec ?h2] by (auto simp: list_all_iff calls_def)
  then have enter: "?e \<in> set (events (init_enter K bundle spec fd) (after (set_hostname K spec) ?h2))" using s2(3) s3 by auto
  have "events (runcInit K root cid bundle) h = ?p @ events (init_enter K bundle spec fd) (after (set_hostname K spec) ?h2)"
    unfolding s0(1) s1(1) s2(2) s3 append_assoc ..
  moreover have "(?of, RInt fd) \<in> set ?p" using o by simp
  ultimately show thesis using p enter by (intro that)
qed

text \<open>C1 (the user process waits for start): the container init executes the user process only after
  the root filesystem has been entered and after a byte has been written to the container's
  \<open>exec.fifo\<close>, which blocks until \<open>start\<close> opens it; before that, it executes nothing.\<close>

theorem runcInit_waits:
  assumes "(ExecImage path argv envv, r) \<in> set (events (runcInit K root cid bundle) h)"
  shows "\<exists>pre post fd wf w spec hs.
      events (runcInit K root cid bundle) h = pre @ post \<and> list_all no_exec (calls pre)
    \<and> (ExecImage path argv envv, r) \<in> set post
    \<and> (OpenFile (fifo_path root cid) (oPath OR O_CLOEXEC), RInt fd) \<in> set pre
    \<and> set (events (setupRootfs K (rootfs_of bundle spec) spec) hs) \<subseteq> set pre
    \<and> result (setupRootfs K (rootfs_of bundle spec) spec) hs = Ok ()
    \<and> (OpenFile (self_fd fd) O_WRONLY, RInt wf) \<in> set pre
    \<and> (WriteFd wf [CHR 0x00], w) \<in> set pre \<and> as_unit w = Ok ()"
proof -
  obtain pre0 spec fd h' where e: "events (runcInit K root cid bundle) h = pre0 @ events (init_enter K bundle spec fd) h'"
    "list_all no_exec (calls pre0)" "(OpenFile (fifo_path root cid) (oPath OR O_CLOEXEC), RInt fd) \<in> set pre0"
    "(ExecImage path argv envv, r) \<in> set (events (init_enter K bundle spec fd) h')"
    by (rule runcInit_enters [OF assms])
  from init_enter_waits [OF e(4)] obtain pre post wf w where
    w: "events (init_enter K bundle spec fd) h' = pre @ post" "list_all no_exec (calls pre)" "(ExecImage path argv envv, r) \<in> set post"
      "set (events (setupRootfs K (rootfs_of bundle spec) spec) h') \<subseteq> set pre"
      "result (setupRootfs K (rootfs_of bundle spec) spec) h' = Ok ()"
      "(OpenFile (self_fd fd) O_WRONLY, RInt wf) \<in> set pre" "(WriteFd wf [CHR 0x00], w) \<in> set pre" "as_unit w = Ok ()"
    by blast
  show ?thesis
    by (rule exI [of _ "pre0 @ pre"], rule exI [of _ post], rule exI [of _ fd], rule exI [of _ wf], rule exI [of _ w],
        rule exI [of _ spec], rule exI [of _ h']) (use e w in auto)
qed

text \<open>A kernel that holds a minimal specification and grants every other call.\<close>

definition sample_config :: json where
  "sample_config = JObj [(''process'', JObj [(''args'', JArr [JStr ''/bin/sh''])])]"

definition granting :: kernel where
  "granting h c = (case c of ReadFile p \<Rightarrow> RData (json_print sample_config) | _ \<Rightarrow> RInt 3)"

definition sample_spec :: ociSpec where
  "sample_spec = spec0\<lparr>sp_Process := Some (process0\<lparr>pr_Args := [''/bin/sh'']\<rparr>),
     sp_Root := Some \<lparr>rt_Path = ''rootfs'', rt_Readonly = False\<rparr>\<rparr>"

lemma sample_config_decodes:
  "json_unmarshal dec_spec (json_print sample_config) spec0 = Ok (sample_spec\<lparr>sp_Root := None\<rparr>)"
proof -
  have "json_parse (json_print sample_config) = Some sample_config"
    by (rule json_parse_print) (simp add: sample_config_def)
  then show ?thesis
    by (simp add: json_unmarshal_def dec_spec_def dec_process_def dec_struct_def sample_config_def json_field_def spec_field_def
        process_field_def dec_ptr_def dec_list_def dec_string_def spec0_def process0_def sample_spec_def)
qed

lemma readSpec_granting [simp]:
  "run_state (readSpec granting b) h =
     (Ok sample_spec, h @ [(ReadFile (path_join [b, ''config.json'']), RData (json_print sample_config))])"
  by (simp add: readSpec_def run_try_io granting_def sample_config_decodes) (simp add: sample_spec_def)

theorem runcInit_waits_witness:
  "\<exists>pre post. events (runcInit granting ''/run'' ''web'' ''/b'') [] = pre @ post \<and> list_all no_exec (calls pre)
    \<and> (ExecImage ''/bin/sh'' [''/bin/sh''] [], RInt 3) \<in> set post"
proof -
  have "(ExecImage ''/bin/sh'' [''/bin/sh''] [], RInt 3) \<in> set (events (runcInit granting ''/run'' ''web'' ''/b'') [])"
    by (simp add: events_def runcInit_def or_exit1_def joinNamespaces_def set_hostname_def init_enter_def setupRootfs_def
        enter_root_def await_start_def exec_user_def resolveInRootPath_def run_try_io Let_def)
       (simp add: granting_def sample_spec_def spec0_def process0_def run_try_io hasPrefix_def resolveInRootPath_def)
  from runcInit_waits [OF this] show ?thesis by blast
qed

lemma grows_writeState [only_intros]: "grows (writeState K g st)"
  unfolding writeState_def by (intro only_intros) simp

lemma grows_applyCgroup [only_intros]: "grows (applyCgroup K spec cid pid)"
  unfolding applyCgroup_def write_limits_def Let_def
  by (auto intro!: only_intros split: option.splits res.splits)

lemma grows_create_record [only_intros]: "grows (create_record E K g c bundle spec pid)"
  unfolding create_record_def by (auto intro!: only_intros)

lemma create_record_state:
  assumes "result (create_record E K g c bundle spec pid) h = Ok ()"
  shows "\<exists>cg now. WriteFile (state_file g (c_id c)) (json_print (enc_state (created_state E spec (c_id c) bundle pid cg now))) 384
      \<in> set (made (create_record E K g c bundle spec pid) h)"
proof -
  let ?cg = "result (applyCgroup K spec (c_id c) pid) h"
  let ?h1 = "after (applyCgroup K spec (c_id c) pid) h"
  let ?now = "case K ?h1 Now of RInt n \<Rightarrow> n | _ \<Rightarrow> 0"
  let ?h2 = "?h1 @ [(Now, K ?h1 Now)]"
  let ?st = "created_state E spec (c_id c) bundle pid ?cg ?now"
  let ?pf = "if c_pidFile c \<noteq> [] then wrap_io ''write pid-file'' (os_unit K (WriteFile (c_pidFile c) (itoa pid) 420)) else ok_io ()"
  let ?w = "try_io (writeState K g ?st) (\<lambda>_. ?pf)"
  have g: "grows ?pf" "grows ?w" by (auto intro!: only_intros)
  have w: "result ?w ?h2 = Ok ()"
    using assms unfolding create_record_def result_bind by (simp add: os_now_def)
  then have "result (writeState K g ?st) ?h2 = Ok ()" unfolding result_try_Ok by auto
  then have "events ?w ?h2 = events (writeState K g ?st) ?h2 @ events ?pf (after (writeState K g ?st) ?h2)"
    using g by (intro events_try_Ok grows_writeState)
  moreover have "events (create_record E K g c bundle spec pid) h =
      events (applyCgroup K spec (c_id c) pid) h @ [(Now, K ?h1 Now)] @ events ?w ?h2"
    unfolding create_record_def
    by (subst events_bind_grows, auto intro!: only_intros)+
  ultimately show ?thesis
    by (intro exI [of _ ?cg] exI [of _ ?now]) (simp add: made_def writeState_def created_state_def)
qed

lemma grows_create_fork [only_intros]: "grows (create_fork E K g c bundle spec)"
  unfolding create_fork_def by (auto intro!: only_intros)

lemma create_fork_records:
  assumes "result (create_fork E K g c bundle spec) h = Ok ()"
  shows "\<exists>pid cg now pre post r.
      events (create_fork E K g c bundle spec) h = pre @ (StartProcess (init_process E g (c_id c) bundle spec), RInt pid) # post
    \<and> (Mkfifo (fifo_path (g_root g) (c_id c)), r) \<in> set pre \<and> as_unit r = Ok ()
    \<and> WriteFile (state_file g (c_id c)) (json_print (enc_state (created_state E spec (c_id c) bundle pid cg now))) 384
        \<in> set (calls post)"
proof -
  let ?d = "MkdirAll (path_join [g_root g, c_id c])" and ?rm = "Remove (fifo_path (g_root g) (c_id c))"
    and ?mk = "Mkfifo (fifo_path (g_root g) (c_id c))" and ?st = "StartProcess (init_process E g (c_id c) bundle spec)"
  let ?h1 = "h @ [(?d, K h ?d)]"
  let ?h2 = "?h1 @ [(?rm, K ?h1 ?rm)]"
  let ?h3 = "?h2 @ [(?mk, K ?h2 ?mk)]"
  let ?h4 = "?h3 @ [(?st, K ?h3 ?st)]"
  obtain pid where ok: "as_unit (K h ?d) = Ok ()" "as_unit (K ?h2 ?mk) = Ok ()" "as_int (K ?h3 ?st) = Ok pid"
    "result (create_record E K g c bundle spec pid) ?h4 = Ok ()"
    using assms by (auto simp: create_fork_def result_try_Ok)
  have pid: "K ?h3 ?st = RInt pid" using ok(3) by (cases "K ?h3 ?st") auto
  have e: "events (create_fork E K g c bundle spec) h =
      [(?d, K h ?d), (?rm, K ?h1 ?rm), (?mk, K ?h2 ?mk)] @ (?st, RInt pid) # events (create_record E K g c bundle spec pid) ?h4"
    using ok pid unfolding create_fork_def
    by (simp add: events_try_Ok events_bind_grows only_intros del: run_wrap_io)
  have m: "(?mk, K ?h2 ?mk) \<in> set [(?d, K h ?d), (?rm, K ?h1 ?rm), (?mk, K ?h2 ?mk)]" by simp
  from create_record_state [OF ok(4)] show ?thesis unfolding made_def using e m ok(2) by blast
qed

lemma try_io_return: "try_io (State_Monad.return (Ok a)) f = f a"
  by (simp add: try_io_def)



text \<open>A successful start has read the container's state, opened its \<open>exec.fifo\<close> for reading,
  which releases the waiting init, and last wrote the same state back with the status \<open>running\<close>.\<close>

lemma cmdStart_runs:
  assumes "result (cmdStart K g args) h = Ok ()"
  shows "\<exists>st f body. (ReadFile (state_file g (lastArg args)), RData body) \<in> set (events (cmdStart K g args) h)
    \<and> json_unmarshal dec_state body state0 = Ok st
    \<and> (OpenFile (fifo_path (g_root g) (lastArg args)) O_RDONLY, RInt f) \<in> set (events (cmdStart K g args) h)
    \<and> last (made (cmdStart K g args) h) =
        WriteFile (state_file g (cs_ID st)) (json_print (enc_state (st\<lparr>cs_Status := ''running''\<rparr>))) 384"
proof -
  let ?c = "lastArg args"
  let ?rd = "ReadFile (state_file g ?c)" and ?op = "OpenFile (fifo_path (g_root g) ?c) O_RDONLY"
  obtain body where body: "K h ?rd = RData body"
    using assms by (cases "K h ?rd") (auto simp: cmdStart_def readState_def run_try_io Let_def)
  obtain st where st: "json_unmarshal dec_state body state0 = Ok st"
    using assms body by (auto simp: cmdStart_def readState_def Let_def result_try_Ok)
  let ?h = "h @ [(?rd, RData body)]"
  obtain f where f: "K ?h ?op = RInt f"
    using assms body st by (cases "K ?h ?op") (auto simp: cmdStart_def readState_def Let_def run_try_io)
  show ?thesis
    by (rule exI [of _ st], rule exI [of _ f], rule exI [of _ body])
       (simp add: st cmdStart_def readState_def Let_def run_try_io body f events_def made_def writeState_def)
qed

lemma sample_state_decodes: "json_unmarshal dec_state (json_print (enc_state sample_state)) state0 = Ok sample_state"
proof -
  have "json_parse (json_print (enc_state sample_state)) = Some (enc_state sample_state)"
    by (rule json_parse_print) (simp add: enc_state_def sample_state_def atoi_itoa)
  then show ?thesis
    by (simp add: json_unmarshal_def dec_state_def dec_struct_def enc_state_def json_field_def state_names_def
        state_field_str state_field_pid sample_state_def state0_def)
qed


section \<open>Signals, kill and delete\<close>

lemma upper_digit: "is_digit c \<Longrightarrow> upper_char c = c"
  by (auto simp: is_digit_def upper_char_def)

lemma toUpper_itoa: "toUpper (itoa n) = itoa n"
proof -
  have "map upper_char (nat_digits k) = nat_digits k" for k
    using nat_digits_all [of k] by (auto simp: list_all_iff upper_digit intro!: map_idI)
  then show ?thesis by (simp add: toUpper_def itoa_def upper_char_def)
qed

lemma trimPrefix_itoa: "trimPrefix (itoa n) ''SIG'' = itoa n"
proof -
  obtain x xs where x: "itoa n = x # xs" "x = CHR ''-'' \<or> is_digit x" using itoa_hd by blast
  then have "x \<noteq> CHR ''S''" by (auto simp: is_digit_def)
  then show ?thesis by (simp add: trimPrefix_def hasPrefix_def x)
qed

text \<open>A signal given by its number is sent as that number.\<close>

lemma parseSignal_number:
  assumes "- (2 ^ 63) \<le> n" and "n < 2 ^ 63"
  shows "parseSignal (itoa n) = n"
proof -
  have a: "atoi (itoa n) = Some n" by (rule atoi_itoa [OF assms])
  have "n = m" if "itoa n = s" "atoi s = Some m" for s m using a that by simp
  moreover have "itoa n \<noteq> []" using itoa_hd [of n] by auto
  moreover have "atoi ''15'' = Some 15" "atoi ''9'' = Some 9" "atoi ''2'' = Some 2" "atoi ''1'' = Some 1"
    "atoi ''3'' = Some 3" "atoi ''10'' = Some 10"
    by (simp_all add: atoi_def atoi_digits_def is_digit_def digits_val_def digit_val_def)
  moreover have "atoi s = None" if "s \<in> {''TERM'', ''KILL'', ''INT'', ''HUP'', ''QUIT'', ''USR1''}" for s
    using that by (auto simp: atoi_def atoi_digits_def is_digit_def)
  ultimately have "named_signal (itoa n) = None \<or> named_signal (itoa n) = Some n"
    using a by (auto simp: named_signal_def sig_defs)
  then show ?thesis using a by (auto simp: parseSignal_def toUpper_itoa trimPrefix_itoa Let_def)
qed


text \<open>C28 (delete): deleting an unknown container succeeds without touching anything; otherwise the last
  call removes the container's state directory and decides the result, and a process is killed only
  when asked for with \<open>--force\<close> and only the recorded one.\<close>

theorem cmdDelete_spec:
  "let force = fst (fold delete_arg args (False, [])); cid = snd (fold delete_arg args (False, []))
   in case result (readState K g cid) h of
        Ok st \<Rightarrow> last (made (cmdDelete K g args) h) = RemoveAll (path_join [g_root g, cid])
               \<and> (Kill p SIGKILL \<in> set (made (cmdDelete K g args) h)) =
                   (force \<and> 0 < cs_InitPid st \<and> p = cs_InitPid st
                    \<and> as_unit (K (after (readState K g cid) h) (Kill p 0)) = Ok ())
      | Err e \<Rightarrow> made (cmdDelete K g args) h = [ReadFile (state_file g cid)] \<and> result (cmdDelete K g args) h = Ok ()
      | r \<Rightarrow> False"
proof -
  obtain force cid where fc: "fold delete_arg args (False, []) = (force, cid)" by force
  have ok: "is_ok (as_unit r) \<longleftrightarrow> as_unit r = Ok ()" for r by (cases r) auto
  let ?r = "K h (ReadFile (state_file g cid))"
  show ?thesis unfolding Let_def fc fst_conv snd_conv
    by (cases ?r; cases "json_unmarshal dec_state (case ?r of RData b \<Rightarrow> b | _ \<Rightarrow> []) state0")
       (auto simp: cmdDelete_def fc readState_def made_def events_def pidAlive_def ok SIGKILL_def state_unmarshal_returns)
qed


section \<open>Resource limits and command lines\<close>

definition limit_writes :: "string \<Rightarrow> ociResources option \<Rightarrow> call list" where
  "limit_writes cg r = (case r of
       None \<Rightarrow> []
     | Some r \<Rightarrow>
         (case memory_limit r of Some n \<Rightarrow> [WriteFile (path_join [cg, ''memory.max'']) (itoa n) 420] | None \<Rightarrow> []) @
         (case cpu_limit r of Some (q, p) \<Rightarrow> [WriteFile (path_join [cg, ''cpu.max'']) (itoa q @ '' '' @ itoa p) 420] | None \<Rightarrow> []))"

lemma grows_write_limits [only_intros]: "grows (write_limits K cg r)"
  unfolding write_limits_def by (auto intro!: only_intros split: option.splits)

lemma made_write_limits: "made (write_limits K cg r) h = limit_writes cg r"
  by (auto simp: write_limits_def limit_writes_def made_def events_def split: option.splits)

text \<open>C29 (limits before membership): when the control group can be created, the memory and CPU limits
  that are set in the specification are written to it first, and only then the process is moved
  into it; when it cannot, nothing is written and the recorded path is empty.\<close>

theorem applyCgroup_limits_first:
  "case sp_Linux spec of
     None \<Rightarrow> made (applyCgroup K spec cid pid) h = [] \<and> result (applyCgroup K spec cid pid) h = []
   | Some l \<Rightarrow>
       let cg = cgroup_dir l cid in
       if as_unit (K h (MkdirAll cg)) = Ok ()
       then made (applyCgroup K spec cid pid) h =
              MkdirAll cg # limit_writes cg (li_Resources l) @ [WriteFile (path_join [cg, ''cgroup.procs'']) (itoa pid) 420]
          \<and> result (applyCgroup K spec cid pid) h = cg
       else made (applyCgroup K spec cid pid) h = [MkdirAll cg] \<and> result (applyCgroup K spec cid pid) h = []"
proof (cases "sp_Linux spec")
  case None
  then show ?thesis by (simp add: applyCgroup_def)
next
  case (Some l)
  let ?cg = "cgroup_dir l cid"
  let ?w = "os_ignore K (WriteFile (path_join [?cg, ''cgroup.procs'']) (itoa pid) 420)"
  let ?lim = "write_limits K ?cg (li_Resources l)"
  let ?k = "State_Monad.bind ?lim (\<lambda>_. State_Monad.bind ?w (\<lambda>_. State_Monad.return ?cg))"
  let ?h1 = "h @ [(MkdirAll ?cg, K h (MkdirAll ?cg))]"
  have k: "events ?k ?h1 = events ?lim ?h1 @ events (State_Monad.bind ?w (\<lambda>_. State_Monad.return ?cg)) (after ?lim ?h1)"
    by (rule events_bind_grows) (intro only_intros; simp)+
  have mk: "made ?k ?h1 = limit_writes ?cg (li_Resources l) @ [WriteFile (path_join [?cg, ''cgroup.procs'']) (itoa pid) 420]"
    unfolding made_def k using made_write_limits [of K ?cg "li_Resources l" ?h1]
    by (simp add: made_def events_bind_grows only_intros)
  have gk: "grows ?k" by (intro only_intros) auto
  have rk: "result ?k ?h1 = ?cg" by (simp add: result_bind split: prod.splits)
  obtain e where e: "as_unit (K h (MkdirAll ?cg)) = Ok () \<or> as_unit (K h (MkdirAll ?cg)) = Err (Errno e)"
    using as_unit_cases by blast
  let ?m = "applyCgroup K spec cid pid"
  have run: "?m = State_Monad.bind (os_unit K (MkdirAll ?cg)) (\<lambda>r. case r of Ok _ \<Rightarrow> ?k | _ \<Rightarrow> State_Monad.return [])"
    by (simp add: applyCgroup_def Some Let_def)
  have ev: "made ?m h = MkdirAll ?cg # made (case as_unit (K h (MkdirAll ?cg)) of Ok _ \<Rightarrow> ?k | _ \<Rightarrow> State_Monad.return []) ?h1"
    unfolding run by (subst made_bind [where P = "\<lambda>_. True" and Q = "\<lambda>_. True"])
      (auto intro!: only_intros gk split: res.splits)
  have rs: "result ?m h = result (case as_unit (K h (MkdirAll ?cg)) of Ok _ \<Rightarrow> ?k | _ \<Rightarrow> State_Monad.return []) ?h1"
    unfolding run result_bind by simp
  show ?thesis using e mk rk ev rs by (auto simp: Some Let_def)
qed

text \<open>A step of a command-line loop leaves no more than it was given.\<close>

definition fits :: "nat \<Rightarrow> 'a arg_step \<Rightarrow> bool" where
  "fits n st = (case st of Continue a rest \<Rightarrow> length rest \<le> n | Overrun \<Rightarrow> True)"

lemma fits_simps [simp]:
  "fits n (if b then st else st') = (if b then fits n st else fits n st')"
  "fits n (Continue a rest) = (length rest \<le> n)" "fits n Overrun"
  by (simp_all add: fits_def)

lemma fits_take_value [simp]: "fits (length rest) (take_value u a rest)"
  by (cases rest) (simp_all add: take_value_def)

lemma fits_create_arg: "fits (length xs) (create_arg x xs a)"
  by (simp add: create_arg_def)

lemma arg_loop_returns:
  assumes "\<And>x xs a. fits (length xs) (step x xs a)" and "length xs \<le> n"
  shows "arg_loop n step xs a \<noteq> Hang"
  using assms(2)
proof (induction n arbitrary: xs a)
  case 0
  then show ?case by simp
next
  case (Suc n)
  show ?case
  proof (cases xs)
    case (Cons x ys)
    have "fits (length ys) (step x ys a)" by (rule assms(1))
    then show ?thesis using Cons Suc by (auto simp: fits_def split: arg_step.splits)
  qed simp
qed

lemma take_value_overrun: "take_value u a rest = Overrun \<longleftrightarrow> rest = []"
  by (auto simp: take_value_def split: list.splits)

end
