(* ===== verification/Node.thy ===== *)
theory Node
  imports Service Netlink Json OciRuntime
begin

text \<open>
  The node agent of \<open>node.go\<close> with the tenant adapter of \<open>tenant_adapter_linux.go\<close>: static pod
  manifests, launching a pod's container in its own namespaces and control group, its network and its
  tenant labels. The host-side ping that a veth pod starts in the background only sends a test
  datagram and is modelled apart.
\<close>

section \<open>Pods\<close>

record podResources =
  MemoryMaxMiB :: int
  CPUMaxPercent :: int

record podNetwork =
  PodIP :: string
  HostIP :: string
  Prefix :: int
  Bridge :: string
  GatewayIP :: string
  PeerIP :: string
  ServiceVIP :: string
  ServicePort :: int
  BackendPort :: int
  ServiceRole :: string
  CrossPingIP :: string
  Uplink :: bool
  MasqRole :: string
  MasqTarget :: string
  TenantProbeIP :: string

record podSpec =
  Name :: string
  Hostname :: string
  Command :: "string list"
  Env :: "string list"
  Resources :: podResources
  Network :: "podNetwork option"
  Tenant :: "32 word"

definition network0 :: podNetwork where
  "network0 = \<lparr>PodIP = [], HostIP = [], Prefix = 0, Bridge = [], GatewayIP = [], PeerIP = [], ServiceVIP = [],
     ServicePort = 0, BackendPort = 0, ServiceRole = [], CrossPingIP = [], Uplink = False, MasqRole = [],
     MasqTarget = [], TenantProbeIP = []\<rparr>"

definition pod0 :: podSpec where
  "pod0 = \<lparr>Name = [], Hostname = [], Command = [], Env = [], Resources = \<lparr>MemoryMaxMiB = 0, CPUMaxPercent = 0\<rparr>,
     Network = None, Tenant = 0\<rparr>"

definition bridged :: "podSpec \<Rightarrow> bool" where
  "bridged s = (case Network s of None \<Rightarrow> False | Some n \<Rightarrow> Bridge n \<noteq> [])"

definition containerEnv :: string where "containerEnv = ''ASTERKUBE_CONTAINER''"
definition podHostnameEnv :: string where "podHostnameEnv = ''ASTERKUBE_POD_HOSTNAME''"
definition manifestDir :: string where "manifestDir = ''/etc/asterkube/pods''"
definition podIPEnv :: string where "podIPEnv = ''ASTERKUBE_POD_IP''"
definition hostIPEnv :: string where "hostIPEnv = ''ASTERKUBE_HOST_IP''"
definition vethPrefxEnv :: string where "vethPrefxEnv = ''ASTERKUBE_VETH_PREFIX''"
definition peerIPEnv :: string where "peerIPEnv = ''ASTERKUBE_PEER_IP''"
definition podTenantEnv :: string where "podTenantEnv = ''ASTERKUBE_POD_TENANT''"
definition tenantProbeIPEnv :: string where "tenantProbeIPEnv = ''ASTERKUBE_TENANT_PROBE_IP''"
definition crossPingEnv :: string where "crossPingEnv = ''ASTERKUBE_CROSS_PING''"
definition vethUDPPort :: nat where "vethUDPPort = 9999"

definition setting :: "string \<Rightarrow> string \<Rightarrow> string" where
  "setting var value = var @ ''='' @ value"


section \<open>Manifests\<close>

definition resources_dec :: "string \<Rightarrow> json \<Rightarrow> podResources \<Rightarrow> podResources res" where
  "resources_dec f v r =
     (if f = ''memoryMaxMiB'' then set_res (dec_int64 v (MemoryMaxMiB r)) (\<lambda>x. r\<lparr>MemoryMaxMiB := x\<rparr>)
      else if f = ''cpuMaxPercent'' then set_res (dec_int64 v (CPUMaxPercent r)) (\<lambda>x. r\<lparr>CPUMaxPercent := x\<rparr>)
      else Ok r)"

definition network_dec :: "string \<Rightarrow> json \<Rightarrow> podNetwork \<Rightarrow> podNetwork res" where
  "network_dec f v n =
     (if f = ''podIP'' then set_res (dec_string v (PodIP n)) (\<lambda>x. n\<lparr>PodIP := x\<rparr>)
      else if f = ''hostIP'' then set_res (dec_string v (HostIP n)) (\<lambda>x. n\<lparr>HostIP := x\<rparr>)
      else if f = ''prefix'' then set_res (dec_int64 v (Prefix n)) (\<lambda>x. n\<lparr>Prefix := x\<rparr>)
      else if f = ''bridge'' then set_res (dec_string v (Bridge n)) (\<lambda>x. n\<lparr>Bridge := x\<rparr>)
      else if f = ''gatewayIP'' then set_res (dec_string v (GatewayIP n)) (\<lambda>x. n\<lparr>GatewayIP := x\<rparr>)
      else if f = ''peerIP'' then set_res (dec_string v (PeerIP n)) (\<lambda>x. n\<lparr>PeerIP := x\<rparr>)
      else if f = ''serviceVIP'' then set_res (dec_string v (ServiceVIP n)) (\<lambda>x. n\<lparr>ServiceVIP := x\<rparr>)
      else if f = ''servicePort'' then set_res (dec_int64 v (ServicePort n)) (\<lambda>x. n\<lparr>ServicePort := x\<rparr>)
      else if f = ''backendPort'' then set_res (dec_int64 v (BackendPort n)) (\<lambda>x. n\<lparr>BackendPort := x\<rparr>)
      else if f = ''serviceRole'' then set_res (dec_string v (ServiceRole n)) (\<lambda>x. n\<lparr>ServiceRole := x\<rparr>)
      else if f = ''crossPingIP'' then set_res (dec_string v (CrossPingIP n)) (\<lambda>x. n\<lparr>CrossPingIP := x\<rparr>)
      else if f = ''uplink'' then set_res (dec_bool v (Uplink n)) (\<lambda>x. n\<lparr>Uplink := x\<rparr>)
      else if f = ''masqRole'' then set_res (dec_string v (MasqRole n)) (\<lambda>x. n\<lparr>MasqRole := x\<rparr>)
      else if f = ''masqTarget'' then set_res (dec_string v (MasqTarget n)) (\<lambda>x. n\<lparr>MasqTarget := x\<rparr>)
      else if f = ''tenantProbeIP'' then set_res (dec_string v (TenantProbeIP n)) (\<lambda>x. n\<lparr>TenantProbeIP := x\<rparr>)
      else Ok n)"

definition network_names :: "string list" where
  "network_names = [''podIP'', ''hostIP'', ''prefix'', ''bridge'', ''gatewayIP'', ''peerIP'', ''serviceVIP'', ''servicePort'',
     ''backendPort'', ''serviceRole'', ''crossPingIP'', ''uplink'', ''masqRole'', ''masqTarget'', ''tenantProbeIP'']"

definition pod_dec :: "string \<Rightarrow> json \<Rightarrow> podSpec \<Rightarrow> podSpec res" where
  "pod_dec f v s =
     (if f = ''name'' then set_res (dec_string v (Name s)) (\<lambda>x. s\<lparr>Name := x\<rparr>)
      else if f = ''hostname'' then set_res (dec_string v (Hostname s)) (\<lambda>x. s\<lparr>Hostname := x\<rparr>)
      else if f = ''command'' then set_res (dec_list dec_str v (Command s)) (\<lambda>x. s\<lparr>Command := x\<rparr>)
      else if f = ''env'' then set_res (dec_list dec_str v (Env s)) (\<lambda>x. s\<lparr>Env := x\<rparr>)
      else if f = ''resources'' then
        set_res (dec_struct [''memoryMaxMiB'', ''cpuMaxPercent''] resources_dec v (Resources s)) (\<lambda>x. s\<lparr>Resources := x\<rparr>)
      else if f = ''network'' then
        set_res (dec_ptr (dec_struct network_names network_dec) network0 v (Network s)) (\<lambda>x. s\<lparr>Network := x\<rparr>)
      else if f = ''tenant'' then set_res (dec_range 0 (2 ^ 32) v (uint (Tenant s))) (\<lambda>x. s\<lparr>Tenant := word_of_int x\<rparr>)
      else Ok s)"

definition dec_pod :: "json \<Rightarrow> podSpec \<Rightarrow> podSpec res" where
  "dec_pod = dec_struct [''name'', ''hostname'', ''command'', ''env'', ''resources'', ''network'', ''tenant''] pod_dec"

text \<open>Byte-wise order of names, as \<open>sort.Strings\<close> has it.\<close>

fun name_le :: "string \<Rightarrow> string \<Rightarrow> bool" where
  "name_le [] t = True"
| "name_le (c # s) [] = False"
| "name_le (c # s) (d # t) = ((of_char c :: nat) < of_char d \<or> (c = d \<and> name_le s t))"

fun insert_name :: "string \<Rightarrow> string list \<Rightarrow> string list" where
  "insert_name x [] = [x]"
| "insert_name x (y # ys) = (if name_le x y then x # y # ys else y # insert_name x ys)"

definition sort_names :: "string list \<Rightarrow> string list" where
  "sort_names xs = foldr insert_name xs []"

text \<open>A directory listing gives the names of the entries that are not directories; unreadable and
  malformed manifests are skipped.\<close>

definition load_one :: "kernel \<Rightarrow> string \<Rightarrow> string \<Rightarrow> podSpec option io" where
  "load_one K dir name = os_as (\<lambda>r. case r of
       RData s \<Rightarrow> (case json_unmarshal dec_pod s pod0 of Ok spec \<Rightarrow> Some spec | _ \<Rightarrow> None)
     | _ \<Rightarrow> None) K (ReadFile (path_join [dir, name]))"

definition loadPodManifests :: "kernel \<Rightarrow> string \<Rightarrow> podSpec list io" where
  "loadPodManifests K dir =
     State_Monad.bind (os_names K (ReadDir dir)) (\<lambda>r. case r of
         Ok names \<Rightarrow>
           State_Monad.bind (State_Monad.traverse_list (load_one K dir) (sort_names (filter (\<lambda>n. hasSuffix n ''.json'') names))) (\<lambda>os.
           State_Monad.return (List.map_filter (\<lambda>x. x) os))
       | _ \<Rightarrow> State_Monad.return [])"


section \<open>Launching a container\<close>

record podHandle =
  h_pid :: int
  h_cgroup :: string
  h_vethReadyR :: "int option"
  h_vethCreatedW :: "int option"

text \<open>\<open>MemoryMaxMiB << 20\<close> and \<open>CPUMaxPercent * 1000\<close> on 64-bit integers.\<close>

definition memory_bytes :: "int \<Rightarrow> int" where
  "memory_bytes m = sint (push_bit 20 (word_of_int m :: 64 word))"

definition cpu_quota :: "int \<Rightarrow> int" where
  "cpu_quota p = sint (word_of_int p * 1000 :: 64 word)"

definition pod_cgroup :: "podSpec \<Rightarrow> string" where
  "pod_cgroup spec = ''/sys/fs/cgroup/'' @ Name spec"

definition pod_limits :: "kernel \<Rightarrow> podSpec \<Rightarrow> unit io" where
  "pod_limits K spec =
     State_Monad.bind (if MemoryMaxMiB (Resources spec) > 0
       then os_ignore K (WriteFile (pod_cgroup spec @ ''/memory.max'') (itoa (memory_bytes (MemoryMaxMiB (Resources spec)))) 0)
       else State_Monad.return ()) (\<lambda>_.
     if CPUMaxPercent (Resources spec) > 0
     then os_ignore K (WriteFile (pod_cgroup spec @ ''/cpu.max'') (itoa (cpu_quota (CPUMaxPercent (Resources spec))) @ '' 100000'') 0)
     else State_Monad.return ())"

definition pod_env :: "podSpec \<Rightarrow> string list \<Rightarrow> string list" where
  "pod_env spec netEnv =
     Env spec @ [setting podHostnameEnv (Hostname spec)] @
     (if Tenant spec \<noteq> 0 then [setting podTenantEnv (nat_digits (unat (Tenant spec)))] else []) @ netEnv"

definition pod_clone_flags :: mflags where
  "pod_clone_flags = (CLONE_NEWPID OR CLONE_NEWNS OR CLONE_NEWUTS OR CLONE_NEWIPC OR CLONE_NEWNET)"

text \<open>The container process; its files are the extra ones, from descriptor 3 on. The path search
  and the output pipe of \<open>os/exec\<close> are part of starting the process.\<close>

definition pod_process :: "podSpec \<Rightarrow> string list \<Rightarrow> int list \<Rightarrow> proc_attr" where
  "pod_process spec netEnv files =
     \<lparr>pa_path = hd (Command spec), pa_argv = Command spec, pa_env = pod_env spec netEnv, pa_dir = [],
      pa_flags = pod_clone_flags, pa_chroot = [], pa_cred = None, pa_files = files, pa_tty = False\<rparr>"

definition close_all :: "kernel \<Rightarrow> int list \<Rightarrow> unit io" where
  "close_all K fds = State_Monad.bind (State_Monad.traverse_list (\<lambda>fd. os_ignore K (CloseFd fd)) fds) (\<lambda>_. State_Monad.return ())"

text \<open>Give up: close the descriptors, remove the control group, no handle.\<close>

definition abandon :: "kernel \<Rightarrow> podSpec \<Rightarrow> int list \<Rightarrow> podHandle option res io" where
  "abandon K spec fds =
     State_Monad.bind (close_all K fds) (\<lambda>_.
     State_Monad.bind (os_ignore K (Remove (pod_cgroup spec))) (\<lambda>_. ok_io None))"

text \<open>From the start of the process to its release: move it into its control group, then write the
  byte that it waits for.\<close>

definition start_and_release ::
  "kernel \<Rightarrow> podSpec \<Rightarrow> string list \<Rightarrow> int \<Rightarrow> int \<Rightarrow> int list \<Rightarrow> int option \<Rightarrow> int option \<Rightarrow> podHandle option res io" where
  "start_and_release K spec netEnv syncR syncW extra readyR createdW =
     State_Monad.bind (os_int K (StartProcess (pod_process spec netEnv (syncR # extra)))) (\<lambda>r. case r of
         Ok pid \<Rightarrow>
           State_Monad.bind (os_ignore K (CloseFd syncR)) (\<lambda>_.
           State_Monad.bind (close_all K extra) (\<lambda>_.
           State_Monad.bind (os_ignore K (WriteFile (pod_cgroup spec @ ''/cgroup.procs'') (itoa pid) 0)) (\<lambda>_.
           State_Monad.bind (os_ignore K (WriteFd syncW [CHR 0x01])) (\<lambda>_.
           State_Monad.bind (os_ignore K (CloseFd syncW)) (\<lambda>_.
           ok_io (Some \<lparr>h_pid = pid, h_cgroup = pod_cgroup spec, h_vethReadyR = readyR, h_vethCreatedW = createdW\<rparr>))))))
       | _ \<Rightarrow> abandon K spec [syncR, syncW])"

definition start_with_pipes :: "kernel \<Rightarrow> podSpec \<Rightarrow> string list \<Rightarrow> int \<Rightarrow> int \<Rightarrow> podHandle option res io" where
  "start_with_pipes K spec netEnv syncR syncW =
     (if Network spec = None then start_and_release K spec netEnv syncR syncW [] None None
      else State_Monad.bind (os_pair K MakePipe) (\<lambda>p4. case p4 of
          Ok (r4, w4) \<Rightarrow>
            State_Monad.bind (os_pair K MakePipe) (\<lambda>p5. case p5 of
                Ok (r5, w5) \<Rightarrow> start_and_release K spec netEnv syncR syncW [w4, r5] (Some r4) (Some w5)
              | _ \<Rightarrow> abandon K spec [syncR, syncW, r4, w4])
        | _ \<Rightarrow> abandon K spec [syncR, syncW]))"

text \<open>\<open>spec.Command[0]\<close> panics on an empty command, after the control group and the pipe are made.\<close>

definition after_pipe :: "kernel \<Rightarrow> podSpec \<Rightarrow> string list \<Rightarrow> (int \<times> int) res \<Rightarrow> podHandle option res io" where
  "after_pipe K spec netEnv p = (case p of
       Ok (syncR, syncW) \<Rightarrow> if Command spec = [] then State_Monad.return Panic else start_with_pipes K spec netEnv syncR syncW
     | _ \<Rightarrow> abandon K spec [])"

definition startPodContainer :: "kernel \<Rightarrow> podSpec \<Rightarrow> string list \<Rightarrow> podHandle option res io" where
  "startPodContainer K spec netEnv =
     State_Monad.bind (os_unit K (Mkdir (pod_cgroup spec))) (\<lambda>m.
     if m \<noteq> Ok () \<and> m \<noteq> Err (Errno EEXIST) then ok_io None
     else State_Monad.bind (pod_limits K spec) (\<lambda>_.
     State_Monad.bind (os_pair K MakePipe) (after_pipe K spec netEnv)))"

definition signalVethCreated :: "kernel \<Rightarrow> podHandle \<Rightarrow> unit io" where
  "signalVethCreated K h = (case h_vethCreatedW h of
       Some w \<Rightarrow> State_Monad.bind (os_ignore K (WriteFd w [CHR 0x01])) (\<lambda>_. os_ignore K (CloseFd w))
     | None \<Rightarrow> State_Monad.return ())"

definition hostSideVethPing :: "kernel \<Rightarrow> podNetwork \<Rightarrow> int \<Rightarrow> unit res io" where
  "hostSideVethPing K n ready =
     defer_io (os_ignore K (CloseFd ready)) (
       try_io (os_data K (ReadFd ready)) (\<lambda>_.
       try_io (os_int K (Dial ''udp'' (case parseIP (PodIP n) of Some a \<Rightarrow> a | None \<Rightarrow> []) vethUDPPort)) (\<lambda>conn.
       defer_io (os_ignore K (CloseFd conn)) (os_unit K (WriteFd conn ''ping-from-host-over-veth'')))))"

text \<open>Wait for the container, but not longer than the watchdog: then kill it and give the kill two
  seconds. The control group is removed in any case. The result says whether the pod succeeded. The
  reply of the wait is the exit status, an error of the wait, or nothing when the time is over.\<close>

definition watchdog :: "podSpec \<Rightarrow> int" where
  "watchdog spec = (if bridged spec then 60000000000 else 15000000000)"

definition waitPod :: "kernel \<Rightarrow> podSpec \<Rightarrow> podHandle \<Rightarrow> bool io" where
  "waitPod K spec h =
     State_Monad.bind (os K (WaitFor (h_pid h) (watchdog spec))) (\<lambda>r.
     State_Monad.bind (case r of
         RInt status \<Rightarrow> State_Monad.return (status = 0)
       | RErr e \<Rightarrow> State_Monad.return False
       | _ \<Rightarrow>
           State_Monad.bind (os_ignore K (Kill (h_pid h) SIGKILL)) (\<lambda>_.
           os_as (\<lambda>r. r = RInt 0) K (WaitFor (h_pid h) 2000000000))) (\<lambda>ok.
     State_Monad.bind (os_ignore K (Remove (h_cgroup h))) (\<lambda>_.
     State_Monad.return ok)))"


section \<open>A pod with its own veth\<close>

definition veth_name :: "podSpec \<Rightarrow> string" where
  "veth_name spec = take ifNameMaxSize (''veth-'' @ Name spec)"

definition hostSetupVeth :: "nat \<Rightarrow> kernel \<Rightarrow> podSpec \<Rightarrow> podNetwork \<Rightarrow> int \<Rightarrow> unit res io" where
  "hostSetupVeth fuel K spec n peerPid =
     try_io (wrap_io ''open netlink'' (nlOpen K)) (\<lambda>s.
     defer_io (nlClose K s) (
       try_io (wrap_io ''create veth pair'' (createVethPeerNetns fuel K s (veth_name spec) ''eth0'' peerPid)) (\<lambda>_.
       try_io (wrap_io ''find'' (linkIndexByName fuel K (nl_bump s) (veth_name spec))) (\<lambda>idx.
       wrap_io ''assign'' (addAddrV4 fuel K (nl_bump (nl_bump s)) idx (parseIP (HostIP n)) (Prefix n))))))"

definition ignore_err :: "'a res \<Rightarrow> unit res" where
  "ignore_err r = (case r of Panic \<Rightarrow> Panic | Hang \<Rightarrow> Hang | _ \<Rightarrow> Ok ())"

definition logged :: "'a res io \<Rightarrow> (unit \<Rightarrow> 'b res io) \<Rightarrow> 'b res io" where
  "logged m f = State_Monad.bind m (\<lambda>r. try_io (State_Monad.return (ignore_err r)) f)"

definition veth_net_env :: "podNetwork \<Rightarrow> string \<Rightarrow> string list" where
  "veth_net_env n gw = [setting podIPEnv (PodIP n), setting hostIPEnv gw, setting vethPrefxEnv (itoa (Prefix n))]"

definition runPod :: "nat \<Rightarrow> kernel \<Rightarrow> podSpec \<Rightarrow> bool option res io" where
  "runPod fuel K spec =
     try_io (startPodContainer K spec (case Network spec of None \<Rightarrow> [] | Some n \<Rightarrow> veth_net_env n (HostIP n))) (\<lambda>got.
     case got of
       None \<Rightarrow> ok_io None
     | Some h \<Rightarrow>
         try_io (case Network spec of
             None \<Rightarrow> ok_io ()
           | Some n \<Rightarrow> logged (hostSetupVeth fuel K spec n (h_pid h)) (\<lambda>_. State_Monad.bind (signalVethCreated K h) ok_io)) (\<lambda>_.
         State_Monad.bind (waitPod K spec h) (\<lambda>ok. ok_io (Some ok))))"


section \<open>Tenants\<close>

definition prAsterkubeSetTenant :: int where "prAsterkubeSetTenant = 0x4b55544e"
definition prAsterkubeMacMode :: int where "prAsterkubeMacMode = 0x4b554d4d"
definition prAsterkubeLabelIp :: int where "prAsterkubeLabelIp = 0x4b554950"
definition macModePermissive :: int where "macModePermissive = 1"
definition macModeEnforcing :: int where "macModeEnforcing = 2"

definition labelIP :: "kernel \<Rightarrow> int \<Rightarrow> int \<Rightarrow> unit res io" where
  "labelIP K a tenant = os_unit K (Prctl prAsterkubeLabelIp a tenant 0 0)"

definition prctlSetTenant :: "kernel \<Rightarrow> int \<Rightarrow> unit res io" where
  "prctlSetTenant K tenant = os_unit K (Prctl prAsterkubeSetTenant tenant 0 0 0)"

definition prctlMacMode :: "kernel \<Rightarrow> int \<Rightarrow> unit res io" where
  "prctlMacMode K mode = os_unit K (Prctl prAsterkubeMacMode mode 0 0 0)"

definition ipToBE :: "string \<Rightarrow> 32 word" where
  "ipToBE s = (case to4 (parseIP s) of None \<Rightarrow> 0 | Some v4 \<Rightarrow> pack_octets v4)"

definition tenant_pod :: "podSpec \<Rightarrow> string option" where
  "tenant_pod s = (case Network s of
       None \<Rightarrow> None
     | Some n \<Rightarrow> if Tenant s = 0 \<or> PodIP n = [] then None else Some (PodIP n))"

fun label_pods :: "kernel \<Rightarrow> podSpec list \<Rightarrow> bool \<Rightarrow> bool io" where
  "label_pods K [] labeled = State_Monad.return labeled"
| "label_pods K (s # ss) labeled = (case tenant_pod s of
       None \<Rightarrow> label_pods K ss labeled
     | Some a \<Rightarrow>
         State_Monad.bind (labelIP K (uint (ipToBE a)) (uint (Tenant s))) (\<lambda>r.
         label_pods K ss (labeled \<or> is_ok r)))"

definition applyTenantLabels :: "kernel \<Rightarrow> podSpec list \<Rightarrow> unit io" where
  "applyTenantLabels K specs =
     State_Monad.bind (label_pods K specs False) (\<lambda>labeled.
     if labeled then State_Monad.bind (prctlMacMode K macModeEnforcing) (\<lambda>_. State_Monad.return ()) else State_Monad.return ())"

definition unlabel :: "kernel \<Rightarrow> podSpec \<Rightarrow> unit io" where
  "unlabel K s = (case tenant_pod s of
       None \<Rightarrow> State_Monad.return ()
     | Some a \<Rightarrow> State_Monad.bind (labelIP K (uint (ipToBE a)) 0) (\<lambda>_. State_Monad.return ()))"

definition cleanupTenantLabels :: "kernel \<Rightarrow> podSpec list \<Rightarrow> unit io" where
  "cleanupTenantLabels K specs =
     State_Monad.bind (State_Monad.traverse_list (unlabel K) specs) (\<lambda>_.
     State_Monad.bind (prctlMacMode K macModePermissive) (\<lambda>_. State_Monad.return ()))"

definition containerSetTenant :: "kernel \<Rightarrow> getenv \<Rightarrow> unit io" where
  "containerSetTenant K env = (case atoi (env podTenantEnv) of
       None \<Rightarrow> State_Monad.return ()
     | Some n \<Rightarrow> if n \<le> 0 then State_Monad.return () else State_Monad.bind (prctlSetTenant K n) (\<lambda>_. State_Monad.return ()))"

datatype probe_outcome = SocketFailed | Denied | NotIsolated

definition tenantConnectProbe :: "kernel \<Rightarrow> string \<Rightarrow> probe_outcome res io" where
  "tenantConnectProbe K target =
     State_Monad.bind (os_int K (Socket 2 1 0)) (\<lambda>r. case r of
         Ok fd \<Rightarrow>
           defer_io (os_ignore K (CloseFd fd)) (
             State_Monad.bind (os_unit K (Connect fd (Inet4 (be32 (ipToBE target)) 9))) (\<lambda>c.
             ok_io (if c = Err (Errno EPERM) then Denied else NotIsolated)))
       | _ \<Rightarrow> ok_io SocketFailed)"


section \<open>How a container is launched\<close>

lemma made_bind_grows:
  "grows m \<Longrightarrow> grows (f (result m h)) \<Longrightarrow> made (State_Monad.bind m f) h = made m h @ made (f (result m h)) (after m h)"
  by (rule made_bind)

lemma made_try_Ok:
  "grows m \<Longrightarrow> (\<And>a. grows (f a)) \<Longrightarrow> result m h = Ok a \<Longrightarrow> made (try_io m f) h = made m h @ made (f a) (after m h)"
  by (simp add: made_def events_try_Ok)

lemma made_ok_io [simp]: "made (ok_io a) h = []"
  by (simp add: made_def)

lemma only_close_all [only_intros]: "(\<And>fd. P (CloseFd fd)) \<Longrightarrow> only P (close_all K fds)"
  unfolding close_all_def by (intro only_intros) simp

lemma made_close_all [simp]: "made (close_all K fds) h = map CloseFd fds"
proof (induction fds arbitrary: h)
  case Nil then show ?case by (simp add: close_all_def made_bind_grows only_intros)
next
  case (Cons fd fds)
  have "made (close_all K (fd # fds)) h = made (State_Monad.traverse_list (\<lambda>fd. os_ignore K (CloseFd fd)) (fd # fds)) h"
    unfolding close_all_def by (subst made_bind_grows) (auto intro!: only_intros simp del: State_Monad.traverse_list.simps)
  also have "\<dots> = CloseFd fd # made (close_all K fds) (after (os_ignore K (CloseFd fd)) h)"
    unfolding close_all_def
    by (subst made_traverse_Cons [where P = "\<lambda>_. True"], intro only_intros, simp, subst made_bind_grows)
       (auto intro!: only_intros)
  finally show ?case by (simp add: Cons.IH)
qed

definition given :: "bool \<Rightarrow> 'a list \<Rightarrow> 'a list" where
  "given b xs = (if b then xs else [])"

definition limit_calls :: "podSpec \<Rightarrow> call list" where
  "limit_calls spec =
     given (MemoryMaxMiB (Resources spec) > 0)
       [WriteFile (pod_cgroup spec @ ''/memory.max'') (itoa (memory_bytes (MemoryMaxMiB (Resources spec)))) 0] @
     given (CPUMaxPercent (Resources spec) > 0)
       [WriteFile (pod_cgroup spec @ ''/cpu.max'') (itoa (cpu_quota (CPUMaxPercent (Resources spec))) @ '' 100000'') 0]"

lemma grows_pod_limits [only_intros]: "grows (pod_limits K spec)"
  unfolding pod_limits_def by (intro only_intros) simp_all

lemma made_pod_limits [simp]: "made (pod_limits K spec) h = limit_calls spec"
  unfolding pod_limits_def limit_calls_def given_def
  by (subst made_bind_grows) (auto intro!: only_intros)

lemma grows_abandon [only_intros]: "grows (abandon K spec fds)"
  unfolding abandon_def by (intro only_intros) simp_all

lemma result_abandon [simp]: "result (abandon K spec fds) h = Ok None"
  unfolding abandon_def by (simp split: prod.splits)

lemma made_abandon [simp]: "made (abandon K spec fds) h = map CloseFd fds @ [Remove (pod_cgroup spec)]"
  unfolding abandon_def by (simp add: made_bind_grows only_intros)

text \<open>What a released container has seen, from the start of its process on.\<close>

definition release_calls :: "podSpec \<Rightarrow> string list \<Rightarrow> int \<Rightarrow> int \<Rightarrow> int list \<Rightarrow> int \<Rightarrow> call list" where
  "release_calls spec netEnv syncR syncW extra pid =
     [StartProcess (pod_process spec netEnv (syncR # extra)), CloseFd syncR] @ map CloseFd extra @
     [WriteFile (pod_cgroup spec @ ''/cgroup.procs'') (itoa pid) 0, WriteFd syncW [CHR 0x01], CloseFd syncW]"

lemma grows_start_and_release [only_intros]: "grows (start_and_release K spec netEnv syncR syncW extra r w)"
  unfolding start_and_release_def by (auto intro!: only_intros split: res.splits)

lemma start_and_release_Some:
  assumes "result (start_and_release K spec netEnv syncR syncW extra r w) h = Ok (Some ph)"
  shows "made (start_and_release K spec netEnv syncR syncW extra r w) h = release_calls spec netEnv syncR syncW extra (h_pid ph)"
    and "ph = \<lparr>h_pid = h_pid ph, h_cgroup = pod_cgroup spec, h_vethReadyR = r, h_vethCreatedW = w\<rparr>"
proof -
  let ?p = "StartProcess (pod_process spec netEnv (syncR # extra))"
  obtain pid where pid: "as_int (K h ?p) = Ok pid"
    using assms by (cases "as_int (K h ?p)") (auto simp: start_and_release_def result_bind)
  then have ph: "ph = \<lparr>h_pid = pid, h_cgroup = pod_cgroup spec, h_vethReadyR = r, h_vethCreatedW = w\<rparr>"
    using assms unfolding start_and_release_def result_bind by (simp split: prod.splits)
  show "ph = \<lparr>h_pid = h_pid ph, h_cgroup = pod_cgroup spec, h_vethReadyR = r, h_vethCreatedW = w\<rparr>"
    by (simp add: ph)
  show "made (start_and_release K spec netEnv syncR syncW extra r w) h = release_calls spec netEnv syncR syncW extra (h_pid ph)"
    unfolding start_and_release_def
    by (subst made_bind_grows) (auto intro!: only_intros split: res.splits simp: pid ph release_calls_def made_bind_grows only_intros)
qed


text \<open>A pod that does not get a handle: no process runs and none was released.\<close>

fun unreleased :: "call \<times> reply \<Rightarrow> bool" where
  "unreleased (StartProcess a, r) = (case as_int r of Ok pid \<Rightarrow> False | _ \<Rightarrow> True)"
| "unreleased (WriteFd fd s, r) = False"
| "unreleased e = True"

fun quiet :: "call \<Rightarrow> bool" where
  "quiet (StartProcess a) = False"
| "quiet (WriteFd fd s) = False"
| "quiet c = True"

lemma quiet_unreleased: "quiet (fst e) \<Longrightarrow> unreleased e"
  by (cases e rule: unreleased.cases) auto

lemma only_quiet_unreleased: "only quiet m \<Longrightarrow> list_all unreleased (events m h)"
  using only_made [of quiet m _ h] quiet_unreleased by (auto simp: list_all_iff made_def calls_def)

lemma quiet_steps [only_intros]:
  "only quiet (pod_limits K spec)" "only quiet (abandon K spec fds)"
  unfolding pod_limits_def abandon_def by (intro only_intros; simp)+

lemma start_and_release_None:
  assumes "result (start_and_release K spec netEnv syncR syncW extra r w) h = Ok None"
  shows "list_all unreleased (events (start_and_release K spec netEnv syncR syncW extra r w) h)"
proof -
  let ?p = "StartProcess (pod_process spec netEnv (syncR # extra))"
  obtain e where e: "as_int (K h ?p) = Err e"
    using assms by (cases "as_int (K h ?p)") (auto simp: start_and_release_def result_bind split: prod.splits)
  then have "events (start_and_release K spec netEnv syncR syncW extra r w) h =
      (?p, K h ?p) # events (abandon K spec [syncR, syncW]) (h @ [(?p, K h ?p)])"
    unfolding start_and_release_def
    by (subst events_bind_grows) (auto intro!: only_intros split: res.splits)
  then show ?thesis using e only_quiet_unreleased [OF quiet_steps(2)] by simp
qed

lemma start_and_release_result:
  "(\<exists>ph. result (start_and_release K spec netEnv syncR syncW extra r w) h = Ok (Some ph))
   \<or> result (start_and_release K spec netEnv syncR syncW extra r w) h = Ok None"
  unfolding start_and_release_def result_bind by (auto split: res.splits prod.splits)

definition veth_pipes :: "podSpec \<Rightarrow> nat" where
  "veth_pipes spec = (if Network spec = None then 0 else 2)"

definition launched :: "podSpec \<Rightarrow> string list \<Rightarrow> int \<Rightarrow> int \<Rightarrow> podHandle \<Rightarrow> call list \<Rightarrow> bool" where
  "launched spec netEnv syncR syncW ph cs \<longleftrightarrow> (\<exists>extra. length extra = veth_pipes spec \<and>
     cs = replicate (veth_pipes spec) MakePipe @ release_calls spec netEnv syncR syncW extra (h_pid ph))"

definition start_outcome :: "podSpec \<Rightarrow> string list \<Rightarrow> int \<Rightarrow> int \<Rightarrow> podHandle option res io \<Rightarrow> hist \<Rightarrow> bool" where
  "start_outcome spec netEnv syncR syncW m h \<longleftrightarrow> (case result m h of
       Ok (Some ph) \<Rightarrow> launched spec netEnv syncR syncW ph (made m h) \<and> h_cgroup ph = pod_cgroup spec
     | Ok None \<Rightarrow> list_all unreleased (events m h)
     | _ \<Rightarrow> False)"

lemma grows_start_with_pipes [only_intros]: "grows (start_with_pipes K spec netEnv syncR syncW)"
  unfolding start_with_pipes_def by (auto intro!: only_intros split: res.splits)

lemma start_outcome_release:
  assumes "length extra = veth_pipes spec" "events m h = evs @ events (start_and_release K spec netEnv syncR syncW extra r w) h'"
    and "result m h = result (start_and_release K spec netEnv syncR syncW extra r w) h'"
    and "calls evs = replicate (veth_pipes spec) MakePipe"
  shows "start_outcome spec netEnv syncR syncW m h"
proof -
  let ?s = "start_and_release K spec netEnv syncR syncW extra r w"
  have "fst e = MakePipe" if "e \<in> set evs" for e
    using that assms(4) by (metis calls_def image_eqI in_set_replicate list.set_map)
  then have q: "list_all unreleased evs"
    using quiet_unreleased [of "(MakePipe, r)" for r] by (fastforce simp: list_all_iff)
  show ?thesis
    using start_and_release_result [of K spec netEnv syncR syncW extra r w h']
  proof (elim disjE exE)
    fix ph assume ph: "result ?s h' = Ok (Some ph)"
    have "made m h = replicate (veth_pipes spec) MakePipe @ release_calls spec netEnv syncR syncW extra (h_pid ph)"
      using start_and_release_Some(1) [OF ph] assms(2,4) by (simp add: made_def)
    moreover have "h_cgroup ph = pod_cgroup spec" using start_and_release_Some(2) [OF ph] by (metis podHandle.select_convs(2))
    ultimately show ?thesis using ph assms(1,3) unfolding start_outcome_def launched_def by auto
  next
    assume n: "result ?s h' = Ok None"
    show ?thesis using start_and_release_None [OF n] q n assms(2,3) unfolding start_outcome_def by simp
  qed
qed


lemma start_with_pipes_outcome: "start_outcome spec netEnv syncR syncW (start_with_pipes K spec netEnv syncR syncW) h"
proof (cases "Network spec")
  case None
  then show ?thesis
    by (intro start_outcome_release [where extra = "[]" and evs = "[]" and K = K and r = None and w = None and h' = h])
       (simp_all add: start_with_pipes_def veth_pipes_def)
next
  case (Some n)
  let ?h1 = "h @ [(MakePipe, K h MakePipe)]"
  let ?h2 = "?h1 @ [(MakePipe, K ?h1 MakePipe)]"
  have quiet: "list_all unreleased ((MakePipe, r) # events (abandon K spec fds) h')" for r fds h'
    using only_quiet_unreleased [OF quiet_steps(2)] by simp
  show ?thesis
  proof (cases "as_pair (K h MakePipe)")
    case (Ok p4)
    obtain r4 w4 where p4: "p4 = (r4, w4)" by (cases p4)
    show ?thesis
    proof (cases "as_pair (K ?h1 MakePipe)")
      case (Ok p5)
      obtain r5 w5 where p5: "p5 = (r5, w5)" by (cases p5)
      show ?thesis
        by (rule start_outcome_release [where extra = "[w4, r5]" and evs = "[(MakePipe, K h MakePipe), (MakePipe, K ?h1 MakePipe)]"
              and K = K and r = "Some r4" and w = "Some w5" and h' = ?h2])
          (use \<open>as_pair (K h MakePipe) = Ok p4\<close> Ok Some p4 p5 in
             \<open>auto simp: start_with_pipes_def veth_pipes_def events_bind_grows only_intros numeral_2_eq_2 split: res.splits\<close>)
    next
      case (Err e)
      then show ?thesis using \<open>as_pair (K h MakePipe) = Ok p4\<close> Some p4 quiet
        by (auto simp: start_outcome_def start_with_pipes_def result_bind events_bind_grows only_intros split: res.splits)
    qed simp_all
  next
    case (Err e)
    then show ?thesis using Some quiet
      by (auto simp: start_outcome_def start_with_pipes_def result_bind events_bind_grows only_intros split: res.splits)
  qed simp_all
qed


lemma grows_after_pipe [only_intros]: "grows (after_pipe K spec netEnv p)"
  unfolding after_pipe_def by (auto intro!: only_intros split: res.splits)

lemma startPodContainer_run:
  fixes K h spec netEnv
  defines "mk \<equiv> (Mkdir (pod_cgroup spec), K h (Mkdir (pod_cgroup spec)))"
  defines "h2 \<equiv> after (pod_limits K spec) (h @ [mk])"
  defines "rest \<equiv> after_pipe K spec netEnv (as_pair (K h2 MakePipe))"
  assumes "as_unit (snd mk) = Ok () \<or> as_unit (snd mk) = Err (Errno EEXIST)"
  shows "result (startPodContainer K spec netEnv) h = result rest (h2 @ [(MakePipe, K h2 MakePipe)])"
    and "events (startPodContainer K spec netEnv) h =
           mk # events (pod_limits K spec) (h @ [mk]) @ (MakePipe, K h2 MakePipe) # events rest (h2 @ [(MakePipe, K h2 MakePipe)])"
proof -
  show "result (startPodContainer K spec netEnv) h = result rest (h2 @ [(MakePipe, K h2 MakePipe)])"
    unfolding startPodContainer_def result_bind using assms(4) by (auto simp: mk_def h2_def rest_def case_prod_beta)
  show "events (startPodContainer K spec netEnv) h =
           mk # events (pod_limits K spec) (h @ [mk]) @ (MakePipe, K h2 MakePipe) # events rest (h2 @ [(MakePipe, K h2 MakePipe)])"
    unfolding startPodContainer_def using assms(4)
    by (subst events_bind_grows)
       (auto intro!: only_intros simp: events_bind_grows only_intros mk_def h2_def rest_def)
qed

lemma startPodContainer_outcome:
  "case result (startPodContainer K spec netEnv) h of
     Ok (Some ph) \<Rightarrow> (\<exists>syncR syncW cs. launched spec netEnv syncR syncW ph cs \<and> Command spec \<noteq> []
       \<and> made (startPodContainer K spec netEnv) h = Mkdir (pod_cgroup spec) # limit_calls spec @ MakePipe # cs
       \<and> h_cgroup ph = pod_cgroup spec)
   | Ok None \<Rightarrow> list_all unreleased (events (startPodContainer K spec netEnv) h)
   | Panic \<Rightarrow> Command spec = [] \<and> list_all unreleased (events (startPodContainer K spec netEnv) h)
   | _ \<Rightarrow> False"
proof (cases "as_unit (K h (Mkdir (pod_cgroup spec))) = Ok () \<or> as_unit (K h (Mkdir (pod_cgroup spec))) = Err (Errno EEXIST)")
  case False
  then show ?thesis unfolding startPodContainer_def result_bind
    by (subst events_bind_grows) (auto intro!: only_intros split: res.splits)
next
  case True
  let ?mk = "(Mkdir (pod_cgroup spec), K h (Mkdir (pod_cgroup spec)))"
  let ?h2 = "after (pod_limits K spec) (h @ [?mk])"
  let ?rest = "after_pipe K spec netEnv (as_pair (K ?h2 MakePipe))" and ?h3 = "?h2 @ [(MakePipe, K ?h2 MakePipe)]"
  note run = startPodContainer_run [where K = K and h = h and spec = spec and netEnv = netEnv, simplified, OF True]
  have q: "list_all unreleased (events (startPodContainer K spec netEnv) h) \<longleftrightarrow> list_all unreleased (events ?rest ?h3)"
    using only_quiet_unreleased [OF quiet_steps(1)] by (simp add: run(2))
  have m: "made (startPodContainer K spec netEnv) h = Mkdir (pod_cgroup spec) # limit_calls spec @ MakePipe # made ?rest ?h3"
    using made_pod_limits [of K spec "h @ [?mk]"] by (simp add: made_def run(2))
  consider (start) a b where "as_pair (K ?h2 MakePipe) = Ok (a, b)" "Command spec \<noteq> []"
    | (no_command) a b where "as_pair (K ?h2 MakePipe) = Ok (a, b)" "Command spec = []"
    | (no_pipe) e where "as_pair (K ?h2 MakePipe) = Err e"
    by (cases "as_pair (K ?h2 MakePipe)") auto
  then show ?thesis
  proof cases
    case start
    then have "start_outcome spec netEnv a b ?rest ?h3"
      using start_with_pipes_outcome by (simp add: after_pipe_def)
    then show ?thesis unfolding run(1) q m start_outcome_def using start(2)
      by (auto split: res.splits option.splits)
  next
    case no_command
    then show ?thesis by (simp add: run(1) q after_pipe_def)
  next
    case no_pipe
    then show ?thesis using only_quiet_unreleased [OF quiet_steps(2)] by (simp add: run(1) q after_pipe_def)
  qed
qed

text \<open>C14 (launching a container): a pod that is launched got its control group and its limits before its
  process was started in fresh namespaces, and the process was moved into that control group before
  the byte that it waits for was written; a pod that is not launched has no process running, and the
  launch panics only for a pod without a command.\<close>

theorem startPodContainer_order:
  "case result (startPodContainer K spec netEnv) h of
     Ok (Some ph) \<Rightarrow> (\<exists>syncR syncW cs. launched spec netEnv syncR syncW ph cs \<and> Command spec \<noteq> []
       \<and> made (startPodContainer K spec netEnv) h = Mkdir (pod_cgroup spec) # limit_calls spec @ MakePipe # cs
       \<and> h_cgroup ph = pod_cgroup spec)
   | Ok None \<Rightarrow> list_all unreleased (events (startPodContainer K spec netEnv) h)
   | Panic \<Rightarrow> Command spec = [] \<and> list_all unreleased (events (startPodContainer K spec netEnv) h)
   | _ \<Rightarrow> False"
  by (rule startPodContainer_outcome)


text \<open>When the process cannot be started, only the two ends of the first pipe are closed: the descriptors
  of the veth pipes stay open.\<close>

lemma failed_start_leaks:
  "as_int (K h (StartProcess (pod_process spec netEnv (syncR # extra)))) = Err e \<Longrightarrow>
   made (start_and_release K spec netEnv syncR syncW extra readyR createdW) h =
     [StartProcess (pod_process spec netEnv (syncR # extra)), CloseFd syncR, CloseFd syncW, Remove (pod_cgroup spec)]"
  unfolding start_and_release_def
  by (subst made_bind_grows) (auto intro!: only_intros split: res.splits)

fun wait_time :: "call \<Rightarrow> int" where
  "wait_time (WaitFor pid t) = t"
| "wait_time c = 0"

definition timed_out :: "reply \<Rightarrow> bool" where
  "timed_out r = (case r of RInt n \<Rightarrow> False | RErr e \<Rightarrow> False | _ \<Rightarrow> True)"

lemma made_waitPod:
  "made (waitPod K spec ph) h =
     WaitFor (h_pid ph) (watchdog spec) #
     given (timed_out (K h (WaitFor (h_pid ph) (watchdog spec)))) [Kill (h_pid ph) SIGKILL, WaitFor (h_pid ph) 2000000000] @
     [Remove (h_cgroup ph)]"
  unfolding waitPod_def given_def timed_out_def
  by (subst made_bind_grows, (auto intro!: only_intros split: reply.splits)[2],
      subst made_bind_grows, (auto intro!: only_intros split: reply.splits)[2])
     (auto simp: made_bind_grows only_intros made_def events_def split: reply.splits)

text \<open>C40 (no pod wedges the node): waiting for a pod waits for its process at most the watchdog and, after
  killing it, two more seconds, 62 seconds in all; a process that is still running after the watchdog is
  killed, any other is not; the control group is removed last, in every case; and the pod counts as
  successful only when its process has exited with status zero.\<close>

theorem waitPod_bounded:
  "let cs = made (waitPod K spec ph) h; r = K h (WaitFor (h_pid ph) (watchdog spec)) in
     sum_list (map wait_time cs) \<le> 62000000000
   \<and> last cs = Remove (h_cgroup ph)
   \<and> (Kill p sig \<in> set cs) = (timed_out r \<and> p = h_pid ph \<and> sig = SIGKILL)
   \<and> (if result (waitPod K spec ph) h
      then \<exists>t. (WaitFor (h_pid ph) t, RInt 0) \<in> set (events (waitPod K spec ph) h) else r \<noteq> RInt 0)"
proof -
  let ?r = "K h (WaitFor (h_pid ph) (watchdog spec))"
  have "result (waitPod K spec ph) h \<Longrightarrow> \<exists>t. (WaitFor (h_pid ph) t, RInt 0) \<in> set (events (waitPod K spec ph) h)"
    by (auto simp: waitPod_def events_def split: reply.splits prod.splits intro!: exI)
  moreover have "?r = RInt 0 \<Longrightarrow> result (waitPod K spec ph) h"
    by (simp add: waitPod_def)
  ultimately show ?thesis
    by (auto simp: Let_def made_waitPod given_def watchdog_def)
qed

end
