(* ===== verification/Bridges.thy ===== *)
theory Bridges
  imports Node "HOL-Library.Sublist"
begin

text \<open>
  The second half of \<open>node.go\<close>: the group of pods on shared bridges and the node agent itself.
  Pods on bridges run concurrently, as goroutines: the Go scheduler is the parameter \<open>par\<close>, which
  runs a list of jobs, and \<open>concurrent\<close> says what the language promises of it.
\<close>

section \<open>Pods on bridges\<close>

definition hostSetupVethOnBridge :: "nat \<Rightarrow> kernel \<Rightarrow> podSpec \<Rightarrow> int \<Rightarrow> int \<Rightarrow> unit res io" where
  "hostSetupVethOnBridge fuel K spec peerPid bridgeIdx =
     try_io (wrap_io ''open netlink'' (nlOpen K)) (\<lambda>s.
     defer_io (nlClose K s) (
       wrap_io ''create bridged veth pair'' (createVethOnBridge fuel K s (veth_name spec) ''eth0'' peerPid bridgeIdx)))"

definition service_env :: "podNetwork \<Rightarrow> string list" where
  "service_env n =
     [setting svcRoleEnv (ServiceRole n),
      setting svcVIPEnv (if ServiceVIP n \<noteq> [] then ServiceVIP n else serviceVIP),
      setting svcVPortEnv (itoa (if ServicePort n \<noteq> 0 then ServicePort n else serviceVPort)),
      setting svcBackendPortEnv (itoa (BackendPort n))]"

definition bridged_net_env :: "podNetwork \<Rightarrow> string list" where
  "bridged_net_env n =
     veth_net_env n (GatewayIP n) @
     given (PeerIP n \<noteq> []) [setting peerIPEnv (PeerIP n)] @
     given (TenantProbeIP n \<noteq> []) [setting tenantProbeIPEnv (TenantProbeIP n)] @
     given (CrossPingIP n \<noteq> []) [setting crossPingEnv (CrossPingIP n)] @
     given (MasqRole n \<noteq> [])
       [setting masqRoleEnv (MasqRole n), setting masqUplinkGwEnv (GatewayIP n), setting masqTargetEnv (MasqTarget n)] @
     given (ServiceRole n \<noteq> []) (service_env n)"

definition runBridgedPod :: "nat \<Rightarrow> podSpec \<Rightarrow> podNetwork \<Rightarrow> int \<Rightarrow> kernel \<Rightarrow> bool option res io" where
  "runBridgedPod fuel spec n bridgeIdx K =
     try_io (startPodContainer K spec (bridged_net_env n)) (\<lambda>got.
     case got of
       None \<Rightarrow> ok_io None
     | Some h \<Rightarrow>
         logged (hostSetupVethOnBridge fuel K spec (h_pid h) bridgeIdx) (\<lambda>_.
         State_Monad.bind (signalVethCreated K h) (\<lambda>_.
         State_Monad.bind (waitPod K spec h) (\<lambda>ok. ok_io (Some ok)))))"

text \<open>A step whose failure is reported and answered with \<open>d\<close>.\<close>

definition attempt :: "'a res io \<Rightarrow> 'b \<Rightarrow> ('a \<Rightarrow> 'b res io) \<Rightarrow> 'b res io" where
  "attempt m d f = State_Monad.bind m (\<lambda>r. case r of
       Ok a \<Rightarrow> f a
     | Err e \<Rightarrow> ok_io d
     | Panic \<Rightarrow> State_Monad.return Panic
     | Hang \<Rightarrow> State_Monad.return Hang)"

text \<open>One bridge with its gateway address: the socket, whose sequence number counts the messages sent,
  and the index of the bridge when everything succeeded.\<close>

definition make_bridge :: "nat \<Rightarrow> kernel \<Rightarrow> nlSocket \<Rightarrow> podNetwork \<Rightarrow> (nlSocket \<times> int option) res io" where
  "make_bridge fuel K s n =
     (let gw = parseIP (GatewayIP n); s1 = nl_bump s; s2 = nl_bump s1;
          s3 = (if to4 gw = None then s2 else nl_bump s2) in
      attempt (createBridge fuel K s (Bridge n)) (s1, None) (\<lambda>_.
      attempt (linkIndexByName fuel K s1 (Bridge n)) (s2, None) (\<lambda>idx.
      attempt (addAddrV4 fuel K s2 idx gw (Prefix n)) (s3, None) (\<lambda>_.
      State_Monad.bind (if Uplink n then State_Monad.bind (addMasqUplink K idx) (\<lambda>_. State_Monad.return ())
                        else State_Monad.return ()) (\<lambda>_.
      ok_io (s3, Some idx))))))"

type_synonym bridge_map = "(string \<times> int) list"

fun make_bridges :: "nat \<Rightarrow> kernel \<Rightarrow> nlSocket \<Rightarrow> podSpec list \<Rightarrow> bridge_map \<Rightarrow> bridge_map res io" where
  "make_bridges fuel K s [] m = ok_io m"
| "make_bridges fuel K s (spec # specs) m = (case Network spec of
       None \<Rightarrow> State_Monad.return Panic
     | Some n \<Rightarrow>
         if map_of m (Bridge n) \<noteq> None then make_bridges fuel K s specs m
         else try_io (make_bridge fuel K s n) (\<lambda>(s', r).
           make_bridges fuel K s' specs (case r of None \<Rightarrow> m | Some idx \<Rightarrow> (Bridge n, idx) # m)))"

definition dnat_rules :: "kernel \<Rightarrow> podNetwork \<Rightarrow> unit res io" where
  "dnat_rules K n =
     logged (addServiceDNAT K serviceVIP serviceVPort (PodIP n) (BackendPort n) serviceProtoUDP) (\<lambda>_.
     logged (addServiceDNAT K serviceVIP serviceVPort (PodIP n) (BackendPort n + 2) serviceProtoUDP) (\<lambda>_.
     logged (addServiceDNAT K serviceVIP serviceVPort (PodIP n) (BackendPort n + 1) serviceProtoTCP) ok_io))"

text \<open>Only the first backend gets rules.\<close>

fun program_dnat :: "kernel \<Rightarrow> podSpec list \<Rightarrow> unit res io" where
  "program_dnat K [] = ok_io ()"
| "program_dnat K (spec # specs) = (case Network spec of
       None \<Rightarrow> State_Monad.return Panic
     | Some n \<Rightarrow> if ServiceRole n \<noteq> ''backend'' then program_dnat K specs else dnat_rules K n)"

type_synonym job = "kernel \<Rightarrow> bool option res io"
type_synonym scheduler = "job list \<Rightarrow> kernel \<Rightarrow> unit res io"

definition pod_job :: "nat \<Rightarrow> bridge_map \<Rightarrow> podSpec \<Rightarrow> job option" where
  "pod_job fuel m spec = (case Network spec of
       None \<Rightarrow> None
     | Some n \<Rightarrow> map_option (runBridgedPod fuel spec n) (map_of m (Bridge n)))"

text \<open>The pods run as goroutines, all of them waited for. A goroutine that panics ends the process, so
  \<open>par\<close> is taken to give \<open>Hang\<close> then: nothing of the caller runs any more, deferred calls included.\<close>

definition group_body :: "nat \<Rightarrow> scheduler \<Rightarrow> kernel \<Rightarrow> podSpec list \<Rightarrow> nlSocket \<Rightarrow> unit res io" where
  "group_body fuel par K specs s =
     try_io (make_bridges fuel K s specs []) (\<lambda>m.
     try_io (program_dnat K specs) (\<lambda>_.
     State_Monad.bind (applyTenantLabels K specs) (\<lambda>_.
     try_io (par (List.map_filter (pod_job fuel m) specs) K) (\<lambda>_.
     State_Monad.bind (cleanupTenantLabels K specs) ok_io))))"

definition runBridgedPods :: "nat \<Rightarrow> scheduler \<Rightarrow> kernel \<Rightarrow> podSpec list \<Rightarrow> unit res io" where
  "runBridgedPods fuel par K specs =
     attempt (nlOpen K) () (\<lambda>s. defer_io (nlClose K s) (group_body fuel par K specs s))"


section \<open>The node agent\<close>

fun none_exists :: "kernel \<Rightarrow> string list \<Rightarrow> bool io" where
  "none_exists K [] = State_Monad.return True"
| "none_exists K (p # ps) =
     State_Monad.bind (os K (Stat p)) (\<lambda>r. case r of RErr e \<Rightarrow> none_exists K ps | _ \<Rightarrow> State_Monad.return False)"

definition pureGoMode :: "kernel \<Rightarrow> bool io" where
  "pureGoMode K = none_exists K [''/lib64/libc.so.6'', ''/lib/libc.so.6'', ''/usr/lib/libc.so.6'']"

definition demo_pod :: "string \<Rightarrow> 32 word \<Rightarrow> podNetwork \<Rightarrow> podSpec" where
  "demo_pod name tenant n =
     \<lparr>Name = name, Hostname = name, Command = [''/usr/bin/kubelet''], Env = [setting containerEnv ''1''],
      Resources = \<lparr>MemoryMaxMiB = 128, CPUMaxPercent = 50\<rparr>, Network = Some n, Tenant = tenant\<rparr>"

definition kp_pod :: "string \<Rightarrow> string \<Rightarrow> string \<Rightarrow> string \<Rightarrow> podSpec" where
  "kp_pod name addr role peer = demo_pod name 0
     (network0\<lparr>Bridge := ''kpbr'', GatewayIP := ''10.244.0.1'', Prefix := 24, PodIP := addr, PeerIP := peer,
        ServiceRole := role, ServiceVIP := ''10.96.0.10'', ServicePort := 53, BackendPort := 53\<rparr>)"

definition buildKubeProxyDemoSpecs :: "podSpec list" where
  "buildKubeProxyDemoSpecs =
     [kp_pod ''kpb1'' ''10.244.0.2'' ''kpbackend'' ''10.244.0.4'',
      kp_pod ''kpb2'' ''10.244.0.3'' ''kpbackend'' ''10.244.0.4'',
      kp_pod ''kpc'' ''10.244.0.4'' ''kpclient'' ''10.244.0.2'']"

definition tn_pod :: "string \<Rightarrow> 32 word \<Rightarrow> string \<Rightarrow> string \<Rightarrow> podSpec" where
  "tn_pod name tenant addr probe = demo_pod name tenant
     (network0\<lparr>Bridge := ''tnbr'', GatewayIP := ''10.244.7.1'', Prefix := 24, PodIP := addr, TenantProbeIP := probe\<rparr>)"

definition buildTenantDemoSpecs :: "podSpec list" where
  "buildTenantDemoSpecs =
     [tn_pod ''tn1'' 1 ''10.244.7.2'' ''10.244.7.3'', tn_pod ''tn2'' 2 ''10.244.7.3'' []]"

fun run_plain :: "nat \<Rightarrow> kernel \<Rightarrow> podSpec list \<Rightarrow> unit res io" where
  "run_plain fuel K [] = ok_io ()"
| "run_plain fuel K (spec # specs) =
     (if bridged spec then run_plain fuel K specs
      else try_io (runPod fuel K spec) (\<lambda>_. run_plain fuel K specs))"

definition runNodeAgent :: "nat \<Rightarrow> scheduler \<Rightarrow> kernel \<Rightarrow> unit res io" where
  "runNodeAgent fuel par K =
     State_Monad.bind (loadPodManifests K manifestDir) (\<lambda>specs.
     if specs = [] then ok_io ()
     else try_io (run_plain fuel K specs) (\<lambda>_.
       State_Monad.bind (pureGoMode K) (\<lambda>pure.
       let group = filter bridged specs @ (if pure then [] else buildKubeProxyDemoSpecs) @ buildTenantDemoSpecs in
       if group \<noteq> [] then runBridgedPods fuel par K group else ok_io ())))"



section \<open>Interleavings\<close>

text \<open>\<open>interleaving xss ys\<close>: \<open>ys\<close> is a merge of the sequences \<open>xss\<close>, each in its own order.\<close>

inductive interleaving :: "'e list list \<Rightarrow> 'e list \<Rightarrow> bool" where
  Done: "list_all (\<lambda>xs. xs = []) xss \<Longrightarrow> interleaving xss []"
| Step: "i < length xss \<Longrightarrow> xss ! i = x # xs \<Longrightarrow> interleaving (xss[i := xs]) ys \<Longrightarrow> interleaving xss (x # ys)"

inductive_cases interleaving_NilE: "interleaving xss []"
inductive_cases interleaving_ConsE: "interleaving xss (y # ys)"

lemma interleaving_set: "interleaving xss ys \<Longrightarrow> y \<in> set ys \<Longrightarrow> \<exists>xs \<in> set xss. y \<in> set xs"
proof (induction rule: interleaving.induct)
  case (Step i xss x xs ys)
  show ?case
  proof (cases "y = x")
    case True then show ?thesis using Step(1,2) by (metis list.set_intros(1) nth_mem)
  next
    case False
    then obtain zs where "zs \<in> set (xss[i := xs])" "y \<in> set zs" using Step by auto
    then show ?thesis using Step(1,2) by (metis in_set_conv_nth insertE list.set_intros(2) set_update_subset_insert subsetD nth_mem)
  qed
qed simp

lemma interleaving_order:
  "interleaving xss ys \<Longrightarrow> i < length xss \<Longrightarrow> subseq (xss ! i) ys"
proof (induction arbitrary: i rule: interleaving.induct)
  case (Done xss) then show ?case by (simp add: list_all_length)
next
  case (Step j xss x xs ys)
  then have "subseq (xss[j := xs] ! i) ys" by simp
  then show ?case using Step.hyps(1,2) Step.prems by (cases "i = j") auto
qed

lemma interleaving_map: "interleaving xss ys \<Longrightarrow> interleaving (map (map f) xss) (map f ys)"
proof (induction rule: interleaving.induct)
  case (Done xss) then show ?case by (auto simp: list_all_iff intro!: interleaving.Done)
next
  case (Step i xss x xs ys)
  then show ?case by (auto simp: map_update intro!: interleaving.Step [where i = i and xs = "map f xs"])
qed

lemma interleaving_shift: "interleaving xss ys \<Longrightarrow> interleaving ([] # xss) ys"
proof (induction rule: interleaving.induct)
  case (Step i xss x xs ys)
  then show ?case by (intro interleaving.Step [where i = "Suc i" and xs = xs]) auto
qed (auto intro: interleaving.Done)

lemma interleaving_append: "interleaving xss ys \<Longrightarrow> interleaving (xs # xss) (xs @ ys)"
proof (induction xs)
  case (Cons x xs)
  then show ?case by (auto intro!: interleaving.Step [where i = 0 and xs = xs])
qed (simp add: interleaving_shift)

lemma interleaving_concat: "interleaving xss (concat xss)"
  by (induction xss) (auto intro: interleaving.Done interleaving_append)

text \<open>What the language promises of goroutines that are all waited for: their calls are interleaved in
  some way; each job sees the replies that the kernel gives it then, which may be those of any kernel
  and history; when the group returns, each job has returned normally and made all of its calls.\<close>

definition job_run :: "bool \<Rightarrow> job \<Rightarrow> hist \<Rightarrow> bool" where
  "job_run finished job ev \<longleftrightarrow> (\<exists>K h. if finished then ev = events (job K) h \<and> (\<exists>b. result (job K) h = Ok b)
     else prefix ev (events (job K) h))"

definition concurrent :: "scheduler \<Rightarrow> bool" where
  "concurrent par \<longleftrightarrow> (\<forall>jobs K h. (\<forall>j \<in> set jobs. \<forall>K. grows (j K)) \<longrightarrow>
     (\<exists>evs ev. after (par jobs K) h = h @ ev \<and> interleaving evs ev
     \<and> (result (par jobs K) h = Ok () \<or> result (par jobs K) h = Hang)
     \<and> list_all2 (job_run (result (par jobs K) h = Ok ())) jobs evs))"

text \<open>Running the jobs one after the other is one such schedule.\<close>

fun one_by_one :: scheduler where
  "one_by_one [] K = ok_io ()"
| "one_by_one (j # js) K = State_Monad.bind (j K) (\<lambda>r. case r of
       Ok b \<Rightarrow> one_by_one js K
     | _ \<Rightarrow> State_Monad.return Hang)"


lemma job_runI: "job_run False job []"
  by (simp add: job_run_def)

lemma unstarted: "list_all2 (job_run False) js (map (\<lambda>_. []) js)"
  by (induction js) (auto intro: job_runI)

lemma interleaving_alone: "interleaving (xs # map (\<lambda>_. []) js) xs"
  using interleaving_append [of "map (\<lambda>_. []) js" "[]" xs] by (simp add: interleaving.Done list_all_iff)

lemma one_by_one_run:
  assumes "\<forall>j \<in> set jobs. \<forall>K. grows (j K)"
  shows "\<exists>evs ev. after (one_by_one jobs K) h = h @ ev \<and> interleaving evs ev
     \<and> (result (one_by_one jobs K) h = Ok () \<or> result (one_by_one jobs K) h = Hang)
     \<and> list_all2 (job_run (result (one_by_one jobs K) h = Ok ())) jobs evs"
  using assms
proof (induction jobs arbitrary: h)
  case Nil
  then show ?case by (auto intro!: exI [of _ "[]"] interleaving.Done)
next
  case (Cons j js)
  let ?e = "events (j K) h"
  have a: "after (j K) h = h @ ?e" using Cons.prems by (intro after_events [of "\<lambda>_. True"]) simp
  have hang: ?case if "\<not> is_ok (result (j K) h)"
  proof -
    have "after (one_by_one (j # js) K) h = h @ ?e" "result (one_by_one (j # js) K) h = Hang"
      using that a by (auto simp: case_prod_beta split: res.splits)
    moreover have "job_run False j ?e" unfolding job_run_def by (rule exI [of _ K]) auto
    ultimately show ?case using unstarted [of js] interleaving_alone [of ?e js]
      by (intro exI [of _ "?e # map (\<lambda>_. []) js"] exI [of _ ?e]) simp
  qed
  show ?case
  proof (cases "result (j K) h")
    case (Ok b)
    let ?r = "one_by_one js K" and ?h = "h @ ?e"
    obtain evs ev where IH: "after ?r ?h = ?h @ ev" "interleaving evs ev" "result ?r ?h = Ok () \<or> result ?r ?h = Hang"
        "list_all2 (job_run (result ?r ?h = Ok ())) js evs"
      using Cons.IH [of ?h] Cons.prems by auto
    have r: "result (one_by_one (j # js) K) h = result ?r ?h" "after (one_by_one (j # js) K) h = after ?r ?h"
      using Ok a by (simp_all add: case_prod_beta)
    have "job_run (result ?r ?h = Ok ()) j ?e" unfolding job_run_def using Ok by (intro exI [of _ K] exI [of _ h]) auto
    then show ?thesis unfolding r using IH interleaving_append [OF IH(2), of ?e]
      by (intro exI [of _ "?e # evs"] exI [of _ "?e @ ev"]) auto
  qed (use hang in auto)
qed

lemma concurrent_one_by_one: "concurrent one_by_one"
  unfolding concurrent_def using one_by_one_run by blast



section \<open>The phases of a group of pods\<close>

lemma only_recv_loop_any: "(\<And>fd cap. P (Recvfrom fd cap)) \<Longrightarrow> only P (recv_loop fuel K fd cap scan)"
  by (rule only_mono [OF only_recv_loop]) simp

lemma quiet_recv_loop [only_intros]: "only quiet (recv_loop fuel K fd cap scan)"
  by (rule only_recv_loop_any) simp

lemma quiet_nl [only_intros]:
  "only quiet (nlOpen K)" "only quiet (nlClose K s)" "only quiet (nl_send K s t fl body)"
  unfolding nlOpen_def nlClose_def nl_send_def by (auto intro!: only_intros split: res.splits)

lemma quiet_requests [only_intros]:
  "only quiet (createBridge fuel K s name)" "only quiet (linkIndexByName fuel K s name)"
  "only quiet (addAddrV4 fuel K s idx a p)" "only quiet (createVethOnBridge fuel K s hn pn pid idx)"
  unfolding createBridge_def linkIndexByName_def addAddrV4_def createVethOnBridge_def nl_transact_def recvAck_def nl_dump_def
  by (auto intro!: only_intros split: option.splits)

lemma only_attempt [only_intros]: "only P m \<Longrightarrow> (\<And>a. only P (f a)) \<Longrightarrow> only P (attempt m d f)"
  unfolding attempt_def by (rule only_bind) (auto intro!: only_intros split: res.splits)

lemma only_logged [only_intros]: "only P m \<Longrightarrow> (\<And>u. only P (f u)) \<Longrightarrow> only P (logged m f)"
  unfolding logged_def by (intro only_intros)

lemma quiet_make_bridges [only_intros]: "only quiet (make_bridges fuel K s specs m)"
proof (induction specs arbitrary: s m)
  case (Cons spec specs)
  have "only quiet (make_bridge fuel K s n)" for s n
    unfolding make_bridge_def Let_def addMasqUplink_def by (intro only_intros) simp
  then show ?case using Cons by (auto intro!: only_intros split: option.splits prod.splits)
qed (simp add: only_intros)

lemma quiet_addServiceDNAT [only_intros]: "only quiet (addServiceDNAT K vip vport b bport proto)"
  unfolding addServiceDNAT_def by (auto intro!: only_intros split: option.splits)

lemma quiet_program_dnat [only_intros]: "only quiet (program_dnat K specs)"
proof (induction specs)
  case (Cons spec specs)
  have "only quiet (dnat_rules K n)" for n unfolding dnat_rules_def by (intro only_intros)
  then show ?case using Cons by (auto intro!: only_intros split: option.splits)
qed (simp add: only_intros)

lemma grows_quiet: "only quiet m \<Longrightarrow> grows m"
  by (erule only_mono) simp

text \<open>The labels of the tenant pods, and what their calls are.\<close>

definition label_call :: "podSpec \<Rightarrow> call option" where
  "label_call s = map_option (\<lambda>a. Prctl prAsterkubeLabelIp (uint (ipToBE a)) (uint (Tenant s)) 0 0) (tenant_pod s)"

definition unlabel_call :: "podSpec \<Rightarrow> call option" where
  "unlabel_call s = map_option (\<lambda>a. Prctl prAsterkubeLabelIp (uint (ipToBE a)) 0 0 0) (tenant_pod s)"

abbreviation mode_call :: "int \<Rightarrow> call" where
  "mode_call mode \<equiv> Prctl prAsterkubeMacMode mode 0 0 0"

lemma grows_label_pods [only_intros]: "grows (label_pods K specs b)"
  by (induction specs arbitrary: b) (auto intro!: only_intros simp: labelIP_def split: option.splits)

lemma label_pods_run:
  "made (label_pods K specs b) h = List.map_filter label_call specs
   \<and> result (label_pods K specs b) h = (b \<or> list_ex (\<lambda>e. is_ok (as_unit (snd e))) (events (label_pods K specs b) h))"
proof (induction specs arbitrary: b h)
  case Nil then show ?case by (simp add: List.map_filter_def)
next
  case (Cons s ss)
  show ?case
  proof (cases "tenant_pod s")
    case None then show ?thesis using Cons by (simp add: List.map_filter_def label_call_def)
  next
    case (Some a)
    let ?c = "Prctl prAsterkubeLabelIp (uint (ipToBE a)) (uint (Tenant s)) 0 0"
    let ?b = "b \<or> is_ok (as_unit (K h ?c))" and ?h = "h @ [(?c, K h ?c)]"
    have "events (label_pods K (s # ss) b) h = (?c, K h ?c) # events (label_pods K ss ?b) ?h"
      using Some by (simp add: labelIP_def) (subst events_bind_grows, auto intro!: only_intros)
    moreover have "result (label_pods K (s # ss) b) h = result (label_pods K ss ?b) ?h"
      using Some by (simp add: labelIP_def)
    ultimately show ?thesis using Cons [of ?b ?h] Some by (auto simp: made_def List.map_filter_def label_call_def)
  qed
qed

lemma grows_labels [only_intros]: "grows (applyTenantLabels K specs)" "grows (cleanupTenantLabels K specs)"
  unfolding applyTenantLabels_def cleanupTenantLabels_def prctlMacMode_def unlabel_def labelIP_def
  by (auto intro!: only_intros split: option.splits)

text \<open>Enforcement is switched on exactly when some label was accepted.\<close>

definition enforce_calls :: "kernel \<Rightarrow> podSpec list \<Rightarrow> hist \<Rightarrow> call list" where
  "enforce_calls K specs h =
     given (list_ex (\<lambda>e. is_ok (as_unit (snd e))) (events (label_pods K specs False) h)) [mode_call macModeEnforcing]"

lemma made_applyTenantLabels:
  "made (applyTenantLabels K specs) h = List.map_filter label_call specs @ enforce_calls K specs h"
  unfolding applyTenantLabels_def enforce_calls_def given_def prctlMacMode_def
  using label_pods_run [of K specs False h]
  by (subst made_bind_grows) (auto intro!: only_intros simp: made_bind_grows only_intros)

lemma made_unlabel:
  "made (State_Monad.traverse_list (unlabel K) specs) h = List.map_filter unlabel_call specs"
proof (induction specs arbitrary: h)
  case Nil then show ?case by (simp add: List.map_filter_def)
next
  case (Cons s ss)
  have g: "grows (unlabel K x)" for x
    unfolding unlabel_def labelIP_def by (auto intro!: only_intros split: option.splits)
  have u: "made (unlabel K s) h = (case unlabel_call s of None \<Rightarrow> [] | Some c \<Rightarrow> [c])"
    by (auto simp: unlabel_def unlabel_call_def labelIP_def made_bind_grows only_intros split: option.splits)
  show ?case
    using Cons.IH made_traverse_Cons [where P = "\<lambda>_. True" and f = "unlabel K" and x = s and xs = ss and h = h, OF g]
    by (auto simp: u List.map_filter_def split: option.splits)
qed

lemma made_cleanupTenantLabels:
  "made (cleanupTenantLabels K specs) h = List.map_filter unlabel_call specs @ [mode_call macModePermissive]"
  unfolding cleanupTenantLabels_def prctlMacMode_def
  by (subst made_bind_grows)
     (auto intro!: only_intros simp: made_unlabel made_bind_grows only_intros unlabel_def labelIP_def split: option.splits)


lemma grows_startPodContainer [only_intros]: "grows (startPodContainer K spec netEnv)"
  unfolding startPodContainer_def by (auto intro!: only_intros)

lemma grows_waitPod [only_intros]: "grows (waitPod K spec ph)"
  unfolding waitPod_def by (auto intro!: only_intros split: reply.splits)

lemma grows_runBridgedPod [only_intros]: "grows (runBridgedPod fuel spec n idx K)"
  unfolding runBridgedPod_def hostSetupVethOnBridge_def signalVethCreated_def
  by (auto intro!: only_intros grows_quiet [OF quiet_nl(1)] grows_quiet [OF quiet_nl(2)] grows_quiet [OF quiet_requests(4)]
      split: option.splits)

lemma grows_pod_job: "j \<in> set (List.map_filter (pod_job fuel m) specs) \<Longrightarrow> grows (j K)"
  by (auto simp: List.map_filter_def pod_job_def only_intros split: option.splits)

lemma concurrent_pods:
  assumes "concurrent par" and jobs: "jobs = List.map_filter (pod_job fuel m) specs"
  shows "grows (par jobs K)"
    and "result (par jobs K) h = Ok () \<Longrightarrow> \<exists>css. interleaving css (made (par jobs K) h)
           \<and> list_all2 (\<lambda>job cs. \<exists>K' h'. cs = made (job K') h') jobs css"
proof -
  have run: "\<exists>evs ev. after (par jobs K) h = h @ ev \<and> interleaving evs ev \<and> list_all2 (job_run (result (par jobs K) h = Ok ())) jobs evs" for h
    using assms(1) grows_pod_job unfolding concurrent_def jobs by metis
  then show "grows (par jobs K)" unfolding only_def by blast
  assume ok: "result (par jobs K) h = Ok ()"
  obtain evs ev where ev: "after (par jobs K) h = h @ ev" "interleaving evs ev" "list_all2 (job_run True) jobs evs"
    using run [of h] ok by auto
  have "list_all2 (\<lambda>job cs. \<exists>K' h'. cs = made (job K') h') jobs (map calls evs)"
    unfolding list.rel_map using ev(3) by (rule list.rel_mono_strong) (auto simp: job_run_def made_def)
  moreover have "interleaving (map calls evs) (made (par jobs K) h)"
    using interleaving_map [OF ev(2), of fst] ev(1) by (simp add: made_def calls_def [abs_def] events_append)
  ultimately show "\<exists>css. interleaving css (made (par jobs K) h) \<and> list_all2 (\<lambda>job cs. \<exists>K' h'. cs = made (job K') h') jobs css"
    by blast
qed

lemma made_quiet: "only quiet m \<Longrightarrow> list_all quiet (made m h)"
  using only_made by (auto simp: list_all_iff)

lemma group_body_trace:
  assumes par: "concurrent par" and ok: "result (group_body fuel par K specs s) h = Ok ()"
  shows "\<exists>m prep hl pods css. result (make_bridges fuel K s specs []) h = Ok m \<and> list_all quiet prep
    \<and> made (group_body fuel par K specs s) h = prep @ List.map_filter label_call specs @ enforce_calls K specs hl @
        pods @ List.map_filter unlabel_call specs @ [mode_call macModePermissive]
    \<and> interleaving css pods \<and> list_all2 (\<lambda>job cs. \<exists>K' h'. cs = made (job K') h') (List.map_filter (pod_job fuel m) specs) css"
proof -
  let ?jobs = "\<lambda>m. List.map_filter (pod_job fuel m) specs"
  let ?c = "State_Monad.bind (cleanupTenantLabels K specs) ok_io"
  let ?p = "\<lambda>m. try_io (par (?jobs m) K) (\<lambda>_. ?c)"
  let ?l = "\<lambda>m. State_Monad.bind (applyTenantLabels K specs) (\<lambda>_. ?p m)"
  let ?d = "\<lambda>m. try_io (program_dnat K specs) (\<lambda>_. ?l m)"
  note b = group_body_def [of fuel par K specs s]
  have gc: "grows ?c" by (intro only_intros)
  have gp: "grows (?p m)" for m by (intro only_intros concurrent_pods(1) [OF par refl])
  have gl: "grows (?l m)" for m by (intro only_bind gp only_intros)
  have gd: "grows (?d m)" for m by (intro only_try_io gl grows_quiet [OF quiet_program_dnat])
  obtain m where m: "result (make_bridges fuel K s specs []) h = Ok m" "result (?d m) (after (make_bridges fuel K s specs []) h) = Ok ()"
    using ok unfolding b by (auto simp: result_try_Ok)
  define h1 where "h1 = after (make_bridges fuel K s specs []) h"
  obtain u where d: "result (program_dnat K specs) h1 = Ok u" "result (?l m) (after (program_dnat K specs) h1) = Ok ()"
    using m(2) by (auto simp: result_try_Ok h1_def)
  define h2 where "h2 = after (program_dnat K specs) h1"
  define h3 where "h3 = after (applyTenantLabels K specs) h2"
  have "result (?p m) h3 = Ok ()" using d(2) unfolding result_bind h2_def h3_def .
  then have p: "result (par (?jobs m) K) h3 = Ok ()" by (auto simp: result_try_Ok)
  have "made (group_body fuel par K specs s) h =
      made (make_bridges fuel K s specs []) h @ made (program_dnat K specs) h1 @ made (applyTenantLabels K specs) h2
      @ made (par (?jobs m) K) h3 @ made (cleanupTenantLabels K specs) (after (par (?jobs m) K) h3)"
    unfolding b made_try_Ok [where f = ?d, OF grows_quiet [OF quiet_make_bridges] gd m(1)] h1_def [symmetric]
      made_try_Ok [where f = "\<lambda>_. ?l m", OF grows_quiet [OF quiet_program_dnat] gl d(1)] h2_def [symmetric]
      made_bind_grows [where f = "\<lambda>_. ?p m", OF grows_labels(1) gp] h3_def [symmetric]
      made_try_Ok [where f = "\<lambda>_. ?c", OF concurrent_pods(1) [OF par refl] gc p]
    by (simp add: made_bind_grows only_intros)
  moreover have "list_all quiet (made (make_bridges fuel K s specs []) h @ made (program_dnat K specs) h1)"
    by (simp add: made_quiet only_intros)
  moreover obtain css where css: "interleaving css (made (par (?jobs m) K) h3)"
      "list_all2 (\<lambda>job cs. \<exists>K' h'. cs = made (job K') h') (?jobs m) css"
    using concurrent_pods(2) [OF par refl p] by blast
  ultimately show ?thesis
    using m(1) css
    by (intro exI [of _ m] exI [of _ "made (make_bridges fuel K s specs []) h @ made (program_dnat K specs) h1"]
        exI [of _ h2] exI [of _ "made (par (?jobs m) K) h3"] exI [of _ css])
       (simp add: made_applyTenantLabels made_cleanupTenantLabels)
qed


lemma grows_group_body: "concurrent par \<Longrightarrow> grows (group_body fuel par K specs s)"
  unfolding group_body_def
  by (intro only_try_io only_bind only_intros grows_quiet [OF quiet_make_bridges] grows_quiet [OF quiet_program_dnat]
      concurrent_pods(1) [OF _ refl])

text \<open>C12 (tenant isolation brackets the pods): for every schedule of the pods, a group that returns has
  first set up bridges and service rules without starting any process; then labelled the address of every
  tenant pod, in order, and switched enforcement on if a label was accepted; only then run the pods
  whose bridge exists, their calls interleaved, each pod's in its own order; and at the end cleared
  every label, gone back to the permissive mode and closed the socket.\<close>

theorem bridged_pods_bracketed:
  assumes "concurrent par" and "result (nlOpen K) h = Ok s" and "result (runBridgedPods fuel par K specs) h = Ok ()"
  shows "\<exists>m prep hl pods css. result (make_bridges fuel K s specs []) (after (nlOpen K) h) = Ok m \<and> list_all quiet prep
    \<and> made (runBridgedPods fuel par K specs) h = prep @ List.map_filter label_call specs @ enforce_calls K specs hl @
        pods @ List.map_filter unlabel_call specs @ [mode_call macModePermissive, CloseFd (so_fd s)]
    \<and> interleaving css pods \<and> list_all2 (\<lambda>job cs. \<exists>K' h'. cs = made (job K') h') (List.map_filter (pod_job fuel m) specs) css"
proof -
  let ?h = "after (nlOpen K) h" and ?b = "group_body fuel par K specs s"
  have r: "result (runBridgedPods fuel par K specs) h = result ?b ?h"
    using assms(2) unfolding runBridgedPods_def attempt_def result_bind by simp
  have g: "grows (defer_io (nlClose K s) (group_body fuel par K specs s))" for s
    by (intro only_defer_io grows_quiet [OF quiet_nl(2)] grows_group_body assms(1))
  have "events (runBridgedPods fuel par K specs) h = events (nlOpen K) h @ events (defer_io (nlClose K s) ?b) ?h"
    unfolding runBridgedPods_def attempt_def using assms(2) g
    by (subst events_bind_grows) (auto intro!: only_intros grows_quiet [OF quiet_nl(1)] split: res.splits)
  also have "events (defer_io (nlClose K s) ?b) ?h = events ?b ?h @ events (nlClose K s) (after ?b ?h)"
    using assms(3) r by (intro events_defer grows_group_body assms(1) grows_quiet [OF quiet_nl(2)]) simp
  finally have m: "made (runBridgedPods fuel par K specs) h = made (nlOpen K) h @ made ?b ?h @ [CloseFd (so_fd s)]"
    by (simp add: made_def nlClose_def)
  have "result ?b ?h = Ok ()" using assms(3) r by simp
  then obtain m prep hl pods css where t: "result (make_bridges fuel K s specs []) ?h = Ok m" "list_all quiet prep"
      "made ?b ?h = prep @ List.map_filter label_call specs @ enforce_calls K specs hl @
        pods @ List.map_filter unlabel_call specs @ [mode_call macModePermissive]"
      "interleaving css pods" "list_all2 (\<lambda>job cs. \<exists>K' h'. cs = made (job K') h') (List.map_filter (pod_job fuel m) specs) css"
    using group_body_trace [OF assms(1)] by blast
  show ?thesis
    by (rule exI [of _ m], rule exI [of _ "made (nlOpen K) h @ prep"], rule exI [of _ hl], rule exI [of _ pods], rule exI [of _ css])
       (use t made_quiet [OF quiet_nl(1), of K h] in \<open>simp add: m\<close>)
qed


text \<open>A kernel on which links cannot be made: the tenant pods are labelled and the labels removed again.\<close>

definition linkless :: kernel where
  "linkless h c = (case c of Socket _ _ _ \<Rightarrow> RInt 3 | Sendto _ _ _ \<Rightarrow> RErr 1 | _ \<Rightarrow> RUnit)"

lemma linkless_runs: "result (runBridgedPods 1 one_by_one linkless buildTenantDemoSpecs) [] = Ok ()"
proof -
  have "result (make_bridges 1 linkless s specs []) h = Ok []" if "list_all (\<lambda>x. Network x \<noteq> None) specs" for s specs h
    using that
  proof (induction specs arbitrary: s h)
    case (Cons x specs)
    then obtain n where n: "Network x = Some n" by auto
    have "result (make_bridge 1 linkless s n) h = Ok (nl_bump s, None)" for s h
      by (simp add: make_bridge_def attempt_def createBridge_def nl_transact_def run_try_io nl_send_def linkless_def Let_def)
    then show ?case using Cons n by (simp add: run_try_io case_prod_beta split: prod.splits)
  qed simp
  moreover have "list_all (\<lambda>x. Network x \<noteq> None) buildTenantDemoSpecs"
    by (simp add: buildTenantDemoSpecs_def tn_pod_def demo_pod_def)
  ultimately have mb: "result (make_bridges 1 linkless s buildTenantDemoSpecs []) h = Ok []" for s h by blast
  have pd: "result (program_dnat linkless buildTenantDemoSpecs) h = Ok ()" for h
    by (simp add: buildTenantDemoSpecs_def tn_pod_def demo_pod_def network0_def)
  have jobs: "List.map_filter (pod_job 1 []) buildTenantDemoSpecs = []"
    by (simp add: buildTenantDemoSpecs_def List.map_filter_def pod_job_def split: option.splits)
  have "result (group_body 1 one_by_one linkless buildTenantDemoSpecs s) h = Ok ()" for s h
    unfolding group_body_def result_try_Ok result_bind
    by (rule exI [of _ "[]"]) (simp add: mb [simplified] pd jobs [simplified] result_try_Ok case_prod_beta)
  then show ?thesis
    unfolding runBridgedPods_def attempt_def result_bind by (simp add: nlOpen_def run_try_io linkless_def)
qed

theorem bridged_pods_bracketed_witness:
  "\<exists>prep hl pods.
     made (runBridgedPods 1 one_by_one linkless buildTenantDemoSpecs) [] = prep @
       [Prctl prAsterkubeLabelIp 0x0AF40702 1 0 0, Prctl prAsterkubeLabelIp 0x0AF40703 2 0 0] @
       enforce_calls linkless buildTenantDemoSpecs hl @ pods @
       [Prctl prAsterkubeLabelIp 0x0AF40702 0 0 0, Prctl prAsterkubeLabelIp 0x0AF40703 0 0 0, mode_call macModePermissive, CloseFd 3]"
proof -
  have o: "result (nlOpen linkless) [] = Ok \<lparr>so_fd = 3, so_seq = 0, so_pid = 0\<rparr>"
    by (simp add: nlOpen_def run_try_io linkless_def)
  have "ipToBE ''10.244.7.2'' = 0x0AF40702" "ipToBE ''10.244.7.3'' = 0x0AF40703" by code_simp+
  then have "List.map_filter label_call buildTenantDemoSpecs =
        [Prctl prAsterkubeLabelIp 0x0AF40702 1 0 0, Prctl prAsterkubeLabelIp 0x0AF40703 2 0 0]"
      "List.map_filter unlabel_call buildTenantDemoSpecs =
        [Prctl prAsterkubeLabelIp 0x0AF40702 0 0 0, Prctl prAsterkubeLabelIp 0x0AF40703 0 0 0]"
    by (simp_all add: buildTenantDemoSpecs_def tn_pod_def demo_pod_def List.map_filter_def label_call_def unlabel_call_def tenant_pod_def)
  then show ?thesis
    using bridged_pods_bracketed [OF concurrent_one_by_one o linkless_runs] by auto
qed



section \<open>The environment that a container sees\<close>

text \<open>\<open>os/exec\<close> keeps the last of several settings of a variable; \<open>os.Getenv\<close> reads it in the container.\<close>

definition getenv_of :: "string list \<Rightarrow> getenv" where
  "getenv_of envs var = (case find (\<lambda>e. hasPrefix e (var @ ''='')) (rev envs) of
       Some e \<Rightarrow> trimPrefix e (var @ ''='') | None \<Rightarrow> [])"

definition bridged_env :: "podSpec \<Rightarrow> podNetwork \<Rightarrow> getenv" where
  "bridged_env spec n = getenv_of (pod_env spec (bridged_net_env n))"

lemma getenv_of_last:
  assumes "es \<noteq> []" and "last es = setting var v"
  shows "getenv_of es var = v"
proof -
  obtain xs where es: "es = xs @ [(var @ ''='') @ v]"
    using assms by (metis append_assoc append_butlast_last_id setting_def)
  show ?thesis unfolding es getenv_of_def rev.simps rev_append by (simp del: append_assoc)
qed

lemma getenv_of_skip:
  "list_all (\<lambda>e. \<not> hasPrefix e (var @ ''='')) es' \<Longrightarrow> getenv_of (es @ es') var = getenv_of es var"
  by (simp add: getenv_of_def find_append list_all_iff find_None_iff [THEN iffD2])

lemma backend_port_env:
  "ServiceRole n \<noteq> [] \<Longrightarrow> bridged_env spec n svcBackendPortEnv = itoa (BackendPort n)"
  unfolding bridged_env_def pod_env_def bridged_net_env_def service_env_def
  by (rule getenv_of_last) (simp_all add: given_def)

lemma net_env_no_tenant: "list_all (\<lambda>e. \<not> hasPrefix e (podTenantEnv @ ''='')) (bridged_net_env n)"
  by (simp add: bridged_net_env_def veth_net_env_def service_env_def given_def setting_def hasPrefix_def podTenantEnv_def
      podIPEnv_def hostIPEnv_def vethPrefxEnv_def peerIPEnv_def tenantProbeIPEnv_def crossPingEnv_def masqRoleEnv_def
      masqUplinkGwEnv_def masqTargetEnv_def svcRoleEnv_def svcVIPEnv_def svcVPortEnv_def svcBackendPortEnv_def)

lemma tenant_env:
  assumes "Tenant spec \<noteq> 0"
  shows "bridged_env spec n podTenantEnv = nat_digits (unat (Tenant spec))"
proof -
  have "pod_env spec (bridged_net_env n) =
      (Env spec @ [setting podHostnameEnv (Hostname spec), setting podTenantEnv (nat_digits (unat (Tenant spec)))]) @ bridged_net_env n"
    using assms by (simp add: pod_env_def)
  then show ?thesis
    unfolding bridged_env_def by (simp only: getenv_of_skip [OF net_env_no_tenant]) (rule getenv_of_last, simp_all)
qed

end
