(* ===== verification/Polling.thy ===== *)
theory Polling
  imports OsModel
begin

text \<open>
  Waiting for a datagram with a deadline, as the DHCP client and the echo test do it: the clock is read,
  the socket is polled without blocking, a datagram that is not wanted is skipped. The interface is the
  locale \<open>poll_loop\<close>: its laws are the equations of such a loop, its lemmas say that the loop returns
  when the clock runs, and that what it returns was received.
\<close>

section \<open>Time\<close>

text \<open>A kernel whose clock runs: a reading takes at least a nanosecond, a sleep at least its
  duration, and no call turns the clock back.\<close>

definition call_time :: "call \<Rightarrow> int" where
  "call_time c = (case c of Now \<Rightarrow> 1 | Sleep d \<Rightarrow> max 0 d | _ \<Rightarrow> 0)"

definition clocked :: "kernel \<Rightarrow> (hist \<Rightarrow> int) \<Rightarrow> bool" where
  "clocked K clock \<longleftrightarrow> (\<forall>h. K h Now = RInt (clock h)) \<and>
     (\<forall>h c r. clock h + call_time c \<le> clock (h @ [(c, r)]))"

lemma clocked_now: "clocked K clock \<Longrightarrow> K h Now = RInt (clock h)"
  by (simp add: clocked_def)

lemma clocked_step: "clocked K clock \<Longrightarrow> clock h + call_time c \<le> clock (h @ [(c, r)])"
  by (simp add: clocked_def)

lemma clocked_le: "clocked K clock \<Longrightarrow> clock h \<le> clock (h @ [(c, r)])"
  using clocked_step [of K clock h c r] by (cases c) (auto simp: call_time_def)

lemma clocked_Now: "clocked K clock \<Longrightarrow> clock h + 1 \<le> clock (h @ [(Now, r)])"
  using clocked_step [of K clock h Now r] by (simp add: call_time_def)

text \<open>A quiet network: every receive would block, and time passes as the calls demand.\<close>

definition spent :: "hist \<Rightarrow> int" where
  "spent h = sum_list (map (call_time \<circ> fst) h)"

definition quiet_net :: kernel where
  "quiet_net h c = (case c of Now \<Rightarrow> RInt (spent h) | Recvfrom fd n \<Rightarrow> RErr EAGAIN | _ \<Rightarrow> RUnit)"

lemma clocked_quiet_net: "clocked quiet_net spent"
  by (simp add: clocked_def quiet_net_def spent_def)


lemma try_returns:
  "result m h \<noteq> Hang \<Longrightarrow> (\<And>a. result m h = Ok a \<Longrightarrow> result (f a) (after m h) \<noteq> Hang) \<Longrightarrow> result (try_io m f) h \<noteq> Hang"
  by (auto simp: run_try_io case_prod_beta split: res.splits)


text \<open>A descriptor that is opened first and closed by a deferred call.\<close>

lemma opened_closed:
  assumes "result (try_io (wrap_io s (os_int K c)) (\<lambda>fd. defer_io (os_ignore K (CloseFd fd)) (body fd))) h = Ok a"
    and "\<And>fd. grows (body fd)"
  shows "\<exists>fd r. K h c = RInt fd \<and> result (body fd) (h @ [(c, RInt fd)]) = Ok a
    \<and> events (try_io (wrap_io s (os_int K c)) (\<lambda>fd. defer_io (os_ignore K (CloseFd fd)) (body fd))) h =
        (c, RInt fd) # events (body fd) (h @ [(c, RInt fd)]) @ [(CloseFd fd, r)]"
proof -
  let ?d = "\<lambda>fd. defer_io (os_ignore K (CloseFd fd)) (body fd)"
  obtain fd where fd: "result (wrap_io s (os_int K c)) h = Ok fd" "result (?d fd) (after (wrap_io s (os_int K c)) h) = Ok a"
    using assms(1) unfolding result_try_Ok by blast
  have k: "K h c = RInt fd" using fd(1) by (cases "K h c") auto
  have b: "result (body fd) (h @ [(c, RInt fd)]) = Ok a" using fd(2) k by simp
  have "events (try_io (wrap_io s (os_int K c)) ?d) h =
      events (wrap_io s (os_int K c)) h @ events (?d fd) (after (wrap_io s (os_int K c)) h)"
    using assms(2) by (intro events_try_Ok fd(1) only_intros) auto
  moreover have "events (?d fd) (h @ [(c, RInt fd)]) = events (body fd) (h @ [(c, RInt fd)]) @ events (os_ignore K (CloseFd fd)) (after (body fd) (h @ [(c, RInt fd)]))"
    using assms(2) b by (intro events_defer only_intros) auto
  ultimately show ?thesis using k b by simp
qed


section \<open>The loop\<close>

locale poll_loop =
  fixes loop :: "nat \<Rightarrow> kernel \<Rightarrow> int \<Rightarrow> int \<Rightarrow> 'a res io"
    and wanted :: "bytes \<Rightarrow> 'a option res"
    and late :: goerr
    and broken :: "goerr \<Rightarrow> goerr"
    and pause :: int
  assumes loop_0: "loop 0 K fd deadline = State_Monad.return Hang"
    and loop_Suc: "loop (Suc fuel) K fd deadline =
       State_Monad.bind (os_now K) (\<lambda>now.
         if \<not> now < deadline then err_io late
         else State_Monad.bind (os_bytes K (Recvfrom fd 1500)) (\<lambda>r. case r of
             Err e \<Rightarrow> if e = Errno EAGAIN then State_Monad.bind (os_ignore K (Sleep pause)) (\<lambda>_. loop fuel K fd deadline)
                     else err_io (broken e)
           | Ok pkt \<Rightarrow> (case wanted pkt of
                 Ok got \<Rightarrow> (case got of Some a \<Rightarrow> ok_io a | None \<Rightarrow> loop fuel K fd deadline)
               | Err e \<Rightarrow> err_io e
               | Panic \<Rightarrow> State_Monad.return Panic
               | Hang \<Rightarrow> State_Monad.return Hang)
           | _ \<Rightarrow> State_Monad.return Panic))"
    and decides: "wanted pkt \<noteq> Hang"
begin

lemma only_loop:
  "P Now \<Longrightarrow> P (Recvfrom fd 1500) \<Longrightarrow> P (Sleep pause) \<Longrightarrow> only P (loop fuel K fd deadline)"
  by (induction fuel) (auto simp: loop_0 loop_Suc intro!: only_intros split: res.splits option.splits)

lemma loop_returns:
  assumes "clocked K clock" and "deadline - clock h < int fuel" and "0 < fuel"
  shows "result (loop fuel K fd deadline) h \<noteq> Hang"
  using assms(2,3)
proof (induction fuel arbitrary: h)
  case (Suc fuel)
  let ?h1 = "h @ [(Now, RInt (clock h))]"
  let ?h2 = "?h1 @ [(Recvfrom fd 1500, K ?h1 (Recvfrom fd 1500))]"
  let ?h3 = "?h2 @ [(Sleep pause, K ?h2 (Sleep pause))]"
  have t: "clock h + 1 \<le> clock ?h1" "clock ?h1 \<le> clock ?h2" "clock ?h2 \<le> clock ?h3"
    using assms(1) by (blast intro: clocked_Now clocked_le)+
  note now = clocked_now [OF assms(1), of h]
  show ?case
  proof (cases "clock h < deadline")
    case False
    then show ?thesis by (simp add: now loop_Suc)
  next
    case True
    then have "0 < fuel" using Suc.prems by simp
    then have "result (loop fuel K fd deadline) ?h2 \<noteq> Hang" "result (loop fuel K fd deadline) ?h3 \<noteq> Hang"
      using Suc.prems t Suc.IH [of ?h2] Suc.IH [of ?h3] by simp_all
    then show ?thesis using True decides
      by (cases "as_bytes (K ?h1 (Recvfrom fd 1500))") (auto simp: now loop_Suc split: option.splits res.splits)
  qed
qed simp

lemma loop_sound:
  assumes "result (loop fuel K fd deadline) h = Ok a"
  shows "\<exists>pkt. (Recvfrom fd 1500, RBytes pkt) \<in> set (events (loop fuel K fd deadline) h) \<and> wanted pkt = Ok (Some a)"
  using assms
proof (induction fuel arbitrary: h)
  case 0
  then show ?case by (simp add: loop_0)
next
  case (Suc fuel)
  let ?m = "loop fuel K fd deadline"
  let ?h1 = "h @ [(Now, K h Now)]"
  let ?h2 = "?h1 @ [(Recvfrom fd 1500, K ?h1 (Recvfrom fd 1500))]"
  let ?h3 = "?h2 @ [(Sleep pause, K ?h2 (Sleep pause))]"
  have ev: "after ?m h' = h' @ events ?m h'" for h'
    by (rule after_events [OF only_loop]) (rule TrueI)+
  have IH: "\<exists>pkt. (Recvfrom fd 1500, RBytes pkt) \<in> set (drop (length h) (after ?m h')) \<and> wanted pkt = Ok (Some a)"
    if "result ?m h' = Ok a" "length h \<le> length h'" for h'
    using Suc.IH [OF that(1)] that(2) by (auto simp: ev [of h'])
  have now: "\<not> (case K h Now of RInt n \<Rightarrow> n | _ \<Rightarrow> 0) \<ge> deadline"
    using Suc.prems by (auto simp: loop_Suc split: if_splits)
  consider (pkt) pkt where "K ?h1 (Recvfrom fd 1500) = RBytes pkt" "wanted pkt = Ok (Some a)"
    | (more) pkt where "K ?h1 (Recvfrom fd 1500) = RBytes pkt" "wanted pkt = Ok None" "result ?m ?h2 = Ok a"
    | (again) "as_bytes (K ?h1 (Recvfrom fd 1500)) = Err (Errno EAGAIN)" "result ?m ?h3 = Ok a"
    using Suc.prems now
    by (cases "K ?h1 (Recvfrom fd 1500)") (auto simp: loop_Suc split: option.splits res.splits if_splits)
  then show ?case
  proof cases
    case pkt
    then show ?thesis using now by (intro exI [of _ pkt]) (auto simp: events_def loop_Suc)
  next
    case more
    then show ?thesis using now IH [of ?h2] by (auto simp: events_def loop_Suc)
  next
    case again
    then show ?thesis using now IH [of ?h3] by (auto simp: events_def loop_Suc)
  qed
qed

end

end
