(* ===== verification/Dhcp.thy ===== *)
theory Dhcp
  imports Netlink Polling
begin

text \<open>
  The DHCPv4 client of \<open>dhcp_linux.go\<close>: packets and options, the wait for a reply with its
  deadline, acquiring and renewing a lease, applying it, and the renewal timers. Times are
  nanoseconds: \<open>int\<close> for clock readings, \<open>64 word\<close> for \<open>time.Duration\<close> values computed from a
  lease, where overflow matters.
\<close>

section \<open>Constants and the lease\<close>

definition dhcpServerPort :: nat where "dhcpServerPort = 67"
definition dhcpClientPort :: nat where "dhcpClientPort = 68"
definition bootpRequest :: byte where "bootpRequest = 1"
definition bootpReply :: byte where "bootpReply = 2"
definition htypeEth :: byte where "htypeEth = 1"
definition dhcpDiscover :: byte where "dhcpDiscover = 1"
definition dhcpOffer :: byte where "dhcpOffer = 2"
definition dhcpRequest :: byte where "dhcpRequest = 3"
definition dhcpAck :: byte where "dhcpAck = 5"
definition optSubnetMask :: byte where "optSubnetMask = 1"
definition optRouter :: byte where "optRouter = 3"
definition optDNS :: byte where "optDNS = 6"
definition optRequestedIP :: byte where "optRequestedIP = 50"
definition optLeaseTime :: byte where "optLeaseTime = 51"
definition optMsgType :: byte where "optMsgType = 53"
definition optServerID :: byte where "optServerID = 54"
definition optParamList :: byte where "optParamList = 55"
definition optEnd :: byte where "optEnd = 255"
definition dhcpFlagBroadcast :: "16 word" where "dhcpFlagBroadcast = 0x8000"
definition dhcpMagicCookie :: bytes where "dhcpMagicCookie = [0x63, 0x82, 0x53, 0x63]"

lemmas dhcp_opt_defs = optSubnetMask_def optRouter_def optDNS_def optRequestedIP_def
  optLeaseTime_def optMsgType_def optServerID_def optParamList_def optEnd_def
lemmas dhcp_msg_defs = dhcpDiscover_def dhcpOffer_def dhcpRequest_def dhcpAck_def
  bootpRequest_def bootpReply_def htypeEth_def

record dhcpLease =
  l_ip :: ip
  l_mask :: "bytes option"
  l_gateway :: ip
  l_dns :: "ip list"
  l_serverID :: ip
  l_leaseSec :: "32 word"


section \<open>Packets\<close>

text \<open>An option is its code, the length of its value in one byte, and the value.\<close>

definition opt_enc :: "byte \<times> bytes \<Rightarrow> bytes" where
  "opt_enc cv = fst cv # of_nat (length (snd cv)) # snd cv"

definition v4_opt :: "byte \<Rightarrow> ip \<Rightarrow> bytes" where
  "v4_opt code a = (case to4 a of None \<Rightarrow> [] | Some v4 \<Rightarrow> [code, 4] @ v4)"

definition bootp_header :: "bytes \<Rightarrow> 32 word \<Rightarrow> ip \<Rightarrow> bool \<Rightarrow> bytes" where
  "bootp_header mac xid ciaddr broadcast =
     (let p = replicate 240 0;
          p = p[0 := bootpRequest, 1 := htypeEth, 2 := 6];
          p = copy_range 4 8 (be32 xid) p;
          p = (if broadcast then copy_range 10 12 (be16 dhcpFlagBroadcast) p else p);
          p = (case to4 ciaddr of None \<Rightarrow> p | Some v4 \<Rightarrow> copy_range 12 16 v4 p);
          p = copy_range 28 34 mac p
      in copy_range 236 240 dhcpMagicCookie p)"

definition buildDHCP :: "byte \<Rightarrow> bytes \<Rightarrow> 32 word \<Rightarrow> ip \<Rightarrow> ip \<Rightarrow> ip \<Rightarrow> bool \<Rightarrow> bytes" where
  "buildDHCP msgType mac xid ciaddr reqIP serverID broadcast =
     (let opts = [optMsgType, 1, msgType];
          opts = opts @ v4_opt optRequestedIP reqIP;
          opts = opts @ v4_opt optServerID serverID;
          opts = opts @ [optParamList, 5, optSubnetMask, optRouter, optDNS, optLeaseTime, optServerID];
          opts = opts @ [optEnd]
      in bootp_header mac xid ciaddr broadcast @ opts)"

text \<open>\<open>for j := 0; j+4 <= l; j += 4\<close>: the whole four-byte groups of the DNS option.\<close>

fun chunks4 :: "bytes \<Rightarrow> ip list" where
  "chunks4 (a # b # c # d # rest) = Some [a, b, c, d] # chunks4 rest"
| "chunks4 _ = []"

text \<open>The switch on the option code; the state is the message type and the lease.\<close>

definition apply_opt :: "byte \<times> bytes \<Rightarrow> byte \<times> dhcpLease \<Rightarrow> byte \<times> dhcpLease" where
  "apply_opt cv st = (case (cv, st) of ((code, v), (mt, l)) \<Rightarrow>
     if code = optMsgType then (if length v = 1 then (v ! 0, l) else (mt, l))
     else if code = optSubnetMask then (mt, if length v = 4 then l\<lparr>l_mask := Some v\<rparr> else l)
     else if code = optRouter then (mt, if length v \<ge> 4 then l\<lparr>l_gateway := Some (take 4 v)\<rparr> else l)
     else if code = optDNS then (mt, l\<lparr>l_dns := l_dns l @ chunks4 v\<rparr>)
     else if code = optServerID then (mt, if length v = 4 then l\<lparr>l_serverID := Some v\<rparr> else l)
     else if code = optLeaseTime then (mt, if length v = 4 then l\<lparr>l_leaseSec := get_be32 v\<rparr> else l)
     else (mt, l))"

text \<open>One option off the front: the loop stops when the length byte or the value is cut off.\<close>

definition opt_step :: "bytes \<Rightarrow> ((byte \<times> bytes) \<times> bytes) option" where
  "opt_step opts = (case opts of
       code # n # rest \<Rightarrow>
         if length rest < unat n then None
         else Some ((code, take (unat n) rest), drop (unat n) rest)
     | _ \<Rightarrow> None)"

lemma opt_step_shorter: "opt_step b = Some (cv, rest) \<Longrightarrow> length rest < length b"
  by (auto simp: opt_step_def split: list.splits if_splits)

function opt_loop :: "bytes \<Rightarrow> byte \<times> dhcpLease \<Rightarrow> byte \<times> dhcpLease" where
  "opt_loop opts st = (case opts of
       [] \<Rightarrow> st
     | code # rest \<Rightarrow>
         if code = optEnd then st
         else if code = 0 then opt_loop rest st
         else (case opt_step opts of
                 None \<Rightarrow> st
               | Some (cv, rest') \<Rightarrow> opt_loop rest' (apply_opt cv st)))"
  by pat_completeness auto
termination
  by (relation "measure (\<lambda>(opts, st). length opts)") (auto dest: opt_step_shorter)

declare opt_loop.simps [simp del]

definition parseOptions :: "bytes \<Rightarrow> dhcpLease \<Rightarrow> byte \<times> dhcpLease" where
  "parseOptions opts lease = opt_loop opts (0, lease)"


section \<open>Waiting for a reply\<close>

definition empty_lease :: "bytes \<Rightarrow> dhcpLease" where
  "empty_lease yiaddr =
     \<lparr>l_ip = Some yiaddr, l_mask = None, l_gateway = None, l_dns = [], l_serverID = None, l_leaseSec = 0\<rparr>"

text \<open>The filter on one datagram: too short, not a reply, another transaction or another message
  type means that the loop goes on.\<close>

definition match_reply :: "32 word \<Rightarrow> byte \<Rightarrow> bytes \<Rightarrow> dhcpLease option" where
  "match_reply xid want pkt =
     (if length pkt < 240 then None
      else if pkt ! 0 \<noteq> bootpReply \<or> get_be32 (drop 4 pkt) \<noteq> xid then None
      else (case parseOptions (drop 240 pkt) (empty_lease (take 4 (drop 16 pkt))) of
              (mt, lease) \<Rightarrow> if mt = want then Some lease else None))"

definition dhcp_timeout :: "byte \<Rightarrow> goerr" where
  "dhcp_timeout want = Text (''timed out waiting for DHCP message type '' @ nat_digits (unat want))"

fun recv_poll :: "nat \<Rightarrow> kernel \<Rightarrow> int \<Rightarrow> 32 word \<Rightarrow> byte \<Rightarrow> int \<Rightarrow> dhcpLease res io" where
  "recv_poll 0 K fd xid want deadline = State_Monad.return Hang"
| "recv_poll (Suc fuel) K fd xid want deadline =
     State_Monad.bind (os_now K) (\<lambda>now.
       if \<not> now < deadline then err_io (dhcp_timeout want)
       else State_Monad.bind (os_bytes K (Recvfrom fd 1500)) (\<lambda>r. case r of
           Err e \<Rightarrow>
             if e = Errno EAGAIN
             then State_Monad.bind (os_ignore K (Sleep 50000000)) (\<lambda>_. recv_poll fuel K fd xid want deadline)
             else err_io e
         | Ok pkt \<Rightarrow> (case match_reply xid want pkt of
               Some lease \<Rightarrow> ok_io lease
             | None \<Rightarrow> recv_poll fuel K fd xid want deadline)
         | _ \<Rightarrow> State_Monad.return Panic))"

definition recvDHCP :: "nat \<Rightarrow> kernel \<Rightarrow> int \<Rightarrow> 32 word \<Rightarrow> byte \<Rightarrow> int \<Rightarrow> dhcpLease res io" where
  "recvDHCP fuel K fd xid want timeout =
     State_Monad.bind (os_now K) (\<lambda>now. recv_poll fuel K fd xid want (now + timeout))"


section \<open>Acquiring and renewing a lease\<close>

text \<open>Both clients open the socket the same way and close it when they return.\<close>

definition with_dhcp_socket :: "kernel \<Rightarrow> (int \<Rightarrow> 'a res io) \<Rightarrow> 'a res io" where
  "with_dhcp_socket K body =
     try_io (wrap_io ''socket'' (os_int K (Socket 2 2 0))) (\<lambda>fd.
     defer_io (os_ignore K (CloseFd fd)) (
       State_Monad.bind (os_ignore K (SetNonblock fd)) (\<lambda>_.
       State_Monad.bind (os_ignore K (Setsockopt fd 1 6 1)) (\<lambda>_.
       State_Monad.bind (os_ignore K (Setsockopt fd 1 2 1)) (\<lambda>_.
       try_io (wrap_io ''bind :68'' (os_unit K (Bind fd (Inet4 [0, 0, 0, 0] dhcpClientPort)))) (\<lambda>_.
       body fd))))))"

definition dhcp_bcast :: sockaddr where
  "dhcp_bcast = Inet4 [255, 255, 255, 255] dhcpServerPort"

definition discover_packet :: "bytes \<Rightarrow> 32 word \<Rightarrow> bytes" where
  "discover_packet mac xid = buildDHCP dhcpDiscover mac xid None None None True"

definition request_packet :: "bytes \<Rightarrow> 32 word \<Rightarrow> dhcpLease \<Rightarrow> bytes" where
  "request_packet mac xid offer = buildDHCP dhcpRequest mac xid None (l_ip offer) (l_serverID offer) True"

fun discover :: "nat \<Rightarrow> nat \<Rightarrow> kernel \<Rightarrow> int \<Rightarrow> bytes \<Rightarrow> 32 word \<Rightarrow> dhcpLease option res io" where
  "discover fuel 0 K fd mac xid = ok_io None"
| "discover fuel (Suc tries) K fd mac xid =
     try_io (wrap_io ''send DISCOVER'' (os_unit K (Sendto fd (discover_packet mac xid) dhcp_bcast))) (\<lambda>_.
     State_Monad.bind (recvDHCP fuel K fd xid dhcpOffer 2000000000) (\<lambda>r. case r of
         Ok offer \<Rightarrow> ok_io (Some offer)
       | Err e \<Rightarrow> discover fuel tries K fd mac xid
       | Panic \<Rightarrow> State_Monad.return Panic
       | Hang \<Rightarrow> State_Monad.return Hang))"

definition merge_offer :: "dhcpLease \<Rightarrow> dhcpLease \<Rightarrow> dhcpLease" where
  "merge_offer offer ack =
     (let ack = (if l_mask ack = None then ack\<lparr>l_mask := l_mask offer\<rparr> else ack);
          ack = (if l_gateway ack = None then ack\<lparr>l_gateway := l_gateway offer\<rparr> else ack);
          ack = (if l_dns ack = [] then ack\<lparr>l_dns := l_dns offer\<rparr> else ack)
      in if l_mask ack = None then ack\<lparr>l_mask := Some cidr_mask24\<rparr> else ack)"

text \<open>The \<open>timeout\<close> argument is not used by the code: the waits are two and four seconds.\<close>

definition dhcpAcquire :: "nat \<Rightarrow> kernel \<Rightarrow> bytes \<Rightarrow> 32 word \<Rightarrow> int \<Rightarrow> dhcpLease res io" where
  "dhcpAcquire fuel K mac xid timeout =
     with_dhcp_socket K (\<lambda>fd.
       try_io (discover fuel 3 K fd mac xid) (\<lambda>got. case got of
           None \<Rightarrow> err_io (Text ''no DHCPOFFER'')
         | Some offer \<Rightarrow>
             try_io (wrap_io ''send REQUEST'' (os_unit K (Sendto fd (request_packet mac xid offer) dhcp_bcast))) (\<lambda>_.
             try_io (wrap_io ''no DHCPACK'' (recvDHCP fuel K fd xid dhcpAck 4000000000)) (\<lambda>ack.
             ok_io (merge_offer offer ack)))))"

definition renew_dst :: "dhcpLease \<Rightarrow> bool \<Rightarrow> sockaddr" where
  "renew_dst lease rebind =
     (if rebind then dhcp_bcast
      else case to4 (l_serverID lease) of None \<Rightarrow> dhcp_bcast | Some v4 \<Rightarrow> Inet4 v4 dhcpServerPort)"

definition carry_forward :: "dhcpLease \<Rightarrow> dhcpLease \<Rightarrow> dhcpLease" where
  "carry_forward lease ack =
     (let ack = (if l_mask ack = None then ack\<lparr>l_mask := l_mask lease\<rparr> else ack);
          ack = (if l_gateway ack = None then ack\<lparr>l_gateway := l_gateway lease\<rparr> else ack);
          ack = (if l_dns ack = [] then ack\<lparr>l_dns := l_dns lease\<rparr> else ack);
          ack = (if l_serverID ack = None then ack\<lparr>l_serverID := l_serverID lease\<rparr> else ack);
          ack = (if l_leaseSec ack = 0 then ack\<lparr>l_leaseSec := l_leaseSec lease\<rparr> else ack)
      in if l_ip ack = None \<or> isUnspecified (l_ip ack) then ack\<lparr>l_ip := l_ip lease\<rparr> else ack)"

definition dhcpRenew :: "nat \<Rightarrow> kernel \<Rightarrow> bytes \<Rightarrow> dhcpLease \<Rightarrow> bool \<Rightarrow> dhcpLease res io" where
  "dhcpRenew fuel K mac lease rebind =
     with_dhcp_socket K (\<lambda>fd.
       State_Monad.bind (os_now K) (\<lambda>now.
       let xid = word_of_int now in
       try_io (wrap_io ''send REQUEST''
                (os_unit K (Sendto fd (buildDHCP dhcpRequest mac xid (l_ip lease) None None rebind)
                                      (renew_dst lease rebind)))) (\<lambda>_.
       try_io (recvDHCP fuel K fd xid dhcpAck 4000000000) (\<lambda>ack.
       ok_io (carry_forward lease ack)))))"


section \<open>Applying a lease\<close>

definition writeResolvConf :: "kernel \<Rightarrow> ip list \<Rightarrow> unit io" where
  "writeResolvConf K dns =
     (if dns = [] then State_Monad.return ()
      else os_ignore K (WriteFile ''/etc/resolv.conf''
             (concat (map (\<lambda>d. ''nameserver '' @ ip_string d @ [CHR 0x0A]) dns)) 420))"

definition has_gateway :: "dhcpLease \<Rightarrow> bool" where
  "has_gateway lease \<longleftrightarrow> l_gateway lease \<noteq> None \<and> \<not> isUnspecified (l_gateway lease)"

text \<open>The socket after \<open>addAddrV4\<close>: a request was sent unless the address is not IPv4.\<close>

definition after_addr :: "nlSocket \<Rightarrow> ip \<Rightarrow> nlSocket" where
  "after_addr s a = (if to4 a = None then s else nl_bump s)"

definition applyLeaseDelta :: "nat \<Rightarrow> kernel \<Rightarrow> int \<Rightarrow> dhcpLease \<Rightarrow> unit res io" where
  "applyLeaseDelta fuel K idx lease =
     (let write = State_Monad.bind (writeResolvConf K (l_dns lease)) ok_io
      in State_Monad.bind (nlOpen K) (\<lambda>r. case r of
          Ok s \<Rightarrow>
            ignore_io (addAddrV4 fuel K s idx (l_ip lease) (int (mask_size (l_mask lease)))) (
            ignore_io (if has_gateway lease
                       then addDefaultRouteV4 fuel K (after_addr s (l_ip lease)) (l_gateway lease) idx
                       else ok_io ()) (
            State_Monad.bind (nlClose K s) (\<lambda>_. write)))
        | Err e \<Rightarrow> write
        | Panic \<Rightarrow> State_Monad.return Panic
        | Hang \<Rightarrow> State_Monad.return Hang))"

text \<open>
  \<open>dhcpFirst\<close>: \<open>Some (mac, idx, lease)\<close> when it returns true, sets \<open>networkConfigured\<close> and
  starts \<open>dhcpRenewLoop(mac, idx, lease)\<close>; \<open>None\<close> when it returns false.
\<close>

definition fallback_mac :: bytes where
  "fallback_mac = [0x02, 0, 0, 0, 0, 1]"

definition or_skip :: "'a res io \<Rightarrow> ('a \<Rightarrow> 'b option res io) \<Rightarrow> 'b option res io" where
  "or_skip m f = State_Monad.bind m (\<lambda>r. case r of
       Ok a \<Rightarrow> f a
     | Err e \<Rightarrow> ok_io None
     | Panic \<Rightarrow> State_Monad.return Panic
     | Hang \<Rightarrow> State_Monad.return Hang)"

definition dhcp_link :: "nat \<Rightarrow> kernel \<Rightarrow> string \<Rightarrow> (int \<times> bytes option) res io" where
  "dhcp_link fuel K iface =
     try_io (nlOpen K) (\<lambda>s.
     State_Monad.bind (linkByName fuel K s iface) (\<lambda>r. case r of
         Panic \<Rightarrow> State_Monad.return Panic
       | Hang \<Rightarrow> State_Monad.return Hang
       | _ \<Rightarrow> State_Monad.bind (nlClose K s) (\<lambda>_. State_Monad.return r)))"

definition dhcpFirst :: "nat \<Rightarrow> kernel \<Rightarrow> string \<Rightarrow> (bytes \<times> int \<times> dhcpLease) option res io" where
  "dhcpFirst fuel K iface =
     or_skip (dhcp_link fuel K iface) (\<lambda>(idx, mac0).
     let mac = (case mac0 of None \<Rightarrow> fallback_mac | Some m \<Rightarrow> m) in
     State_Monad.bind (os_now K) (\<lambda>now.
     or_skip (dhcpAcquire fuel K mac (word_of_int now) 4000000000) (\<lambda>lease.
     or_skip (nlOpen K) (\<lambda>s.
     defer_io (nlClose K s) (
       or_skip (addAddrV4 fuel K s idx (l_ip lease) (int (mask_size (l_mask lease)))) (\<lambda>_.
       ignore_io (if has_gateway lease
                  then addDefaultRouteV4 fuel K (nl_bump s) (l_gateway lease) idx else ok_io ()) (
       State_Monad.bind (writeResolvConf K (l_dns lease)) (\<lambda>_.
       ok_io (Some (mac, idx, lease))))))))))"


section \<open>The renewal loop\<close>

text \<open>Go's integer division truncates towards zero.\<close>

definition go_quot :: "int \<Rightarrow> int \<Rightarrow> int" where
  "go_quot a b = (if (a < 0) = (b < 0) then \<bar>a\<bar> div \<bar>b\<bar> else - (\<bar>a\<bar> div \<bar>b\<bar>))"

definition dur_quot :: "64 word \<Rightarrow> int \<Rightarrow> 64 word" where
  "dur_quot d k = word_of_int (go_quot (sint d) k)"

definition lease_duration :: "32 word \<Rightarrow> 64 word" where
  "lease_duration sec = (let dur = ucast sec * 1000000000 in
     if sint dur \<le> 0 then 3600000000000 else dur)"

definition renew_times :: "string \<Rightarrow> 32 word \<Rightarrow> 64 word \<times> 64 word" where
  "renew_times env sec =
     (let dur = lease_duration sec; t1 = dur_quot dur 2; t2 = dur_quot (dur * 7) 8; s = trimSpace env
      in if s = [] then (t1, t2)
         else (case atoi s of
             Some n \<Rightarrow> if n > 0 then (let t1 = word_of_int n * 1000000000 in (t1, t1 + dur_quot t1 2)) else (t1, t2)
           | None \<Rightarrow> (t1, t2)))"

text \<open>Try \<open>m\<close>; its value ends the round through \<open>f\<close>, an error goes on with \<open>n\<close>.\<close>

definition or_else :: "'a res io \<Rightarrow> ('a \<Rightarrow> 'b res io) \<Rightarrow> 'b res io \<Rightarrow> 'b res io" where
  "or_else m f n = State_Monad.bind m (\<lambda>r. case r of
       Ok a \<Rightarrow> f a
     | Err e \<Rightarrow> n
     | Panic \<Rightarrow> State_Monad.return Panic
     | Hang \<Rightarrow> State_Monad.return Hang)"

definition adopt :: "nat \<Rightarrow> kernel \<Rightarrow> int \<Rightarrow> dhcpLease \<Rightarrow> dhcpLease res io" where
  "adopt fuel K idx lease = try_io (applyLeaseDelta fuel K idx lease) (\<lambda>_. ok_io lease)"

text \<open>One turn of the loop body gives the lease of the next turn.\<close>

definition renew_round :: "nat \<Rightarrow> kernel \<Rightarrow> string \<Rightarrow> bytes \<Rightarrow> int \<Rightarrow> dhcpLease \<Rightarrow> dhcpLease res io" where
  "renew_round fuel K env mac idx lease =
     (case renew_times env (l_leaseSec lease) of (t1, t2) \<Rightarrow>
       State_Monad.bind (os_ignore K (Sleep (sint t1))) (\<lambda>_.
       or_else (dhcpRenew fuel K mac lease False) (adopt fuel K idx) (
       State_Monad.bind (os_ignore K (Sleep (sint (t2 - t1)))) (\<lambda>_.
       or_else (dhcpRenew fuel K mac lease True) (adopt fuel K idx) (
       State_Monad.bind (os_now K) (\<lambda>now.
       or_else (dhcpAcquire fuel K mac (word_of_int now) 4000000000) (adopt fuel K idx) (
       State_Monad.bind (os_ignore K (Sleep 30000000000)) (\<lambda>_. ok_io lease))))))))"

fun renew_rounds :: "nat \<Rightarrow> nat \<Rightarrow> kernel \<Rightarrow> string \<Rightarrow> bytes \<Rightarrow> int \<Rightarrow> dhcpLease \<Rightarrow> dhcpLease res io" where
  "renew_rounds fuel 0 K env mac idx lease = ok_io lease"
| "renew_rounds fuel (Suc n) K env mac idx lease =
     try_io (renew_round fuel K env mac idx lease) (\<lambda>lease. renew_rounds fuel n K env mac idx lease)"

text \<open>The loop never ends; \<open>dhcpRenewLoop fuel n\<close> is the lease after the self-test and \<open>n\<close> turns.\<close>

definition dhcpRenewLoop :: "nat \<Rightarrow> nat \<Rightarrow> kernel \<Rightarrow> string \<Rightarrow> bytes \<Rightarrow> int \<Rightarrow> dhcpLease \<Rightarrow> dhcpLease res io" where
  "dhcpRenewLoop fuel n K env mac idx lease =
     try_io (or_else (dhcpRenew fuel K mac lease False) ok_io
              (or_else (dhcpRenew fuel K mac lease True) ok_io (ok_io lease)))
       (\<lambda>lease. renew_rounds fuel n K env mac idx lease)"


section \<open>Correctness of the packets\<close>

definition opt_ok :: "byte \<times> bytes \<Rightarrow> bool" where
  "opt_ok cv \<longleftrightarrow> fst cv \<noteq> 0 \<and> fst cv \<noteq> optEnd \<and> length (snd cv) < 256"

interpretation options: framing opt_enc opt_step opt_ok
proof
  show "opt_enc cv \<noteq> []" for cv by (simp add: opt_enc_def)
  show "opt_step (opt_enc cv @ rest) = Some (cv, rest)" if "opt_ok cv" for cv rest
  proof -
    have "unat (of_nat (length (snd cv)) :: byte) = length (snd cv)"
      by (rule unat_of_nat_len) (use that in \<open>simp add: opt_ok_def\<close>)
    then show ?thesis by (simp add: opt_enc_def opt_step_def)
  qed
qed

lemma opt_loop_enc:
  assumes "opt_ok cv"
  shows "opt_loop (opt_enc cv @ rest) st = opt_loop rest (apply_opt cv st)"
  using options.dec_enc [OF assms, of rest] assms
  by (subst opt_loop.simps) (simp add: opt_enc_def opt_ok_def)

lemma opt_loop_end [simp]: "opt_loop (optEnd # junk) st = st"
  by (subst opt_loop.simps) simp

lemma opt_loop_concat:
  "\<forall>cv \<in> set cvs. opt_ok cv \<Longrightarrow>
     opt_loop (concat (map opt_enc cvs) @ rest) st = opt_loop rest (fold apply_opt cvs st)"
  by (induction cvs arbitrary: st) (simp_all add: opt_loop_enc)

text \<open>C35 (options are read back): on a well-formed option field, the parser applies exactly the
  options that were written, in order, and ignores everything after the end mark.\<close>

theorem parseOptions_encoded:
  assumes "\<forall>cv \<in> set cvs. opt_ok cv"
  shows "parseOptions (concat (map opt_enc cvs) @ optEnd # junk) lease = fold apply_opt cvs (0, lease)"
  using opt_loop_concat [OF assms] by (simp add: parseOptions_def)

theorem parseOptions_encoded_witness:
  "parseOptions (concat (map opt_enc [(53, [5]), (1, [255, 255, 0, 0]), (6, [8, 8, 8, 8, 1, 1, 1, 1]), (51, [0, 0, 1, 0])])
       @ optEnd # [9, 9]) (empty_lease [10, 0, 0, 2]) =
     (5, \<lparr>l_ip = Some [10, 0, 0, 2], l_mask = Some [255, 255, 0, 0], l_gateway = None,
          l_dns = [Some [8, 8, 8, 8], Some [1, 1, 1, 1]], l_serverID = None, l_leaseSec = 256\<rparr>)"
  using parseOptions_encoded [of "[(53, [5]), (1, [255, 255, 0, 0]), (6, [8, 8, 8, 8, 1, 1, 1, 1]), (51, [0, 0, 1, 0])]"
      "[9, 9]" "empty_lease [10, 0, 0, 2]"]
  by (simp add: opt_ok_def apply_opt_def dhcp_opt_defs empty_lease_def)

lemma bootp_header_eq:
  assumes "length mac = 6"
  shows "bootp_header mac xid ciaddr broadcast =
     [1, 1, 6, 0] @ be32 xid @ [0, 0] @ (if broadcast then [0x80, 0] else [0, 0]) @
     (case to4 ciaddr of None \<Rightarrow> [0, 0, 0, 0] | Some v4 \<Rightarrow> v4) @ replicate 12 0 @ mac @
     replicate 202 0 @ dhcpMagicCookie"
proof -
  have r: "replicate 240 (0::byte) = [0, 0, 0, 0] @ [0, 0, 0, 0] @ [0, 0] @ [0, 0] @ [0, 0, 0, 0] @
      replicate 12 0 @ [0, 0, 0, 0, 0, 0] @ replicate 202 0 @ [0, 0, 0, 0]"
    by (simp add: numeral_eq_Suc)
  have x: "copy_range 4 8 (be32 xid) ([1, 1, 6, 0] @ [0, 0, 0, 0] @ zs) = [1, 1, 6, 0] @ be32 xid @ zs" for zs
    by (rule copy_range_field) simp_all
  have f: "copy_range 10 12 [y, 0] ([1, 1, 6, 0] @ be32 xid @ [0, 0] @ [0, 0] @ zs) =
      [1, 1, 6, 0] @ be32 xid @ [0, 0] @ [y, 0] @ zs" for y zs
    using copy_range_field [of "[1, 1, 6, 0] @ be32 xid @ [0, 0]" 10 "[0, 0]"] by simp
  have v: "copy_range 12 16 v ([1, 1, 6, 0] @ be32 xid @ [0, 0] @ [y, 0] @ [0, 0, 0, 0] @ zs) =
      [1, 1, 6, 0] @ be32 xid @ [0, 0] @ [y, 0] @ v @ zs" if "length v = 4" for y v zs
    using copy_range_field [of "[1, 1, 6, 0] @ be32 xid @ [0, 0] @ [y, 0]" 12 "[0, 0, 0, 0]"] that by simp
  have m: "copy_range 28 34 mac ([1, 1, 6, 0] @ be32 xid @ [0, 0] @ [y, 0] @ v @ replicate 12 0 @ [0, 0, 0, 0, 0, 0] @ zs) =
      [1, 1, 6, 0] @ be32 xid @ [0, 0] @ [y, 0] @ v @ replicate 12 0 @ mac @ zs" if "length v = 4" for y v zs
    using copy_range_field [of "[1, 1, 6, 0] @ be32 xid @ [0, 0] @ [y, 0] @ v @ replicate 12 0" 28 "[0, 0, 0, 0, 0, 0]" mac] that assms by simp
  have c: "copy_range 236 240 dhcpMagicCookie
        ([1, 1, 6, 0] @ be32 xid @ [0, 0] @ [y, 0] @ v @ replicate 12 0 @ mac @ replicate 202 0 @ [0, 0, 0, 0]) =
      [1, 1, 6, 0] @ be32 xid @ [0, 0] @ [y, 0] @ v @ replicate 12 0 @ mac @ replicate 202 0 @ dhcpMagicCookie"
    if "length v = 4" for y v
    using copy_range_field [of "[1, 1, 6, 0] @ be32 xid @ [0, 0] @ [y, 0] @ v @ replicate 12 0 @ mac @ replicate 202 0"
        236 "[0, 0, 0, 0]" dhcpMagicCookie 240 "[]"] that assms by (simp add: dhcpMagicCookie_def)
  have b: "be16 dhcpFlagBroadcast = [0x80, 0]" by (simp add: be16_def dhcpFlagBroadcast_def)
  show ?thesis
    using x f v m c m [of "[0, 0, 0, 0]"] c [of "[0, 0, 0, 0]"]
    by (cases broadcast; cases "to4 ciaddr")
       (simp_all add: bootp_header_def r b bootpRequest_def htypeEth_def to4_length Let_def)
qed

definition request_opts :: "byte \<Rightarrow> ip \<Rightarrow> ip \<Rightarrow> (byte \<times> bytes) list" where
  "request_opts msgType reqIP serverID =
     [(optMsgType, [msgType])] @
     (case to4 reqIP of None \<Rightarrow> [] | Some v4 \<Rightarrow> [(optRequestedIP, v4)]) @
     (case to4 serverID of None \<Rightarrow> [] | Some v4 \<Rightarrow> [(optServerID, v4)]) @
     [(optParamList, [optSubnetMask, optRouter, optDNS, optLeaseTime, optServerID])]"

text \<open>C36 (requests on the wire): a built request is a BOOTP request with the given transaction id,
  the client's current address, the broadcast flag, its hardware address and the DHCP cookie at
  their RFC 2131 offsets, followed by well-formed options: the message type, the requested address
  and the server identifier when there is one, and the parameter list.\<close>

theorem buildDHCP_wire:
  assumes "length mac = 6"
  shows "let p = buildDHCP msgType mac xid ciaddr reqIP serverID broadcast in
     p ! 0 = bootpRequest \<and> get_be32 (drop 4 p) = xid
   \<and> take 2 (drop 10 p) = (if broadcast then be16 dhcpFlagBroadcast else [0, 0])
   \<and> take 4 (drop 12 p) = (case to4 ciaddr of None \<Rightarrow> [0, 0, 0, 0] | Some v4 \<Rightarrow> v4)
   \<and> take 6 (drop 28 p) = mac \<and> take 4 (drop 236 p) = dhcpMagicCookie
   \<and> drop 240 p = concat (map opt_enc (request_opts msgType reqIP serverID)) @ [optEnd]
   \<and> list_all opt_ok (request_opts msgType reqIP serverID)"
proof -
  let ?v = "case to4 ciaddr of None \<Rightarrow> [0, 0, 0, 0] | Some v4 \<Rightarrow> v4"
  have v: "length ?v = 4" by (auto simp: to4_length split: option.splits)
  have o: "[optMsgType, 1, msgType] @ v4_opt optRequestedIP reqIP @ v4_opt optServerID serverID @
      [optParamList, 5, optSubnetMask, optRouter, optDNS, optLeaseTime, optServerID] =
      concat (map opt_enc (request_opts msgType reqIP serverID))"
    by (auto simp: request_opts_def v4_opt_def opt_enc_def to4_length split: option.splits)
  have k: "list_all opt_ok (request_opts msgType reqIP serverID)"
    by (auto simp: request_opts_def opt_ok_def dhcp_opt_defs to4_length split: option.splits)
  have p: "buildDHCP msgType mac xid ciaddr reqIP serverID broadcast =
      [1, 1, 6, 0] @ be32 xid @ [0, 0] @ (if broadcast then [0x80, 0] else [0, 0]) @ ?v @ replicate 12 0 @ mac @
      replicate 202 0 @ dhcpMagicCookie @ concat (map opt_enc (request_opts msgType reqIP serverID)) @ [optEnd]"
    unfolding buildDHCP_def Let_def bootp_header_eq [OF assms] o [symmetric] by simp
  have b: "be16 dhcpFlagBroadcast = [0x80, 0]" by (simp add: be16_def dhcpFlagBroadcast_def)
  have c: "length dhcpMagicCookie = 4" by (simp add: dhcpMagicCookie_def)
  show ?thesis unfolding p Let_def using v c k assms
    by (simp add: bootpRequest_def b)
qed

theorem buildDHCP_wire_witness:
  "get_be32 (drop 4 (buildDHCP dhcpRequest [2, 0, 0, 0, 0, 1] 7 None (Some [10, 0, 2, 15]) (Some [10, 0, 2, 2]) True)) = 7
   \<and> drop 240 (buildDHCP dhcpRequest [2, 0, 0, 0, 0, 1] 7 None (Some [10, 0, 2, 15]) (Some [10, 0, 2, 2]) True) =
     concat (map opt_enc [(53, [3]), (50, [10, 0, 2, 15]), (54, [10, 0, 2, 2]), (55, [1, 3, 6, 51, 54])]) @ [255]"
  using buildDHCP_wire [of "[2, 0, 0, 0, 0, 1]" dhcpRequest 7 None "Some [10, 0, 2, 15]" "Some [10, 0, 2, 2]" True]
  by (simp add: Let_def request_opts_def dhcp_opt_defs dhcp_msg_defs)


section \<open>Correctness of the wait\<close>

interpretation dhcp_wait: poll_loop "\<lambda>fuel K fd deadline. recv_poll fuel K fd xid want deadline"
  "\<lambda>pkt. Ok (match_reply xid want pkt)" "dhcp_timeout want" "\<lambda>e. e" 50000000 for xid want
  by unfold_locales (unfold recv_poll.simps res.case, simp_all)

lemmas only_recv_poll [only_intros] = dhcp_wait.only_loop

lemma only_recvDHCP [only_intros]:
  "P Now \<Longrightarrow> P (Recvfrom fd 1500) \<Longrightarrow> P (Sleep 50000000) \<Longrightarrow> only P (recvDHCP fuel K fd xid want timeout)"
  by (auto simp: recvDHCP_def intro!: only_intros)

text \<open>C31 (the wait ends): with a running clock, waiting for a reply always returns, whatever
  datagrams arrive; the number of polls is bounded by the timeout.\<close>

theorem recvDHCP_returns:
  assumes "clocked K clock" and "timeout < int fuel" and "0 < fuel"
  shows "result (recvDHCP fuel K fd xid want timeout) h \<noteq> Hang"
proof -
  let ?h = "h @ [(Now, RInt (clock h))]"
  have "clock h + 1 \<le> clock ?h" by (rule clocked_Now [OF assms(1)])
  then have "result (recv_poll fuel K fd xid want (clock h + timeout)) ?h \<noteq> Hang"
    using assms by (intro dhcp_wait.loop_returns [OF assms(1)]) simp_all
  then show ?thesis by (simp add: recvDHCP_def clocked_now [OF assms(1)])
qed

theorem recvDHCP_returns_witness: "result (recvDHCP 2000000001 quiet_net 3 7 dhcpOffer 2000000000) [] \<noteq> Hang"
  using recvDHCP_returns [OF clocked_quiet_net, of 2000000000 2000000001 3 7 dhcpOffer "[]"] by simp

lemma recv_poll_sound:
  "result (recv_poll fuel K fd xid want deadline) h = Ok lease \<Longrightarrow>
   \<exists>pkt. (Recvfrom fd 1500, RBytes pkt) \<in> set (events (recv_poll fuel K fd xid want deadline) h)
     \<and> match_reply xid want pkt = Some lease"
  using dhcp_wait.loop_sound by simp

abbreviation received :: "hist \<Rightarrow> int \<Rightarrow> 32 word \<Rightarrow> byte \<Rightarrow> dhcpLease \<Rightarrow> bool" where
  "received ev fd xid want lease \<equiv>
     \<exists>pkt. (Recvfrom fd 1500, RBytes pkt) \<in> set ev \<and> match_reply xid want pkt = Some lease"

lemma recvDHCP_received:
  assumes "result (recvDHCP fuel K fd xid want timeout) h = Ok lease"
  shows "received (events (recvDHCP fuel K fd xid want timeout) h) fd xid want lease"
proof -
  let ?d = "(case K h Now of RInt n \<Rightarrow> n | _ \<Rightarrow> 0) + timeout"
  let ?h = "h @ [(Now, K h Now)]"
  have r: "result (recv_poll fuel K fd xid want ?d) ?h = Ok lease"
    using assms by (simp add: recvDHCP_def)
  have "events (recvDHCP fuel K fd xid want timeout) h = (Now, K h Now) # events (recv_poll fuel K fd xid want ?d) ?h"
    by (simp add: recvDHCP_def events_bind_grows only_intros)
  then show ?thesis using recv_poll_sound [OF r] by auto
qed

text \<open>The lease that the wait returns comes from a datagram
  received on the socket that is a BOOTP reply of at least 240 bytes with the transaction id of the
  request, whose options, read by the parser, give the lease and the wanted message type.\<close>

lemma recvDHCP_sound:
  assumes "result (recvDHCP fuel K fd xid want timeout) h = Ok lease"
  shows "\<exists>pkt. (Recvfrom fd 1500, RBytes pkt) \<in> set (events (recvDHCP fuel K fd xid want timeout) h)
    \<and> 240 \<le> length pkt \<and> pkt ! 0 = bootpReply \<and> get_be32 (drop 4 pkt) = xid
    \<and> parseOptions (drop 240 pkt) (empty_lease (take 4 (drop 16 pkt))) = (want, lease)"
  using recvDHCP_received [OF assms] by (fastforce simp: match_reply_def split: if_splits prod.splits)

section \<open>Correctness of acquiring and renewing\<close>

definition is_send :: "call \<Rightarrow> bool" where
  "is_send c \<longleftrightarrow> (case c of Sendto fd p a \<Rightarrow> True | _ \<Rightarrow> False)"

definition sends :: "hist \<Rightarrow> call list" where
  "sends ev = filter is_send (calls ev)"

lemma sends_append [simp]: "sends [] = []" "sends (a @ b) = sends a @ sends b"
  by (simp_all add: sends_def)

lemma sends_Cons [simp]: "sends (e # ev) = (if is_send (fst e) then [fst e] else []) @ sends ev"
  by (simp add: sends_def)

lemma is_send_simps [simp]:
  "is_send (Sendto fd p addr)" "\<not> is_send Now" "\<not> is_send (Recvfrom fd n)" "\<not> is_send (Sleep d)"
  "\<not> is_send (CloseFd fd)" "\<not> is_send (Socket a b c)" "\<not> is_send (SetNonblock fd)"
  "\<not> is_send (Setsockopt fd m n v)" "\<not> is_send (Bind fd addr)"
  by (simp_all add: is_send_def)

lemma sends_recvDHCP: "sends (events (recvDHCP fuel K fd xid want t) h) = []"
  using only_not_filter [of is_send "recvDHCP fuel K fd xid want t" h]
  by (simp add: sends_def made_def only_intros)

text \<open>A server that answers transaction 7: an OFFER after the first packet, otherwise an ACK.\<close>

definition reply_packet :: "byte \<Rightarrow> bytes" where
  "reply_packet mt = [2, 0, 0, 0] @ be32 7 @ replicate 8 0 @ [10, 0, 2, 15] @ replicate 220 0 @
     opt_enc (optMsgType, [mt]) @ [optEnd]"

definition serving :: kernel where
  "serving h c = (case c of
       Now \<Rightarrow> RInt 7
     | Socket a b d \<Rightarrow> RInt 3
     | Recvfrom fd n \<Rightarrow> RBytes (reply_packet (if length (sends h) = 1 then dhcpOffer else dhcpAck))
     | _ \<Rightarrow> RUnit)"

lemma match_reply_packet: "match_reply 7 mt (reply_packet mt) = Some (empty_lease [10, 0, 2, 15])"
proof -
  have "parseOptions (opt_enc (optMsgType, [mt]) @ [optEnd]) l = (mt, l)" for l
    by (simp add: parseOptions_def opt_loop_enc opt_ok_def dhcp_opt_defs apply_opt_def) (simp add: opt_loop.simps optEnd_def)
  then show ?thesis by (simp add: match_reply_def reply_packet_def bootpReply_def)
qed


lemma grows_discover [only_intros]: "grows (discover fuel n K fd mac xid)"
  by (induction n) (auto intro!: only_intros split: res.splits)

lemma discover_trace:
  assumes "result (discover fuel n K fd mac xid) h = Ok (Some offer)"
  shows "\<exists>k. 1 \<le> k \<and> k \<le> n
    \<and> sends (events (discover fuel n K fd mac xid) h) = replicate k (Sendto fd (discover_packet mac xid) dhcp_bcast)
    \<and> received (events (discover fuel n K fd mac xid) h) fd xid dhcpOffer offer"
  using assms
proof (induction n arbitrary: h)
  case (Suc n)
  let ?s = "Sendto fd (discover_packet mac xid) dhcp_bcast"
  let ?h = "h @ [(?s, K h ?s)]"
  let ?rest = "State_Monad.bind (recvDHCP fuel K fd xid dhcpOffer 2000000000) (\<lambda>r. case r of
         Ok offer \<Rightarrow> ok_io (Some offer)
       | Err e \<Rightarrow> discover fuel n K fd mac xid
       | Panic \<Rightarrow> State_Monad.return Panic
       | Hang \<Rightarrow> State_Monad.return Hang)"
  let ?r = "recvDHCP fuel K fd xid dhcpOffer 2000000000"
  have ok: "as_unit (K h ?s) = Ok ()" and rest: "result ?rest ?h = Ok (Some offer)"
    using Suc.prems by (auto simp: result_try_Ok)
  have g: "grows ?rest" by (auto intro!: only_intros split: res.splits)
  have ev: "events (discover fuel (Suc n) K fd mac xid) h = (?s, K h ?s) # events ?rest ?h"
    using ok g by (simp add: events_try_Ok only_intros)
  show ?case
  proof (cases "result ?r ?h")
    case (Ok l)
    then have l: "l = offer" using rest [unfolded result_bind] Ok by simp
    have "events ?rest ?h = events ?r ?h" using Ok by (simp add: events_bind_grows only_intros)
    then show ?thesis using recvDHCP_received [OF Ok] sends_recvDHCP [of fuel K fd xid dhcpOffer 2000000000 ?h]
      by (intro exI [of _ 1]) (auto simp: ev l simp del: discover.simps)
  next
    case (Err e)
    have "result (discover fuel n K fd mac xid) (after ?r ?h) = Ok (Some offer)"
      using rest [unfolded result_bind] Err by simp
    from Suc.IH [OF this] obtain k where k: "1 \<le> k" "k \<le> n"
      "sends (events (discover fuel n K fd mac xid) (after ?r ?h)) = replicate k ?s"
      "received (events (discover fuel n K fd mac xid) (after ?r ?h)) fd xid dhcpOffer offer" by blast
    have "events ?rest ?h = events ?r ?h @ events (discover fuel n K fd mac xid) (after ?r ?h)"
      using Err by (simp add: events_bind_grows only_intros)
    then show ?thesis using k sends_recvDHCP [of fuel K fd xid dhcpOffer 2000000000 ?h]
      by (intro exI [of _ "Suc k"]) (auto simp: ev simp del: discover.simps)
  qed (use rest [unfolded result_bind] in simp_all)
qed simp


text \<open>The socket discipline shared by both clients: the body runs between the bind and the close,
  and the close is the last call.\<close>

lemma grows_with_dhcp_socket [only_intros]:
  "(\<And>fd. grows (body fd)) \<Longrightarrow> grows (with_dhcp_socket K body)"
  unfolding with_dhcp_socket_def by (intro only_intros) auto

lemma with_dhcp_socket_Ok:
  assumes "result (with_dhcp_socket K body) h = Ok a" and "\<And>fd. grows (body fd)"
  shows "\<exists>fd h' pre. K h (Socket 2 2 0) = RInt fd \<and> result (body fd) h' = Ok a
    \<and> events (with_dhcp_socket K body) h = pre @ events (body fd) h' @ [(CloseFd fd, K (after (body fd) h') (CloseFd fd))]
    \<and> calls pre = [Socket 2 2 0, SetNonblock fd, Setsockopt fd 1 6 1, Setsockopt fd 1 2 1,
                    Bind fd (Inet4 [0, 0, 0, 0] dhcpClientPort)]"
proof -
  from assms(1) obtain fd where fd: "K h (Socket 2 2 0) = RInt fd"
    by (cases "K h (Socket 2 2 0)") (auto simp: with_dhcp_socket_def run_try_io)
  let ?b = "Inet4 [0, 0, 0, 0] dhcpClientPort"
  let ?h1 = "h @ [(Socket 2 2 0, RInt fd)]"
  let ?h2 = "?h1 @ [(SetNonblock fd, K ?h1 (SetNonblock fd))]"
  let ?h3 = "?h2 @ [(Setsockopt fd 1 6 1, K ?h2 (Setsockopt fd 1 6 1))]"
  let ?h4 = "?h3 @ [(Setsockopt fd 1 2 1, K ?h3 (Setsockopt fd 1 2 1))]"
  let ?h5 = "?h4 @ [(Bind fd ?b, K ?h4 (Bind fd ?b))]"
  have ok: "as_unit (K ?h4 (Bind fd ?b)) = Ok ()" and body: "result (body fd) ?h5 = Ok a"
    using assms(1) by (auto simp: with_dhcp_socket_def fd result_try_Ok)
  obtain ev where ev: "after (body fd) ?h5 = ?h5 @ ev" by (rule onlyE [OF assms(2)])
  have "run_state (body fd) ?h5 = (Ok a, ?h5 @ ev)" using ev body by (metis prod.collapse)
  then have "after (with_dhcp_socket K body) h = ?h5 @ ev @ [(CloseFd fd, K (?h5 @ ev) (CloseFd fd))]"
    using ok by (simp add: with_dhcp_socket_def run_try_io run_defer_io fd)
  then have "events (with_dhcp_socket K body) h =
      drop (length h) ?h5 @ events (body fd) ?h5 @ [(CloseFd fd, K (after (body fd) ?h5) (CloseFd fd))]"
    using ev by (simp add: events_def)
  then show ?thesis using fd body by (intro exI [of _ fd] exI [of _ ?h5] exI [of _ "drop (length h) ?h5"]) simp
qed

lemma merge_offer_mask: "l_mask (merge_offer offer ack) \<noteq> None"
  by (simp add: merge_offer_def Let_def)

text \<open>C15 (the handshake): when acquiring succeeds, the client has broadcast one to three DISCOVERs
  and then exactly one REQUEST that echoes the address and the server of an OFFER it received for
  its transaction; the lease is the received ACK completed from that OFFER, it has a netmask, and
  the socket was closed.\<close>

theorem dhcpAcquire_handshake:
  assumes "result (dhcpAcquire fuel K mac xid timeout) h = Ok lease"
  shows "\<exists>fd k offer ack. 1 \<le> k \<and> k \<le> 3
    \<and> sends (events (dhcpAcquire fuel K mac xid timeout) h) =
        replicate k (Sendto fd (discover_packet mac xid) dhcp_bcast) @ [Sendto fd (request_packet mac xid offer) dhcp_bcast]
    \<and> received (events (dhcpAcquire fuel K mac xid timeout) h) fd xid dhcpOffer offer
    \<and> received (events (dhcpAcquire fuel K mac xid timeout) h) fd xid dhcpAck ack
    \<and> lease = merge_offer offer ack \<and> l_mask lease \<noteq> None
    \<and> fst (last (events (dhcpAcquire fuel K mac xid timeout) h)) = CloseFd fd"
proof -
  let ?req = "\<lambda>fd offer. try_io (wrap_io ''send REQUEST'' (os_unit K (Sendto fd (request_packet mac xid offer) dhcp_bcast))) (\<lambda>_.
       try_io (wrap_io ''no DHCPACK'' (recvDHCP fuel K fd xid dhcpAck 4000000000)) (\<lambda>ack. ok_io (merge_offer offer ack)))"
  let ?disc = "\<lambda>fd. discover fuel 3 K fd mac xid"
  let ?body = "\<lambda>fd. try_io (?disc fd) (\<lambda>got. case got of None \<Rightarrow> err_io (Text ''no DHCPOFFER'') | Some offer \<Rightarrow> ?req fd offer)"
  have gr: "grows (?req fd offer)" for fd offer by (intro only_intros) auto
  have gb: "grows (?body fd)" for fd by (auto intro!: only_intros gr split: option.splits)
  obtain fd h' pre where fd: "result (?body fd) h' = Ok lease"
    "events (dhcpAcquire fuel K mac xid timeout) h = pre @ events (?body fd) h' @ [(CloseFd fd, K (after (?body fd) h') (CloseFd fd))]"
    "calls pre = [Socket 2 2 0, SetNonblock fd, Setsockopt fd 1 6 1, Setsockopt fd 1 2 1, Bind fd (Inet4 [0, 0, 0, 0] dhcpClientPort)]"
    using with_dhcp_socket_Ok [OF assms [unfolded dhcpAcquire_def] gb] unfolding dhcpAcquire_def by blast
  then obtain offer where offer: "result (?disc fd) h' = Ok (Some offer)"
    "result (?req fd offer) (after (?disc fd) h') = Ok lease"
    by (auto simp: result_try_Ok split: option.splits)
  let ?h1 = "after (?disc fd) h'"
  let ?s = "Sendto fd (request_packet mac xid offer) dhcp_bcast"
  let ?h2 = "?h1 @ [(?s, K ?h1 ?s)]"
  let ?recv = "recvDHCP fuel K fd xid dhcpAck 4000000000"
  obtain ack where ack: "as_unit (K ?h1 ?s) = Ok ()" "result ?recv ?h2 = Ok ack" "lease = merge_offer offer ack"
    using offer(2) by (auto simp: result_try_Ok simp del: run_wrap_io)
  have ev1: "events (?req fd offer) ?h1 = (?s, K ?h1 ?s) # events ?recv ?h2"
    using ack by (simp add: events_try_Ok only_intros del: run_wrap_io)
  have ev2: "events (?body fd) h' = events (?disc fd) h' @ events (?req fd offer) ?h1"
    using offer(1) gr by (subst events_try_Ok) (auto intro!: only_intros)
  have pre: "sends pre = []" using fd(3) by (simp add: sends_def)
  from discover_trace [OF offer(1)] recvDHCP_received [OF ack(2)] show ?thesis
    unfolding fd(2) ev2 ev1 using ack(3) pre sends_recvDHCP [of fuel K fd xid dhcpAck 4000000000 ?h2]
    by (fastforce simp: merge_offer_mask)
qed

theorem dhcpAcquire_handshake_witness:
  "\<exists>k offer. 1 \<le> k \<and> k \<le> 3
    \<and> sends (events (dhcpAcquire 1 serving [2, 0, 0, 0, 0, 1] 7 0) []) =
        replicate k (Sendto 3 (discover_packet [2, 0, 0, 0, 0, 1] 7) dhcp_bcast) @
        [Sendto 3 (request_packet [2, 0, 0, 0, 0, 1] 7 offer) dhcp_bcast]"
proof -
  let ?m = "dhcpAcquire 1 serving [2, 0, 0, 0, 0, 1] 7 0"
  have r: "result ?m [] = Ok (merge_offer (empty_lease [10, 0, 2, 15]) (empty_lease [10, 0, 2, 15]))"
    by (simp add: dhcpAcquire_def with_dhcp_socket_def run_try_io run_defer_io serving_def recvDHCP_def
        match_reply_packet numeral_3_eq_3)
  have c: "fst (last (events ?m [])) = CloseFd 3"
    by (simp add: events_def dhcpAcquire_def with_dhcp_socket_def run_try_io run_defer_io serving_def recvDHCP_def
        match_reply_packet numeral_3_eq_3)
  from dhcpAcquire_handshake [OF r] c show ?thesis by auto
qed

text \<open>A conditional update of a field is an update with a conditional value.\<close>

lemma lease_if_update:
  "(if P then a\<lparr>l_mask := m\<rparr> else a) = a\<lparr>l_mask := if P then m else l_mask a\<rparr>"
  "(if P then a\<lparr>l_gateway := g\<rparr> else a) = a\<lparr>l_gateway := if P then g else l_gateway a\<rparr>"
  "(if P then a\<lparr>l_dns := d\<rparr> else a) = a\<lparr>l_dns := if P then d else l_dns a\<rparr>"
  "(if P then a\<lparr>l_serverID := s\<rparr> else a) = a\<lparr>l_serverID := if P then s else l_serverID a\<rparr>"
  "(if P then a\<lparr>l_leaseSec := n\<rparr> else a) = a\<lparr>l_leaseSec := if P then n else l_leaseSec a\<rparr>"
  "(if P then a\<lparr>l_ip := i\<rparr> else a) = a\<lparr>l_ip := if P then i else l_ip a\<rparr>"
  by simp_all

lemma carry_forward_fields:
  "l_mask (carry_forward lease ack) = (if l_mask ack = None then l_mask lease else l_mask ack)"
  "l_gateway (carry_forward lease ack) = (if l_gateway ack = None then l_gateway lease else l_gateway ack)"
  "l_dns (carry_forward lease ack) = (if l_dns ack = [] then l_dns lease else l_dns ack)"
  "l_serverID (carry_forward lease ack) = (if l_serverID ack = None then l_serverID lease else l_serverID ack)"
  "l_leaseSec (carry_forward lease ack) = (if l_leaseSec ack = 0 then l_leaseSec lease else l_leaseSec ack)"
  "l_ip (carry_forward lease ack) = (if l_ip ack = None \<or> isUnspecified (l_ip ack) then l_ip lease else l_ip ack)"
  unfolding carry_forward_def Let_def lease_if_update by simp_all

text \<open>A successful renewal sends one REQUEST that names the
  current address, to the leasing server or, when rebinding, to everybody; every field of the new
  lease is the one of the received ACK, or of the old lease where the ACK leaves it out; in
  particular nothing the old lease had is lost, and the socket was closed.\<close>

lemma dhcpRenew_keeps:
  assumes "result (dhcpRenew fuel K mac lease rebind) h = Ok new"
  shows "\<exists>fd xid ack.
      sends (events (dhcpRenew fuel K mac lease rebind) h) =
        [Sendto fd (buildDHCP dhcpRequest mac xid (l_ip lease) None None rebind) (renew_dst lease rebind)]
    \<and> received (events (dhcpRenew fuel K mac lease rebind) h) fd xid dhcpAck ack
    \<and> l_mask new = (if l_mask ack = None then l_mask lease else l_mask ack)
    \<and> l_gateway new = (if l_gateway ack = None then l_gateway lease else l_gateway ack)
    \<and> l_dns new = (if l_dns ack = [] then l_dns lease else l_dns ack)
    \<and> l_serverID new = (if l_serverID ack = None then l_serverID lease else l_serverID ack)
    \<and> l_leaseSec new = (if l_leaseSec ack = 0 then l_leaseSec lease else l_leaseSec ack)
    \<and> l_ip new = (if l_ip ack = None \<or> isUnspecified (l_ip ack) then l_ip lease else l_ip ack)
    \<and> fst (last (events (dhcpRenew fuel K mac lease rebind) h)) = CloseFd fd"
proof -
  let ?body = "\<lambda>fd. State_Monad.bind (os_now K) (\<lambda>now.
       let xid = word_of_int now in
       try_io (wrap_io ''send REQUEST''
                (os_unit K (Sendto fd (buildDHCP dhcpRequest mac xid (l_ip lease) None None rebind) (renew_dst lease rebind)))) (\<lambda>_.
       try_io (recvDHCP fuel K fd xid dhcpAck 4000000000) (\<lambda>ack. ok_io (carry_forward lease ack))))"
  have gb: "grows (?body fd)" for fd unfolding Let_def by (intro only_intros) auto
  obtain fd h' pre where fd: "result (?body fd) h' = Ok new"
    "events (dhcpRenew fuel K mac lease rebind) h = pre @ events (?body fd) h' @ [(CloseFd fd, K (after (?body fd) h') (CloseFd fd))]"
    "calls pre = [Socket 2 2 0, SetNonblock fd, Setsockopt fd 1 6 1, Setsockopt fd 1 2 1, Bind fd (Inet4 [0, 0, 0, 0] dhcpClientPort)]"
    using with_dhcp_socket_Ok [OF assms [unfolded dhcpRenew_def] gb] unfolding dhcpRenew_def by blast
  let ?xid = "word_of_int (case K h' Now of RInt n \<Rightarrow> n | _ \<Rightarrow> 0) :: 32 word"
  let ?s = "Sendto fd (buildDHCP dhcpRequest mac ?xid (l_ip lease) None None rebind) (renew_dst lease rebind)"
  let ?h1 = "h' @ [(Now, K h' Now)]"
  let ?h2 = "?h1 @ [(?s, K ?h1 ?s)]"
  let ?recv = "recvDHCP fuel K fd ?xid dhcpAck 4000000000"
  obtain ack where ack: "as_unit (K ?h1 ?s) = Ok ()" "result ?recv ?h2 = Ok ack" "new = carry_forward lease ack"
    using fd(1) by (auto simp: result_try_Ok Let_def)
  have ev: "events (?body fd) h' = (Now, K h' Now) # (?s, K ?h1 ?s) # events ?recv ?h2"
    using ack by (simp add: events_bind_grows events_try_Ok only_intros Let_def del: run_wrap_io)
  have pre: "sends pre = []" using fd(3) by (simp add: sends_def)
  from recvDHCP_received [OF ack(2)] show ?thesis
    unfolding fd(2) ev using ack(3) pre sends_recvDHCP [of fuel K fd ?xid dhcpAck 4000000000 ?h2]
    by (intro exI [of _ fd] exI [of _ ?xid] exI [of _ ack]) (auto simp: carry_forward_fields)
qed


section \<open>Correctness of the timers\<close>

lemma sint_word64_small: "- (2 ^ 63) \<le> k \<Longrightarrow> k < 2 ^ 63 \<Longrightarrow> sint (word_of_int k :: 64 word) = k"
  by (simp add: sint_sbintrunc' signed_take_bit_int_eq_self)

lemma lease_duration_sint:
  assumes "0 < sec"
  shows "lease_duration sec = word_of_int (uint sec * 1000000000)"
    and "0 < uint sec" and "uint sec < 2 ^ 32"
proof -
  have "uint sec < 2 ^ LENGTH(32)" by (rule unsigned_less)
  then show b: "uint sec < 2 ^ 32" by simp
  have "0 \<le> uint sec" "uint sec \<noteq> 0" using assms by (auto simp: word_less_def)
  then show p: "0 < uint sec" by linarith
  have d: "ucast sec * 1000000000 = (word_of_int (uint sec * 1000000000) :: 64 word)" by simp
  have "sint (word_of_int (uint sec * 1000000000) :: 64 word) = uint sec * 1000000000"
    by (rule sint_word64_small) (use b p in simp_all)
  then show "lease_duration sec = word_of_int (uint sec * 1000000000)"
    unfolding lease_duration_def d Let_def using p by simp
qed

lemma dur_quot_small:
  assumes "0 \<le> n" "n < 2 ^ 63" "0 < k"
  shows "sint (dur_quot (word_of_int n) k) = n div k"
proof -
  have "sint (word_of_int n :: 64 word) = n" by (rule sint_word64_small) (use assms in simp_all)
  then have "dur_quot (word_of_int n) k = word_of_int (n div k)" using assms by (simp add: dur_quot_def go_quot_def)
  moreover have "0 \<le> n div k" "n div k \<le> n"
    using assms zdiv_mono2 [of n 1 k] by (simp_all add: pos_imp_zdiv_nonneg_iff)
  moreover have "sint (word_of_int (n div k) :: 64 word) = n div k"
    by (rule sint_word64_small) (use assms calculation in simp_all)
  ultimately show ?thesis by simp
qed

text \<open>Without an override, for a lease of at most 1317624576 seconds the client
  renews at half of the lease and rebinds at seven eighths of it, so in this order and before the
  lease ends.\<close>

lemma renew_times_order:
  assumes "0 < sec" and "uint sec \<le> 1317624576"
  shows "sint (fst (renew_times [] sec)) = uint sec * 1000000000 div 2
    \<and> sint (snd (renew_times [] sec)) = uint sec * 1000000000 * 7 div 8
    \<and> 0 < sint (fst (renew_times [] sec))
    \<and> sint (fst (renew_times [] sec)) < sint (snd (renew_times [] sec))
    \<and> sint (snd (renew_times [] sec)) < uint sec * 1000000000"
proof -
  note d = lease_duration_sint [OF assms(1)]
  have t1: "sint (fst (renew_times [] sec)) = uint sec * 1000000000 div 2"
    unfolding renew_times_def d(1) using d(2) assms(2)
    by (simp add: trimSpace_def Let_def dur_quot_small del: of_int_mult)
  have "word_of_int (uint sec * 1000000000) * 7 = (word_of_int (uint sec * 1000000000 * 7) :: 64 word)" by simp
  then have t2: "sint (snd (renew_times [] sec)) = uint sec * 1000000000 * 7 div 8"
    unfolding renew_times_def d(1) using d(2) assms(2)
    by (simp add: trimSpace_def Let_def dur_quot_small del: of_int_mult)
  show ?thesis using t1 t2 d(2) by linarith
qed


text \<open>For the lease time \<open>0xffffffff\<close>, which RFC 2131 reserves for
  an infinite lease, the product \<open>dur * 7\<close> overflows and the rebinding time is before the renewal
  time (in fact negative), so a failed renewal is followed at once by a rebinding.\<close>

lemma renew_times_overflow:
  "sint (snd (renew_times [] 0xffffffff)) < 0 \<and> 0 < sint (fst (renew_times [] 0xffffffff))
   \<and> sint (snd (renew_times [] 0xffffffff) - fst (renew_times [] 0xffffffff)) < 0"
  by code_simp

end
