(* ===== verification/Mounts.thy ===== *)
theory Mounts
  imports MountApplet
begin

unbundle bit_operations_syntax

text \<open>
  Boot-time mounts: the table of essential filesystems and the mount loop (\<open>mount_linux.go\<close>),
  and the parser of \<open>/etc/fstab\<close> (\<open>fstab_linux.go\<close>), which shares the applet's option
  translator.
\<close>

section \<open>Mount specifications and the mount loop\<close>

record mountSpec =
  ms_source :: string
  ms_target :: string
  ms_fstype :: string
  ms_flags :: mflags
  ms_data :: string
  ms_device :: bool
  ms_skipIfPopulated :: bool

record mountResult =
  mr_spec :: mountSpec
  mr_skipped :: bool
  mr_note :: string
  mr_err :: "goerr option"

definition pseudo_fs :: "string \<Rightarrow> string \<Rightarrow> string \<Rightarrow> bool \<Rightarrow> mountSpec" where
  "pseudo_fs source target fstype skip =
     \<lparr>ms_source = source, ms_target = target, ms_fstype = fstype, ms_flags = 0, ms_data = [],
      ms_device = False, ms_skipIfPopulated = skip\<rparr>"

definition defaultMounts :: "mountSpec list" where
  "defaultMounts =
     [pseudo_fs ''proc'' ''/proc'' ''proc'' False,
      pseudo_fs ''sysfs'' ''/sys'' ''sysfs'' False,
      pseudo_fs ''devtmpfs'' ''/dev'' ''devtmpfs'' True,
      pseudo_fs ''tmpfs'' ''/tmp'' ''tmpfs'' False,
      pseudo_fs ''tmpfs'' ''/run'' ''tmpfs'' False,
      pseudo_fs ''cgroup2'' ''/sys/fs/cgroup'' ''cgroup2'' False,
      pseudo_fs ''configfs'' ''/sys/kernel/config'' ''configfs'' False]"

text \<open>\<open>os.Stat(path)\<close> without an error.\<close>

definition path_exists :: "kernel \<Rightarrow> string \<Rightarrow> bool io" where
  "path_exists K p = State_Monad.bind (os_unit K (Stat p)) (\<lambda>r. State_Monad.return (is_ok r))"

text \<open>Opening the directory and reading one name from it succeed, and there is a name.\<close>

definition isPopulated :: "kernel \<Rightarrow> string \<Rightarrow> bool io" where
  "isPopulated K p =
     State_Monad.bind (os_int K (OpenFile p 0)) (\<lambda>r. case r of
         Ok fd \<Rightarrow> State_Monad.bind (os_names K (Readdirnames p)) (\<lambda>ns.
             State_Monad.bind (os_ignore K (CloseFd fd)) (\<lambda>_.
               State_Monad.return (case ns of Ok names \<Rightarrow> names \<noteq> [] | _ \<Rightarrow> False)))
       | _ \<Rightarrow> State_Monad.return False)"

definition skip_result :: "mountSpec \<Rightarrow> string \<Rightarrow> mountResult" where
  "skip_result s note = \<lparr>mr_spec = s, mr_skipped = True, mr_note = note, mr_err = None\<rparr>"

definition try_mount :: "kernel \<Rightarrow> mountSpec \<Rightarrow> mountResult io" where
  "try_mount K s =
     State_Monad.bind (os_ignore K (MkdirAll (ms_target s))) (\<lambda>_.
     State_Monad.bind
       (os_unit K (Mount (ms_source s) (ms_target s) (ms_fstype s) (ms_flags s) (ms_data s))) (\<lambda>r.
     State_Monad.return \<lparr>mr_spec = s, mr_skipped = False, mr_note = [],
       mr_err = (case r of Err e \<Rightarrow> Some e | _ \<Rightarrow> None)\<rparr>))"

definition device_present :: "kernel \<Rightarrow> mountSpec \<Rightarrow> bool io" where
  "device_present K s = (if ms_device s then path_exists K (ms_source s) else State_Monad.return True)"

definition already_full :: "kernel \<Rightarrow> mountSpec \<Rightarrow> bool io" where
  "already_full K s =
     (if ms_skipIfPopulated s then isPopulated K (ms_target s) else State_Monad.return False)"

definition mount_unless_full :: "kernel \<Rightarrow> mountSpec \<Rightarrow> mountResult io" where
  "mount_unless_full K s = State_Monad.bind (already_full K s) (\<lambda>full.
     if full then State_Monad.return (skip_result s ''already populated by kernel'')
     else try_mount K s)"

definition mountOne :: "kernel \<Rightarrow> mountSpec \<Rightarrow> mountResult io" where
  "mountOne K s = State_Monad.bind (device_present K s) (\<lambda>present.
     if \<not> present
     then State_Monad.return (skip_result s (''device '' @ ms_source s @ '' not present''))
     else mount_unless_full K s)"

definition mountAll :: "kernel \<Rightarrow> mountSpec list \<Rightarrow> mountResult list io" where
  "mountAll K specs = State_Monad.traverse_list (mountOne K) specs"


section \<open>fstab\<close>

definition fstabPath :: string where
  "fstabPath = ''/etc/fstab''"

definition fstabPseudoOpts :: "string list" where
  "fstabPseudoOpts =
     [''auto'', ''nofail'', ''_netdev'', ''user'', ''users'', ''nouser'', ''owner'', ''group'']"

definition init_opt :: "string \<Rightarrow> bool" where
  "init_opt w \<longleftrightarrow> w \<in> set fstabPseudoOpts \<or> hasPrefix w ''comment=''"

text \<open>\<open>bufio.Scanner\<close> over lines: a trailing carriage return is dropped, a last empty line is
  not delivered, and a line of 64 KiB or more ends the scan.\<close>

definition drop_cr :: "string \<Rightarrow> string" where
  "drop_cr l = (if l \<noteq> [] \<and> last l = CHR 0x0D then butlast l else l)"

definition scan_lines :: "string \<Rightarrow> string list" where
  "scan_lines s =
     (let ls = split_on (CHR 0x0A) s;
          ls' = (if last ls = [] then butlast ls else ls)
      in map drop_cr (takeWhile (\<lambda>l. length l < 65536) ls'))"

text \<open>One line of the table: nothing for a comment, a blank or short line and a \<open>noauto\<close>
  entry.\<close>

definition parse_fstab_line :: "string \<Rightarrow> mountSpec option" where
  "parse_fstab_line raw =
     (let line = trimSpace raw in
      if line = [] \<or> hasPrefix line ''#'' then None
      else case str_fields line of
        source # target # fstype # rest \<Rightarrow>
          (let opts = (case rest of [] \<Rightarrow> ''defaults'' | o4 # _ \<Rightarrow> o4);
               words = split_on (CHR '','') opts;
               kept = filter (\<lambda>w. w \<noteq> ''noauto'' \<and> \<not> init_opt w) words
           in if ''noauto'' \<in> set words then None
              else let fd = applyMountOpts (join_with '','' kept) 0 []
                   in Some \<lparr>ms_source = source, ms_target = target, ms_fstype = fstype,
                        ms_flags = fst fd, ms_data = join_with '','' (snd fd),
                        ms_device = hasPrefix source ''/dev/'', ms_skipIfPopulated = False\<rparr>)
      | _ \<Rightarrow> None)"

definition parse_fstab_text :: "string \<Rightarrow> mountSpec list" where
  "parse_fstab_text s = List.map_filter parse_fstab_line (scan_lines s)"

definition parseFstab :: "kernel \<Rightarrow> string \<Rightarrow> mountSpec list io" where
  "parseFstab K path =
     State_Monad.bind (os_data K (ReadFile path)) (\<lambda>r.
       State_Monad.return (case r of Ok s \<Rightarrow> parse_fstab_text s | _ \<Rightarrow> []))"

definition mountFstab :: "kernel \<Rightarrow> mountResult list io" where
  "mountFstab K =
     State_Monad.bind (parseFstab K fstabPath) (\<lambda>specs.
       if specs = [] then State_Monad.return [] else mountAll K specs)"


section \<open>Correctness\<close>

lemmas mountOne_defs = mountOne_def mount_unless_full_def device_present_def already_full_def
  path_exists_def isPopulated_def try_mount_def skip_result_def

lemma only_true_try_mount: "only (\<lambda>_. True) (try_mount K s)"
  unfolding try_mount_def by (auto intro!: only_intros)

lemma only_true_mount_unless_full: "only (\<lambda>_. True) (mount_unless_full K s)"
  unfolding mount_unless_full_def already_full_def isPopulated_def
  by (auto intro!: only_intros only_true_try_mount split: res.splits)

lemma only_true_mountOne: "only (\<lambda>_. True) (mountOne K s)"
  unfolding mountOne_def device_present_def path_exists_def
  by (auto intro!: only_intros only_true_mount_unless_full)

lemma mountOne_spec: "mr_spec (result (mountOne K s) h) = s"
  by (auto simp: mountOne_defs split: res.splits)

lemma traverse_spec:
  "map mr_spec (result (State_Monad.traverse_list (mountOne K) specs) h) = specs"
proof (induction specs arbitrary: h)
  case Nil
  then show ?case by simp
next
  case (Cons s specs)
  obtain r h' where r: "run_state (mountOne K s) h = (r, h')" by fastforce
  obtain rs h'' where rs: "run_state (State_Monad.traverse_list (mountOne K) specs) h' = (rs, h'')"
    by fastforce
  have "mr_spec r = s" using mountOne_spec [of K s h] r by simp
  moreover have "map mr_spec rs = specs" using Cons [of h'] rs by simp
  ultimately show ?case using r rs by simp
qed


fun is_mount_call :: "call \<Rightarrow> bool" where
  "is_mount_call (Mount s t ty f d) = True"
| "is_mount_call _ = False"

definition mount_call :: "mountSpec \<Rightarrow> call" where
  "mount_call s = Mount (ms_source s) (ms_target s) (ms_fstype s) (ms_flags s) (ms_data s)"

lemma only_no_mount_tests:
  "only (\<lambda>c. \<not> is_mount_call c) (device_present K s)"
  "only (\<lambda>c. \<not> is_mount_call c) (already_full K s)"
  unfolding device_present_def already_full_def path_exists_def isPopulated_def
  by (auto intro!: only_intros split: res.splits)

lemma try_mount_run:
  "made (try_mount K s) h = [MkdirAll (ms_target s), mount_call s]"
  "\<not> mr_skipped (result (try_mount K s) h)"
  by (simp_all add: try_mount_def made_def events_def mount_call_def)

lemma is_mount_call_mount_call [simp]: "is_mount_call (mount_call s)"
  by (simp add: mount_call_def)

lemma mount_unless_full_mounts:
  "filter is_mount_call (made (mount_unless_full K s) h) =
     (if mr_skipped (result (mount_unless_full K s) h) then [] else [mount_call s])"
proof -
  obtain full h' where r: "run_state (already_full K s) h = (full, h')" by fastforce
  let ?f = "\<lambda>full. if full then State_Monad.return (skip_result s ''already populated by kernel'')
     else try_mount K s"
  have "filter is_mount_call (made (State_Monad.bind (already_full K s) ?f) h) =
      filter is_mount_call (made (?f (result (already_full K s) h)) (after (already_full K s) h))"
    by (rule filter_made_bind_skip [OF only_no_mount_tests(2)])
      (simp add: only_true_try_mount only_return)
  then show ?thesis
    by (simp add: mount_unless_full_def r try_mount_run skip_result_def)
qed

lemma mountOne_mounts:
  "filter is_mount_call (made (mountOne K s) h) =
     (if mr_skipped (result (mountOne K s) h) then [] else [mount_call s])"
proof -
  obtain present h' where r: "run_state (device_present K s) h = (present, h')" by fastforce
  let ?f = "\<lambda>present. if \<not> present
     then State_Monad.return (skip_result s (''device '' @ ms_source s @ '' not present''))
     else mount_unless_full K s"
  have "filter is_mount_call (made (State_Monad.bind (device_present K s) ?f) h) =
      filter is_mount_call (made (?f (result (device_present K s) h)) (after (device_present K s) h))"
    by (rule filter_made_bind_skip [OF only_no_mount_tests(1)])
      (simp add: only_true_mount_unless_full only_return)
  then show ?thesis
    by (simp add: mountOne_def r mount_unless_full_mounts skip_result_def)
qed

text \<open>Whatever the kernel answers, there is one result per
  specification, in order, and the mounts attempted are exactly those of the specifications not
  reported as skipped, in order.\<close>

lemma mountAll_complete:
  "map mr_spec (result (mountAll K specs) h) = specs
   \<and> filter is_mount_call (made (mountAll K specs) h) =
       map (mount_call \<circ> mr_spec) (filter (\<lambda>r. \<not> mr_skipped r) (result (mountAll K specs) h))"
proof -
  have "filter is_mount_call (made (State_Monad.traverse_list (mountOne K) specs) h) =
       map (mount_call \<circ> mr_spec) (filter (\<lambda>r. \<not> mr_skipped r)
         (result (State_Monad.traverse_list (mountOne K) specs) h))"
  proof (induction specs arbitrary: h)
    case Nil
    then show ?case by (simp add: made_def)
  next
    case (Cons s specs)
    show ?case
      unfolding made_traverse_Cons [where f = "mountOne K", OF only_true_mountOne] traverse_Cons_run
      by (simp add: mountOne_mounts Cons mountOne_spec)
  qed
  then show ?thesis by (simp add: mountAll_def traverse_spec)
qed

text \<open>A block device that is not present is skipped with nothing but the
  one existence check made, and a present one is mounted with exactly its source, target, type,
  flags and data; the result carries an error precisely when that mount failed.\<close>

lemma mountOne_device:
  assumes "ms_device s" and "\<not> ms_skipIfPopulated s"
  shows "if succeeded (Stat (ms_source s), K h (Stat (ms_source s)))
    then made (mountOne K s) h = [Stat (ms_source s), MkdirAll (ms_target s), mount_call s]
       \<and> \<not> mr_skipped (result (mountOne K s) h)
       \<and> (mr_err (result (mountOne K s) h) = None \<longleftrightarrow> succeeded (last (events (mountOne K s) h)))
    else made (mountOne K s) h = [Stat (ms_source s)]
       \<and> mr_skipped (result (mountOne K s) h) \<and> mr_err (result (mountOne K s) h) = None"
proof -
  have "as_unit (K h (Stat (ms_source s))) = Ok () \<or> (\<exists>e. as_unit (K h (Stat (ms_source s))) = Err (Errno e))"
    by (rule as_unit_cases)
  then show ?thesis using assms
    by (auto simp: mountOne_defs mount_call_def made_def events_def succeeded_as_unit
        split: res.splits)
qed

lemma applyMountOpts_join:
  assumes "\<forall>w \<in> set kept. CHR '','' \<notin> set w"
  shows "applyMountOpts (join_with '','' kept) f d = fold apply_mount_opt kept (f, d)"
proof (cases "kept = []")
  case True
  then show ?thesis by (simp add: applyMountOpts_def apply_mount_opt_def)
next
  case False
  then show ?thesis using split_join [OF False assms] by (simp add: applyMountOpts_def)
qed

text \<open>A line of four words is dropped when its options say \<open>noauto\<close>;
  otherwise it denotes the mount of its source on its target with the flags and data of its
  remaining options, where the words that steer the init (\<open>nofail\<close>, \<open>_netdev\<close>, \<dots>) reach
  neither, and it waits for its device exactly when the source lies under \<open>/dev/\<close>.\<close>

lemma parse_fstab_entry:
  assumes "is_word src" "is_word tgt" "is_word ty" "is_word opts" "\<not> hasPrefix src ''#''"
  shows "parse_fstab_line (join_with '' '' [src, tgt, ty, opts]) =
    (let ws = split_on (CHR '','') opts;
         kept = filter (\<lambda>w. w \<noteq> ''noauto'' \<and> \<not> init_opt w) ws
     in if ''noauto'' \<in> set ws then None
        else Some \<lparr>ms_source = src, ms_target = tgt, ms_fstype = ty,
               ms_flags = fst (fold apply_mount_opt kept (0, [])),
               ms_data = join_with '','' (filter data_word kept),
               ms_device = hasPrefix src ''/dev/'', ms_skipIfPopulated = False\<rparr>)"
proof -
  let ?l = "join_with '' '' [src, tgt, ty, opts]"
  let ?kept = "filter (\<lambda>w. w \<noteq> ''noauto'' \<and> \<not> init_opt w) (split_on (CHR '','') opts)"
  have ws: "list_all is_word [src, tgt, ty, opts]" using assms by simp
  have t: "trimSpace ?l = ?l" by (rule trimSpace_join) (use ws in simp_all)
  have f: "str_fields ?l = [src, tgt, ty, opts]" by (rule str_fields_join [OF ws])
  obtain c cs where c: "src = c # cs" using assms(1) by (cases src) (auto simp: is_word_def)
  have ne: "?l \<noteq> []" "\<not> hasPrefix ?l ''#''"
    using assms(5) by (simp_all add: c hasPrefix_def)
  have k: "\<forall>w \<in> set ?kept. CHR '','' \<notin> set w"
    by (auto dest: split_on_parts_free)
  have d: "snd (fold apply_mount_opt ?kept (0, [])) = filter data_word ?kept"
    using applet.fold_data [of ?kept 0 "[]"] by simp
  have a: "fst (applyMountOpts (join_with '','' ?kept) 0 []) = fst (fold apply_mount_opt ?kept (0, []))"
    "snd (applyMountOpts (join_with '','' ?kept) 0 []) = filter data_word ?kept"
    by (simp_all only: applyMountOpts_join [OF k] d)
  show ?thesis
    unfolding parse_fstab_line_def t f Let_def
    using ne a by (simp del: join_with.simps filter_filter)
qed

end
