(* ===== verification/ClusterJoin.thy ===== *)
theory ClusterJoin
  imports Bridges Dhcp Mounts
begin

text \<open>
  Joining a cluster: from the kernel command line (\<open>boot_args_join_linux.go\<close>) or from a disk with a
  bundle (\<open>join_bundle_linux.go\<close>), with the files that both install (\<open>cni_setup_linux.go\<close>,
  \<open>ca_bundle_linux.go\<close>). The cryptographic packages are the parameter \<open>X\<close>. Both ways end with the same
  steps: start containerd, start the kubelet, watch its log until it has registered. The variables
  \<open>clusterJoined\<close> and \<open>liveProcs\<close> of the program are the state \<open>node_state\<close>. Logs that are read only to
  print their tail after a failure are left out.
\<close>

unbundle bit_operations_syntax

definition nl :: string where "nl = [CHR 0x0A]"

definition envApiserver :: string where "envApiserver = ''ASTERKUBE_APISERVER''"
definition envToken :: string where "envToken = ''ASTERKUBE_TOKEN''"
definition envCAHash :: string where "envCAHash = ''ASTERKUBE_CA_HASH''"
definition envNodeName :: string where "envNodeName = ''ASTERKUBE_NODE_NAME''"
definition envClusterDNS :: string where "envClusterDNS = ''ASTERKUBE_CLUSTER_DNS''"
definition envTaints :: string where "envTaints = ''ASTERKUBE_TAINTS''"
definition envNodeIP :: string where "envNodeIP = ''ASTERKUBE_NODE_IP''"
definition envInsecure :: string where "envInsecure = ''ASTERKUBE_INSECURE''"
definition nodeName :: string where "nodeName = ''asterkube''"

definition asterkubeNodeLabels :: string where
  "asterkubeNodeLabels = ''kernel.asterinas.io/name=asterinas,kernel.asterinas.io/compat=linux''"

definition bootArgsConfigured :: "getenv \<Rightarrow> bool" where
  "bootArgsConfigured env \<longleftrightarrow> trimSpace (env envApiserver) \<noteq> []"

definition envOr :: "getenv \<Rightarrow> string \<Rightarrow> string \<Rightarrow> string" where
  "envOr env key d = (let v = trimSpace (env key) in if v \<noteq> [] then v else d)"


section \<open>Trust\<close>

record crypto =
  x_base64 :: "string \<Rightarrow> string res"
  x_pem :: "string \<Rightarrow> string option"
  x_certificate :: "string \<Rightarrow> string res"
  x_public_key :: "string \<Rightarrow> string res"
  x_sha256_hex :: "string \<Rightarrow> string"

text \<open>The leftmost match of \<open>certificate-authority-data:\s*([A-Za-z0-9+/=]+)\<close>, its group.\<close>

definition ca_key :: string where "ca_key = ''certificate-authority-data:''"

definition re_space :: "char \<Rightarrow> bool" where
  "re_space c \<longleftrightarrow> c \<in> {CHR 0x09, CHR 0x0A, CHR 0x0C, CHR 0x0D, CHR 0x20}"

definition base64_char :: "char \<Rightarrow> bool" where
  "base64_char c \<longleftrightarrow> (let n = of_char c :: nat in 65 \<le> n \<and> n \<le> 90 \<or> 97 \<le> n \<and> n \<le> 122 \<or> 48 \<le> n \<and> n \<le> 57)
     \<or> c \<in> {CHR ''+'', CHR ''/'', CHR ''=''}"

fun ca_match :: "string \<Rightarrow> string option" where
  "ca_match [] = None"
| "ca_match (c # s) =
     (let m = takeWhile base64_char (dropWhile re_space (drop (length ca_key) (c # s))) in
      if hasPrefix (c # s) ca_key \<and> m \<noteq> [] then Some m else ca_match s)"

text \<open>\<open>strings.EqualFold\<close> with an ASCII string: besides the case of letters, the long s and the Kelvin
  sign fold to ASCII letters.\<close>

fun fold_case :: "string \<Rightarrow> string" where
  "fold_case [] = []"
| "fold_case (c # s) =
     (if c = CHR 0xC5 \<and> take 1 s = [CHR 0xBF] then CHR ''S'' # fold_case (drop 1 s)
      else if c = CHR 0xE2 \<and> take 2 s = [CHR 0x84, CHR 0xAA] then CHR ''K'' # fold_case (drop 2 s)
      else upper_char c # fold_case s)"

definition equal_fold_ascii :: "string \<Rightarrow> string \<Rightarrow> bool" where
  "equal_fold_ascii s t \<longleftrightarrow> fold_case s = fold_case t"

definition res_bind :: "'a res \<Rightarrow> ('a \<Rightarrow> 'b res) \<Rightarrow> 'b res" where
  "res_bind r f = (case r of Ok a \<Rightarrow> f a | Err e \<Rightarrow> Err e | Panic \<Rightarrow> Panic | Hang \<Rightarrow> Hang)"

text \<open>The key of the certificate in \<open>caB64\<close>, as it is hashed.\<close>

definition ca_spki :: "crypto \<Rightarrow> string \<Rightarrow> string res" where
  "ca_spki X caB64 =
     res_bind (wrap_err ''decode CA'' (x_base64 X caB64)) (\<lambda>caPEM.
     case x_pem X caPEM of
       None \<Rightarrow> Err (Text ''CA is not PEM'')
     | Some der \<Rightarrow>
         res_bind (wrap_err ''parse CA'' (x_certificate X der)) (\<lambda>key. x_public_key X key))"

definition verify_ca :: "crypto \<Rightarrow> string \<Rightarrow> string \<Rightarrow> string res" where
  "verify_ca X caHash body = (case ca_match body of
       None \<Rightarrow> Err (Text ''cluster-info has no certificate-authority-data'')
     | Some caB64 \<Rightarrow>
         res_bind (ca_spki X caB64) (\<lambda>spki.
         if equal_fold_ascii (''sha256:'' @ x_sha256_hex X spki) caHash then Ok caB64 else Err (Text ''CA hash mismatch'')))"

definition cluster_info_url :: "string \<Rightarrow> string" where
  "cluster_info_url apiserver =
     trimRight (CHR ''/'') apiserver @ ''/api/v1/namespaces/kube-public/configmaps/cluster-info''"

definition fetchAndVerifyClusterCA :: "crypto \<Rightarrow> kernel \<Rightarrow> string \<Rightarrow> string \<Rightarrow> string res io" where
  "fetchAndVerifyClusterCA X K apiserver caHash =
     try_io (os_data K (HttpGet (cluster_info_url apiserver))) (\<lambda>body.
     State_Monad.return (verify_ca X caHash body))"

definition bootstrap_config :: "string \<Rightarrow> string \<Rightarrow> string \<Rightarrow> string" where
  "bootstrap_config apiserver clusterFields token =
     ''apiVersion: v1'' @ nl @ ''kind: Config'' @ nl @
     ''clusters:'' @ nl @ ''- name: c'' @ nl @ ''  cluster:'' @ nl @ ''    server: '' @ apiserver @ nl @ clusterFields @ nl @
     ''users:'' @ nl @ ''- name: tls-bootstrap-token-user'' @ nl @ ''  user:'' @ nl @ ''    token: '' @ token @ nl @
     ''contexts:'' @ nl @ ''- name: ctx'' @ nl @ ''  context:'' @ nl @ ''    cluster: c'' @ nl @
     ''    user: tls-bootstrap-token-user'' @ nl @ ''current-context: ctx'' @ nl"

definition insecure_field :: string where
  "insecure_field = ''    insecure-skip-tls-verify: true''"

definition ca_field :: "string \<Rightarrow> string" where
  "ca_field caB64 = ''    certificate-authority-data: '' @ caB64"

definition writeBootstrapKubeconfig :: "crypto \<Rightarrow> kernel \<Rightarrow> getenv \<Rightarrow> string \<Rightarrow> string \<Rightarrow> string \<Rightarrow> unit res io" where
  "writeBootstrapKubeconfig X K env path apiserver token =
     try_io (if trimSpace (env envInsecure) \<noteq> [] then ok_io insecure_field
             else if trimSpace (env envCAHash) \<noteq> []
             then try_io (wrap_io (''CA discovery via '' @ envCAHash) (fetchAndVerifyClusterCA X K apiserver (trimSpace (env envCAHash)))) (\<lambda>caB64.
                  ok_io (ca_field caB64))
             else err_io (Text ''no trust anchor'')) (\<lambda>clusterFields.
     os_unit K (WriteFile path (bootstrap_config apiserver clusterFields token) 384))"


section \<open>Files that a node needs\<close>

definition podCIDR :: string where "podCIDR = ''10.244.4.0/24''"

definition quoted :: "string \<Rightarrow> string" where
  "quoted s = CHR 0x22 # s @ [CHR 0x22]"

definition cniConflist :: string where
  "cniConflist = concat (map (\<lambda>l. l @ nl)
     [''{'',
      ''  '' @ quoted ''cniVersion'' @ '': '' @ quoted ''0.3.1'' @ '','',
      ''  '' @ quoted ''name'' @ '': '' @ quoted ''asterkube'' @ '','',
      ''  '' @ quoted ''plugins'' @ '': ['',
      ''    {'',
      ''      '' @ quoted ''type'' @ '': '' @ quoted ''ptp'' @ '','',
      ''      '' @ quoted ''ipMasq'' @ '': true,'',
      ''      '' @ quoted ''ipam'' @ '': {'',
      ''        '' @ quoted ''type'' @ '': '' @ quoted ''host-local'' @ '','',
      ''        '' @ quoted ''dataDir'' @ '': '' @ quoted ''/run/cni-ipam-state'' @ '','',
      ''        '' @ quoted ''routes'' @ '': [{ '' @ quoted ''dst'' @ '': '' @ quoted ''0.0.0.0/0'' @ '' }],'',
      ''        '' @ quoted ''ranges'' @ '': [[{ '' @ quoted ''subnet'' @ '': '' @ quoted podCIDR @ '' }]]'',
      ''      },'',
      ''      '' @ quoted ''mtu'' @ '': 1500'',
      ''    },'',
      ''    {'',
      ''      '' @ quoted ''type'' @ '': '' @ quoted ''portmap'' @ '','',
      ''      '' @ quoted ''capabilities'' @ '': { '' @ quoted ''portMappings'' @ '': true }'',
      ''    }'',
      ''  ]'',
      ''}''])"

definition copyExecutable :: "kernel \<Rightarrow> string \<Rightarrow> string \<Rightarrow> unit res io" where
  "copyExecutable K src dst =
     try_io (os_data K (ReadFile src)) (\<lambda>data.
     try_io (os_unit K (WriteFile dst data 493)) (\<lambda>_.
     os_unit K (Chmod dst 493)))"

definition cni_dirs :: "string list" where
  "cni_dirs = [''/opt/cni/bin'', ''/etc/cni/net.d'', ''/run/cni-ipam-state'']"

definition cni_config_path :: string where
  "cni_config_path = ''/etc/cni/net.d/10-asterkube.conflist''"

fun make_dirs :: "kernel \<Rightarrow> string list \<Rightarrow> unit res io" where
  "make_dirs K [] = ok_io ()"
| "make_dirs K (d # ds) = try_io (os_unit K (MkdirAll d)) (\<lambda>_. make_dirs K ds)"

text \<open>Whether the configuration was written. The listing gives the entries that are not directories; a
  plugin that cannot be copied is only reported.\<close>

definition setupCNI :: "kernel \<Rightarrow> string \<Rightarrow> unit res io" where
  "setupCNI K cniSrcDir =
     try_io (make_dirs K cni_dirs) (\<lambda>_.
     State_Monad.bind (os_names K (ReadDir cniSrcDir)) (\<lambda>r.
     State_Monad.bind (case r of
         Ok names \<Rightarrow> State_Monad.bind (State_Monad.traverse_list (\<lambda>n.
             copyExecutable K (path_join [cniSrcDir, n]) (path_join [''/opt/cni/bin'', n])) names) (\<lambda>_. State_Monad.return ())
       | _ \<Rightarrow> State_Monad.return ()) (\<lambda>_.
     os_unit K (WriteFile cni_config_path cniConflist 420))))"

definition readFileString :: "kernel \<Rightarrow> string \<Rightarrow> string io" where
  "readFileString K path = os_as (\<lambda>r. case r of RData s \<Rightarrow> s | _ \<Rightarrow> []) K (ReadFile path)"

definition installClusterHosts :: "kernel \<Rightarrow> string \<Rightarrow> unit io" where
  "installClusterHosts K src =
     State_Monad.bind (readFileString K src) (\<lambda>extra.
     if extra = [] then State_Monad.return ()
     else State_Monad.bind (readFileString K ''/etc/hosts'') (\<lambda>hosts.
       if contains hosts (trimSpace extra) then State_Monad.return ()
       else os_ignore K (WriteFile ''/etc/hosts'' (hosts @ extra) 420)))"

definition ca_targets :: "string list" where
  "ca_targets = [''/etc/ssl/certs/ca-certificates.crt'', ''/etc/pki/tls/certs/ca-bundle.crt'',
     ''/etc/pki/ca-trust/extracted/pem/tls-ca-bundle.pem'']"

definition path_dir :: "string \<Rightarrow> string" where
  "path_dir p = path_clean (join_with ''/'' (butlast (split_on (CHR ''/'') p)) @ ''/'')"

definition install_ca :: "kernel \<Rightarrow> string \<Rightarrow> string \<Rightarrow> unit res io" where
  "install_ca K data t =
     try_io (os_unit K (MkdirAll (path_dir t))) (\<lambda>_. os_unit K (WriteFile t data 420))"

text \<open>The number of places where the bundle was installed.\<close>

definition installCABundle :: "kernel \<Rightarrow> string \<Rightarrow> nat option io" where
  "installCABundle K src =
     State_Monad.bind (os_data K (ReadFile src)) (\<lambda>r. case r of
         Ok data \<Rightarrow>
           State_Monad.bind (State_Monad.traverse_list (install_ca K data) ca_targets) (\<lambda>rs.
           State_Monad.return (Some (length (filter is_ok rs))))
       | _ \<Rightarrow> State_Monad.return None)"

definition write_if_absent :: "kernel \<Rightarrow> string \<times> string \<Rightarrow> unit io" where
  "write_if_absent K f =
     State_Monad.bind (path_exists K (fst f)) (\<lambda>there.
     if there then State_Monad.return () else os_ignore K (WriteFile (fst f) (snd f) 420))"

definition user_files :: "(string \<times> string) list" where
  "user_files =
     [(''/etc/passwd'', ''root:x:0:0:root:/root:/bin/sh'' @ nl @ ''nobody:x:65534:65534:nobody:/:/sbin/nologin'' @ nl),
      (''/etc/group'', ''root:x:0:'' @ nl @ ''nobody:x:65534:'' @ nl),
      (''/etc/subuid'', ''root:100000:65536'' @ nl),
      (''/etc/subgid'', ''root:100000:65536'' @ nl)]"

definition prepareKubeletNodeFiles :: "kernel \<Rightarrow> unit io" where
  "prepareKubeletNodeFiles K =
     State_Monad.bind (os_ignore K (Symlink ''/dev/null'' ''/dev/kmsg'')) (\<lambda>_.
     State_Monad.bind (os_ignore K (WriteFile ''/etc/machine-id'' (''0a57e1b1a5f34c0e9b00000000000001'' @ nl) 292)) (\<lambda>_.
     State_Monad.bind (State_Monad.traverse_list (write_if_absent K) user_files) (\<lambda>_. State_Monad.return ())))"

definition linkRunc :: "kernel \<Rightarrow> unit io" where
  "linkRunc K =
     State_Monad.bind (os_as (\<lambda>r. case r of RData s \<Rightarrow> if s = [] then ''/usr/bin/kubelet'' else s | _ \<Rightarrow> ''/usr/bin/kubelet'') K Executable) (\<lambda>self.
     State_Monad.bind (os_ignore K (Remove ''/usr/bin/runc'')) (\<lambda>_.
     os_ignore K (Symlink self ''/usr/bin/runc'')))"


section \<open>The network of the node\<close>

definition ipv4 :: "byte \<Rightarrow> byte \<Rightarrow> byte \<Rightarrow> byte \<Rightarrow> ip" where
  "ipv4 a b c d = Some [a, b, c, d]"

definition configureEth0BestEffort :: "nat \<Rightarrow> kernel \<Rightarrow> bool \<Rightarrow> unit res io" where
  "configureEth0BestEffort fuel K networkConfigured =
     (if networkConfigured then ok_io ()
      else attempt (nlOpen K) () (\<lambda>s.
        defer_io (nlClose K s) (
          attempt (linkIndexByName fuel K s ''eth0'') () (\<lambda>idx.
          logged (addAddrV4 fuel K (nl_bump s) idx (ipv4 10 0 2 15) 24) (\<lambda>_.
          logged (addDefaultRouteV4 fuel K (nl_bump (nl_bump s)) (ipv4 10 0 2 2) idx) ok_io)))))"

text \<open>The address of the node as an alias with prefix 32.\<close>

definition node_ip_alias :: "nat \<Rightarrow> kernel \<Rightarrow> string \<Rightarrow> unit res io" where
  "node_ip_alias fuel K nodeIP = (case to4 (parseIP nodeIP) of
       None \<Rightarrow> ok_io ()
     | Some v4 \<Rightarrow>
         attempt (nlOpen K) () (\<lambda>s.
         State_Monad.bind
           (attempt (linkIndexByName fuel K s ''eth0'') () (\<lambda>idx.
            logged (addAddrV4 fuel K (nl_bump s) idx (Some v4) 32) ok_io)) (\<lambda>r. case r of
               Ok _ \<Rightarrow> State_Monad.bind (nlClose K s) ok_io
             | _ \<Rightarrow> State_Monad.return r)))"


section \<open>Daemons\<close>

record node_state =
  clusterJoined :: bool
  liveProcs :: "int list"

text \<open>A daemon whose output goes to a log file.\<close>

definition daemon :: "string list \<Rightarrow> string list \<Rightarrow> int \<Rightarrow> proc_attr" where
  "daemon argv envs logf =
     \<lparr>pa_path = hd argv, pa_argv = argv, pa_env = envs, pa_dir = [], pa_flags = 0, pa_chroot = [], pa_cred = None,
      pa_files = [logf, logf], pa_tty = False\<rparr>"

definition create_flags :: mflags where
  "create_flags = (O_RDWR OR O_CREATE OR 0x200)"

definition zeroCContainerd :: string where "zeroCContainerd = ''/usr/bin/containerd''"
definition containerd_sock :: string where "containerd_sock = ''/run/containerd/containerd.sock''"

fun await_socket :: "nat \<Rightarrow> kernel \<Rightarrow> string \<Rightarrow> bool io" where
  "await_socket 0 K sock = State_Monad.return False"
| "await_socket (Suc n) K sock =
     State_Monad.bind (path_exists K sock) (\<lambda>there.
     if there then State_Monad.return True
     else State_Monad.bind (os_ignore K (Sleep 100000000)) (\<lambda>_. await_socket n K sock))"

definition containerd_argv :: "string \<Rightarrow> string \<Rightarrow> string \<Rightarrow> string list" where
  "containerd_argv root state sock =
     [zeroCContainerd, ''--root'', root, ''--state'', state, ''--address'', sock, ''--log-level'', ''info'']"

text \<open>The pid of the daemon when its socket has appeared.\<close>

definition startStaticContainerd :: "kernel \<Rightarrow> string \<Rightarrow> string \<Rightarrow> string \<Rightarrow> string \<Rightarrow> string list \<Rightarrow> int option io" where
  "startStaticContainerd K root state sock logPath envs =
     State_Monad.bind (os_ignore K (MkdirAll root)) (\<lambda>_.
     State_Monad.bind (os_ignore K (MkdirAll state)) (\<lambda>_.
     State_Monad.bind (os_int K (OpenFile logPath create_flags)) (\<lambda>l. case l of
         Ok logf \<Rightarrow>
           State_Monad.bind (os_int K (StartProcess (daemon (containerd_argv root state sock) envs logf))) (\<lambda>p. case p of
               Ok pid \<Rightarrow>
                 State_Monad.bind (await_socket 100 K sock) (\<lambda>up.
                 if up then State_Monad.return (Some pid)
                 else State_Monad.bind (os_ignore K (Kill pid SIGKILL)) (\<lambda>_. State_Monad.return None))
             | _ \<Rightarrow> State_Monad.return None)
       | _ \<Rightarrow> State_Monad.return None)))"

definition registered_in :: "string \<Rightarrow> bool" where
  "registered_in log \<longleftrightarrow> contains log ''Successfully registered node'' \<or> contains log ''Successfully registered Node''"

text \<open>The watch: \<open>k.ProcessState\<close> is set only by a call of \<open>Wait\<close>, which the code does not make, so its test
  for an early exit never holds. Reported gaps are output only.\<close>

fun watch_join :: "nat \<Rightarrow> kernel \<Rightarrow> string \<Rightarrow> int \<Rightarrow> bool res io" where
  "watch_join 0 K logPath deadline = State_Monad.return Hang"
| "watch_join (Suc fuel) K logPath deadline =
     State_Monad.bind (os_now K) (\<lambda>now.
     if now \<ge> deadline then ok_io False
     else State_Monad.bind (readFileString K logPath) (\<lambda>log.
       if registered_in log then ok_io True
       else State_Monad.bind (os_ignore K (Sleep 3000000000)) (\<lambda>_. watch_join fuel K logPath deadline)))"

definition kubelet_log :: string where "kubelet_log = ''/run/kubelet-join.log''"
definition kubelet_root :: string where "kubelet_root = ''/var/lib/kubelet''"

definition join_env :: "string list \<Rightarrow> string list" where
  "join_env environ = environ @ [''PATH=/usr/bin:/bin'', ''XDG_RUNTIME_DIR=/run'']"

text \<open>The processes that a node keeps, in the order of their registration.\<close>

definition keepAlive :: "int \<Rightarrow> node_state \<Rightarrow> node_state" where
  "keepAlive pid st = st\<lparr>liveProcs := liveProcs st @ [pid]\<rparr>"

text \<open>Start the kubelet and watch it: both daemons are kept or both are killed.\<close>

definition register_kubelet :: "nat \<Rightarrow> kernel \<Rightarrow> string list \<Rightarrow> string list \<Rightarrow> int \<Rightarrow> int \<Rightarrow> node_state \<Rightarrow> node_state res io" where
  "register_kubelet fuel K envs args cd logf st =
     attempt (os_int K (StartProcess (daemon (''/usr/bin/kubelet'' # args) envs logf))) st (\<lambda>k.
     State_Monad.bind (os_now K) (\<lambda>now.
     try_io (watch_join fuel K kubelet_log (now + 75000000000)) (\<lambda>registered.
     if registered then ok_io (keepAlive k (keepAlive cd (st\<lparr>clusterJoined := True\<rparr>)))
     else State_Monad.bind (os_ignore K (Kill k SIGKILL)) (\<lambda>_.
       State_Monad.bind (os_ignore K (Kill cd SIGKILL)) (\<lambda>_. ok_io st)))))"

definition kubelet_up :: "nat \<Rightarrow> kernel \<Rightarrow> string list \<Rightarrow> string list \<Rightarrow> node_state \<Rightarrow> int \<Rightarrow> node_state res io" where
  "kubelet_up fuel K environ args st cd =
     State_Monad.bind (os_ignore K (MkdirAll (kubelet_root @ ''/pki''))) (\<lambda>_.
     State_Monad.bind (prepareKubeletNodeFiles K) (\<lambda>_.
     attempt (os_int K (OpenFile kubelet_log create_flags)) st (\<lambda>logf.
     register_kubelet fuel K (join_env environ) args cd logf st)))"

definition containerd_up :: "kernel \<Rightarrow> string list \<Rightarrow> int option io" where
  "containerd_up K environ = startStaticContainerd K ''/run/containerd/root'' ''/run/containerd/state'' containerd_sock
     ''/run/containerd/containerd.log'' (join_env environ)"

definition run_daemons :: "nat \<Rightarrow> kernel \<Rightarrow> string list \<Rightarrow> string list \<Rightarrow> node_state \<Rightarrow> node_state res io" where
  "run_daemons fuel K environ args st =
     State_Monad.bind (linkRunc K) (\<lambda>_.
     State_Monad.bind (containerd_up K environ) (\<lambda>c. case c of
         None \<Rightarrow> ok_io st
       | Some cd \<Rightarrow> kubelet_up fuel K environ args st cd))"

definition endpoint_args :: "string list" where
  "endpoint_args = [''--container-runtime-endpoint=unix://'' @ containerd_sock, ''--image-service-endpoint=unix://'' @ containerd_sock]"

definition node_args :: "string \<Rightarrow> string \<Rightarrow> string list" where
  "node_args node nodeIP =
     [''--hostname-override='' @ node, ''--node-ip='' @ nodeIP, ''--register-node=true'', ''--node-labels='' @ asterkubeNodeLabels,
      ''--cgroup-driver=cgroupfs'', ''--cgroups-per-qos=false'', ''--enforce-node-allocatable='', ''--cgroup-root=/'',
      ''--runtime-cgroups=/'', ''--kubelet-cgroups=/'', ''--fail-swap-on=false'', ''--resolv-conf=/etc/resolv.conf'',
      ''--node-status-update-frequency=4s'', ''--v=2'']"

definition optional_args :: "string \<Rightarrow> string \<Rightarrow> string list" where
  "optional_args taints dns =
     given (trimSpace taints \<noteq> []) [''--register-with-taints='' @ trimSpace taints] @
     given (trimSpace dns \<noteq> []) [''--cluster-dns='' @ trimSpace dns]"


section \<open>Joining from the kernel command line\<close>

definition bootstrap_path :: string where "bootstrap_path = ''/run/bootstrap.kubeconfig''"

definition boot_kubelet_args :: "getenv \<Rightarrow> string list" where
  "boot_kubelet_args env =
     [''--bootstrap-kubeconfig='' @ bootstrap_path, ''--kubeconfig='' @ kubelet_root @ ''/kubelet.conf'',
      ''--cert-dir='' @ kubelet_root @ ''/pki''] @ endpoint_args @ [''--root-dir='' @ kubelet_root] @
     node_args (envOr env envNodeName ''asterkube'') (envOr env envNodeIP ''10.0.2.15'') @
     optional_args (env envTaints) (env envClusterDNS)"

definition bootArgsJoin :: "nat \<Rightarrow> crypto \<Rightarrow> kernel \<Rightarrow> getenv \<Rightarrow> string list \<Rightarrow> bool \<Rightarrow> node_state \<Rightarrow> node_state res io" where
  "bootArgsJoin fuel X K env environ networkConfigured st =
     (let apiserver = trimSpace (env envApiserver); token = trimSpace (env envToken) in
      if token = [] then ok_io st
      else try_io (configureEth0BestEffort fuel K networkConfigured) (\<lambda>_.
        attempt (writeBootstrapKubeconfig X K env bootstrap_path apiserver token) st (\<lambda>_.
        logged (setupCNI K ''/usr/share/asterkube/cni'') (\<lambda>_.
        run_daemons fuel K environ (boot_kubelet_args env) st))))"


section \<open>Joining from a bundle\<close>

definition joinBundleMount :: string where "joinBundleMount = ''/mnt/join''"
definition joinBundleMarker :: string where "joinBundleMarker = ''.asterkube-join''"

definition isJoinBundle :: "kernel \<Rightarrow> string \<Rightarrow> bool io" where
  "isJoinBundle K dir =
     State_Monad.bind (path_exists K (path_join [dir, joinBundleMarker])) (\<lambda>marker.
     if marker then path_exists K (path_join [dir, ''kubeconfig'']) else State_Monad.return False)"

fun find_mounted :: "kernel \<Rightarrow> string list \<Rightarrow> string option io" where
  "find_mounted K [] = State_Monad.return None"
| "find_mounted K (d # ds) =
     State_Monad.bind (isJoinBundle K d) (\<lambda>yes. if yes then State_Monad.return (Some d) else find_mounted K ds)"

fun probe_devices :: "kernel \<Rightarrow> string list \<Rightarrow> string option io" where
  "probe_devices K [] = State_Monad.return None"
| "probe_devices K (dev # devs) =
     State_Monad.bind (path_exists K dev) (\<lambda>there.
     if \<not> there then probe_devices K devs
     else State_Monad.bind (os_unit K (Mount dev joinBundleMount ''ext2'' msRdonly [])) (\<lambda>m.
       if \<not> is_ok m then probe_devices K devs
       else State_Monad.bind (isJoinBundle K joinBundleMount) (\<lambda>yes.
         if yes then State_Monad.return (Some joinBundleMount)
         else State_Monad.bind (os_ignore K (Unmount joinBundleMount 0)) (\<lambda>_. probe_devices K devs))))"

definition virtio_disks :: "string list" where
  "virtio_disks = [''/dev/vda'', ''/dev/vdb'', ''/dev/vdc'', ''/dev/vdd'', ''/dev/vde'']"

definition findJoinBundle :: "kernel \<Rightarrow> string option io" where
  "findJoinBundle K =
     State_Monad.bind (find_mounted K [joinBundleMount, ''/ext2'']) (\<lambda>found. case found of
         Some dir \<Rightarrow> State_Monad.return (Some dir)
       | None \<Rightarrow>
           State_Monad.bind (os_ignore K (MkdirAll joinBundleMount)) (\<lambda>_.
           probe_devices K virtio_disks))"

text \<open>Settings of \<open>node.env\<close>: later lines win, so they are put in front.\<close>

definition env_line :: "string \<Rightarrow> (string \<times> string) list \<Rightarrow> (string \<times> string) list" where
  "env_line ln0 m =
     (let ln = trimSpace ln0 in
      if ln = [] \<or> hasPrefix ln ''#'' then m
      else case indexByte ln (CHR ''='') of
          Some i \<Rightarrow> if i > 0 then (trimSpace (take i ln), trimSpace (drop (i + 1) ln)) # m else m
        | None \<Rightarrow> m)"

definition env_settings :: "string \<Rightarrow> (string \<times> string) list" where
  "env_settings data = fold env_line (split_on (CHR 0x0A) data) []"

definition parseEnvFile :: "kernel \<Rightarrow> string \<Rightarrow> (string \<times> string) list io" where
  "parseEnvFile K path = os_as (\<lambda>r. case r of RData s \<Rightarrow> env_settings s | _ \<Rightarrow> []) K (ReadFile path)"

definition setting_of :: "(string \<times> string) list \<Rightarrow> string \<Rightarrow> string" where
  "setting_of m key = (case map_of m key of Some v \<Rightarrow> v | None \<Rightarrow> [])"

definition bundle_kubelet_args :: "string \<Rightarrow> (string \<times> string) list \<Rightarrow> string list" where
  "bundle_kubelet_args dir m =
     [''--kubeconfig='' @ path_join [dir, ''kubeconfig'']] @ endpoint_args @
     [''--root-dir='' @ kubelet_root, ''--cert-dir='' @ kubelet_root @ ''/pki''] @
     node_args (orDefault (setting_of m ''NODE_NAME'') nodeName) (orDefault (setting_of m ''NODE_IP'') ''10.0.2.15'') @
     optional_args (setting_of m ''TAINTS'') (setting_of m ''CLUSTER_DNS'')"

definition bundle_resolv :: "kernel \<Rightarrow> string \<Rightarrow> unit io" where
  "bundle_resolv K dir =
     State_Monad.bind (path_exists K (path_join [dir, ''resolv.conf''])) (\<lambda>there.
     if there
     then State_Monad.bind (os_data K (ReadFile (path_join [dir, ''resolv.conf'']))) (\<lambda>r. case r of
         Ok data \<Rightarrow> os_ignore K (WriteFile ''/etc/resolv.conf'' data 420)
       | _ \<Rightarrow> State_Monad.return ())
     else State_Monad.return ())"

definition joinFromBundle :: "nat \<Rightarrow> kernel \<Rightarrow> string list \<Rightarrow> bool \<Rightarrow> string \<Rightarrow> node_state \<Rightarrow> node_state res io" where
  "joinFromBundle fuel K environ networkConfigured dir st =
     State_Monad.bind (parseEnvFile K (path_join [dir, ''node.env''])) (\<lambda>m.
     try_io (configureEth0BestEffort fuel K networkConfigured) (\<lambda>_.
     try_io (node_ip_alias fuel K (orDefault (setting_of m ''NODE_IP'') ''10.0.2.15'')) (\<lambda>_.
     State_Monad.bind (installClusterHosts K (path_join [dir, ''hosts''])) (\<lambda>_.
     State_Monad.bind (bundle_resolv K dir) (\<lambda>_.
     logged (setupCNI K ''/usr/share/asterkube/cni'') (\<lambda>_.
     run_daemons fuel K environ (bundle_kubelet_args dir m) st))))))"



section \<open>Trust is never taken on faith\<close>

lemma res_bind_Ok: "res_bind r f = Ok b \<longleftrightarrow> (\<exists>a. r = Ok a \<and> f a = Ok b)"
  by (cases r) (auto simp: res_bind_def)

lemma verify_ca_Ok:
  "verify_ca X caHash body = Ok ca \<longleftrightarrow> (\<exists>spki. ca_match body = Some ca \<and> ca_spki X ca = Ok spki
     \<and> equal_fold_ascii (''sha256:'' @ x_sha256_hex X spki) caHash)"
  by (auto simp: verify_ca_def res_bind_Ok split: option.splits if_splits)

text \<open>C4 (the trust anchor): a bootstrap configuration is written only with the insecure option, when
  the command line asks for it, or with a certificate that the server sent and whose public key has the
  hash that the command line gives; in every other case nothing is written.\<close>

theorem bootstrap_trust:
  assumes "WriteFile path data mode \<in> set (made (writeBootstrapKubeconfig X K env path apiserver token) h)"
  shows "mode = 384 \<and> (\<exists>fields. data = bootstrap_config apiserver fields token
    \<and> (if trimSpace (env envInsecure) \<noteq> [] then fields = insecure_field
       else \<exists>ca body spki. fields = ca_field ca \<and> K h (HttpGet (cluster_info_url apiserver)) = RData body
         \<and> ca_match body = Some ca \<and> ca_spki X ca = Ok spki
         \<and> equal_fold_ascii (''sha256:'' @ x_sha256_hex X spki) (trimSpace (env envCAHash))))"
proof -
  let ?get = "HttpGet (cluster_info_url apiserver)"
  consider (insecure) "trimSpace (env envInsecure) \<noteq> []"
    | (hash) "trimSpace (env envInsecure) = []" "trimSpace (env envCAHash) \<noteq> []"
    | (none) "trimSpace (env envInsecure) = []" "trimSpace (env envCAHash) = []" by blast
  then show ?thesis
  proof cases
    case insecure
    then show ?thesis using assms
      by (auto simp: writeBootstrapKubeconfig_def made_def events_def run_try_io)
  next
    case hash
    note run = writeBootstrapKubeconfig_def fetchAndVerifyClusterCA_def made_def events_def run_try_io
    show ?thesis
    proof (cases "K h ?get")
      case (RData body)
      then show ?thesis using assms hash
        by (cases "verify_ca X (trimSpace (env envCAHash)) body") (auto simp: run verify_ca_Ok)
    qed (use assms hash in \<open>auto simp: run\<close>)
  next
    case none
    then show ?thesis using assms by (simp add: writeBootstrapKubeconfig_def made_def events_def run_try_io)
  qed
qed


definition toy_crypto :: crypto where
  "toy_crypto = \<lparr>x_base64 = Ok, x_pem = Some, x_certificate = Ok, x_public_key = Ok, x_sha256_hex = (\<lambda>_. ''ab'')\<rparr>"

definition info_server :: kernel where
  "info_server h c = (case c of HttpGet u \<Rightarrow> RData ''certificate-authority-data: QUJD'' | _ \<Rightarrow> RUnit)"

definition hash_env :: getenv where
  "hash_env v = (if v = envCAHash then ''SHA256:AB'' else [])"

lemma info_server_write:
  "WriteFile ''/x'' (bootstrap_config ''a'' (ca_field ''QUJD'') ''t'') 384
     \<in> set (made (writeBootstrapKubeconfig toy_crypto info_server hash_env ''/x'' ''a'' ''t'') [])"
proof -
  have "trimSpace (hash_env envInsecure) = []" "trimSpace (hash_env envCAHash) = ''SHA256:AB''"
    by code_simp+
  moreover have "verify_ca toy_crypto ''SHA256:AB'' ''certificate-authority-data: QUJD'' = Ok ''QUJD''"
    by code_simp
  ultimately show ?thesis
    by (simp add: writeBootstrapKubeconfig_def fetchAndVerifyClusterCA_def made_def events_def run_try_io info_server_def)
qed

theorem bootstrap_trust_witness:
  "\<exists>fields ca spki. bootstrap_config ''a'' (ca_field ''QUJD'') ''t'' = bootstrap_config ''a'' fields ''t''
     \<and> fields = ca_field ca \<and> ca_spki toy_crypto ca = Ok spki \<and> equal_fold_ascii (''sha256:'' @ x_sha256_hex toy_crypto spki) ''SHA256:AB''"
proof -
  have "trimSpace (hash_env envInsecure) = []" "trimSpace (hash_env envCAHash) = ''SHA256:AB''"
    by code_simp+
  then show ?thesis using bootstrap_trust [OF info_server_write] by auto
qed


section \<open>Finding a bundle\<close>

fun probe_call :: "call \<Rightarrow> bool" where
  "probe_call (Mount src tgt fs fl d) = (tgt = joinBundleMount \<and> fs = ''ext2'' \<and> fl = msRdonly \<and> d = [])"
| "probe_call (Stat p) = True"
| "probe_call (MkdirAll p) = (p = joinBundleMount)"
| "probe_call (Unmount p fl) = (p = joinBundleMount \<and> fl = 0)"
| "probe_call c = False"

fun mount_change :: "call \<times> reply \<Rightarrow> int" where
  "mount_change (Mount src tgt fs fl d, r) = (if as_unit r = Ok () then 1 else 0)"
| "mount_change (Unmount p fl, r) = - 1"
| "mount_change e = 0"

definition mounts_left :: "hist \<Rightarrow> int" where
  "mounts_left ev = sum_list (map mount_change ev)"

definition bundle_seen :: "string \<Rightarrow> hist \<Rightarrow> bool" where
  "bundle_seen dir ev \<longleftrightarrow> (\<exists>r r'. (Stat (path_join [dir, joinBundleMarker]), r) \<in> set ev
     \<and> (Stat (path_join [dir, ''kubeconfig'']), r') \<in> set ev \<and> as_unit r = Ok () \<and> as_unit r' = Ok ())"

lemma mounts_left_simps [simp]:
  "mounts_left [] = 0" "mounts_left (e # ev) = mount_change e + mounts_left ev"
  "mounts_left (ev @ ev') = mounts_left ev + mounts_left ev'"
  by (simp_all add: mounts_left_def)

lemma is_ok_unit: "is_ok r \<longleftrightarrow> r = Ok ()"
  by (cases r) auto

lemma run_path_exists [simp]:
  "run_state (path_exists K p) h = (as_unit (K h (Stat p)) = Ok (), h @ [(Stat p, K h (Stat p))])"
  by (simp add: path_exists_def is_ok_unit)

lemma isJoinBundle_run:
  "\<exists>ev. run_state (isJoinBundle K dir) h = (result (isJoinBundle K dir) h, h @ ev)
     \<and> list_all probe_call (calls ev) \<and> mounts_left ev = 0 \<and> (result (isJoinBundle K dir) h \<longrightarrow> bundle_seen dir ev)"
  by (auto simp: isJoinBundle_def bundle_seen_def)

text \<open>What both searches keep: only probing calls, nothing left mounted unless the bundle was found,
  and a found directory has been seen to hold a bundle.\<close>

definition search_ok :: "kernel \<Rightarrow> string option io \<Rightarrow> hist \<Rightarrow> bool" where
  "search_ok K m h \<longleftrightarrow> (\<exists>ev. after m h = h @ ev \<and> list_all probe_call (calls ev) \<and> (case result m h of
       None \<Rightarrow> mounts_left ev = 0
     | Some dir \<Rightarrow> bundle_seen dir ev \<and> mounts_left ev \<in> {0, 1}))"

lemma bundle_seen_mono: "bundle_seen dir ev \<Longrightarrow> bundle_seen dir (before @ ev)"
  unfolding bundle_seen_def by auto

lemma search_ok_prefix:
  assumes "search_ok K m' (h @ ev)" "list_all probe_call (calls ev)" "mounts_left ev = 0"
    and "result m h = result m' (h @ ev)" "after m h = after m' (h @ ev)"
  shows "search_ok K m h"
proof -
  obtain ev' where "after m' (h @ ev) = (h @ ev) @ ev'" "list_all probe_call (calls ev')"
      "case result m' (h @ ev) of None \<Rightarrow> mounts_left ev' = 0 | Some dir \<Rightarrow> bundle_seen dir ev' \<and> mounts_left ev' \<in> {0, 1}"
    using assms(1) unfolding search_ok_def by blast
  then show ?thesis unfolding search_ok_def using assms(2-5) bundle_seen_mono [where before = ev and ev = ev']
    by (intro exI [of _ "ev @ ev'"]) (auto split: option.splits)
qed

lemma find_mounted_ok: "search_ok K (find_mounted K ds) h"
proof (induction ds arbitrary: h)
  case Nil then show ?case by (simp add: search_ok_def)
next
  case (Cons d ds)
  obtain ev where ev: "run_state (isJoinBundle K d) h = (result (isJoinBundle K d) h, h @ ev)" "list_all probe_call (calls ev)"
      "mounts_left ev = 0" "result (isJoinBundle K d) h \<longrightarrow> bundle_seen d ev"
    using isJoinBundle_run by blast
  show ?case
  proof (cases "result (isJoinBundle K d) h")
    case True
    then show ?thesis using ev by (simp add: search_ok_def) 
  next
    case False
    then show ?thesis using ev by (intro search_ok_prefix [OF Cons, of ev]) (simp_all)
  qed
qed

lemma probe_devices_ok: "search_ok K (probe_devices K devs) h"
proof (induction devs arbitrary: h)
  case Nil then show ?case by (simp add: search_ok_def)
next
  case (Cons dev devs)
  let ?m = "Mount dev joinBundleMount ''ext2'' msRdonly []"
  let ?e1 = "(Stat dev, K h (Stat dev))"
  let ?e2 = "(?m, K (h @ [?e1]) ?m)"
  consider (absent) "as_unit (snd ?e1) \<noteq> Ok ()"
    | (unmountable) "as_unit (snd ?e1) = Ok ()" "as_unit (snd ?e2) \<noteq> Ok ()"
    | (mounted) "as_unit (snd ?e1) = Ok ()" "as_unit (snd ?e2) = Ok ()" by blast
  then show ?case
  proof cases
    case absent
    then show ?thesis by (intro search_ok_prefix [OF Cons, of "[?e1]"]) simp_all
  next
    case unmountable
    then show ?thesis by (intro search_ok_prefix [OF Cons, of "[?e1, ?e2]"]) (simp_all add: is_ok_unit)
  next
    case mounted
    let ?h = "h @ [?e1, ?e2]"
    obtain ev where ev: "run_state (isJoinBundle K joinBundleMount) ?h = (result (isJoinBundle K joinBundleMount) ?h, ?h @ ev)"
        "list_all probe_call (calls ev)" "mounts_left ev = 0" "result (isJoinBundle K joinBundleMount) ?h \<longrightarrow> bundle_seen joinBundleMount ev"
      using isJoinBundle_run by blast
    show ?thesis
    proof (cases "result (isJoinBundle K joinBundleMount) ?h")
      case True
      then show ?thesis using ev mounted bundle_seen_mono [where before = "[?e1, ?e2]"]
        unfolding search_ok_def by (intro exI [of _ "[?e1, ?e2] @ ev"]) (simp add: is_ok_unit)
    next
      case False
      let ?u = "(Unmount joinBundleMount 0, K (?h @ ev) (Unmount joinBundleMount 0))"
      show ?thesis using ev mounted False
        by (intro search_ok_prefix [OF Cons, of "[?e1, ?e2] @ ev @ [?u]"]) (simp_all add: is_ok_unit)
    qed
  qed
qed

text \<open>C38 (finding the bundle): the search for a join bundle only looks at files, mounts disks read-only at
  its own mount point and unmounts every disk that holds no bundle again; a directory that it returns has
  been seen to hold both the marker and a kubeconfig.\<close>

theorem findJoinBundle_sound:
  "list_all probe_call (made (findJoinBundle K) h) \<and> (case result (findJoinBundle K) h of
     None \<Rightarrow> mounts_left (events (findJoinBundle K) h) = 0
   | Some dir \<Rightarrow> bundle_seen dir (events (findJoinBundle K) h) \<and> mounts_left (events (findJoinBundle K) h) \<in> {0, 1})"
proof -
  let ?m = "find_mounted K [joinBundleMount, ''/ext2'']"
  obtain ev where ev: "after ?m h = h @ ev" "list_all probe_call (calls ev)" "case result ?m h of
       None \<Rightarrow> mounts_left ev = 0 | Some dir \<Rightarrow> bundle_seen dir ev \<and> mounts_left ev \<in> {0, 1}"
    using find_mounted_ok unfolding search_ok_def by blast
  have "search_ok K (findJoinBundle K) h"
  proof (cases "result ?m h")
    case None
    let ?e = "(MkdirAll joinBundleMount, K (h @ ev) (MkdirAll joinBundleMount))"
    show ?thesis using ev None unfolding findJoinBundle_def
      by (intro search_ok_prefix [where m' = "probe_devices K virtio_disks" and ev = "ev @ [?e]", OF probe_devices_ok])
         (simp_all add: case_prod_beta del: find_mounted.simps probe_devices.simps)
  next
    case (Some dir)
    then show ?thesis using ev unfolding findJoinBundle_def search_ok_def
      by (simp add: case_prod_beta del: find_mounted.simps)
  qed
  then show ?thesis unfolding search_ok_def by (metis made_def events_append)
qed



section \<open>A join decides\<close>

text \<open>The watch sleeps three seconds in each round, so 26 rounds outlast its 75 seconds.\<close>

lemma watch_join_returns:
  assumes "clocked K clock" "deadline - clock h \<le> 3000000000 * (int fuel - 1)" "0 < fuel"
  shows "\<exists>b. result (watch_join fuel K logPath deadline) h = Ok b \<and> after (watch_join fuel K logPath deadline) h =
      h @ events (watch_join fuel K logPath deadline) h
    \<and> (b \<longrightarrow> (\<exists>log. (ReadFile logPath, RData log) \<in> set (events (watch_join fuel K logPath deadline) h) \<and> registered_in log))"
  using assms(2,3)
proof (induction fuel arbitrary: h)
  case (Suc fuel)
  let ?h1 = "h @ [(Now, RInt (clock h))]"
  let ?h2 = "?h1 @ [(ReadFile logPath, K ?h1 (ReadFile logPath))]"
  let ?h3 = "?h2 @ [(Sleep 3000000000, K ?h2 (Sleep 3000000000))]"
  let ?log = "case K ?h1 (ReadFile logPath) of RData s \<Rightarrow> s | _ \<Rightarrow> []"
  note now = clocked_now [OF assms(1), of h]
  have empty: "\<not> registered_in []" by (simp add: registered_in_def)
  consider (late) "deadline \<le> clock h" | (seen) "clock h < deadline" "registered_in ?log"
    | (again) "clock h < deadline" "\<not> registered_in ?log" by linarith
  then show ?case
  proof cases
    case late
    then show ?thesis by (intro exI [of _ False]) (simp add: now events_def)
  next
    case seen
    then obtain log where "K ?h1 (ReadFile logPath) = RData log" using empty by (cases "K ?h1 (ReadFile logPath)") auto
    then show ?thesis using seen by (intro exI [of _ True]) (simp add: now events_def readFileString_def)
  next
    case again
    have "clock h \<le> clock ?h1" "clock ?h1 \<le> clock ?h2" by (rule clocked_le [OF assms(1)])+
    moreover have "clock ?h2 + 3000000000 \<le> clock ?h3"
      using clocked_step [OF assms(1), of ?h2 "Sleep 3000000000"] by (simp add: call_time_def)
    moreover from calculation have "0 < fuel" using Suc.prems again by (cases fuel) auto
    ultimately have "deadline - clock ?h3 \<le> 3000000000 * (int fuel - 1)" using Suc.prems by simp
    from Suc.IH [OF this \<open>0 < fuel\<close>] obtain b where b: "result (watch_join fuel K logPath deadline) ?h3 = Ok b"
        "after (watch_join fuel K logPath deadline) ?h3 = ?h3 @ events (watch_join fuel K logPath deadline) ?h3"
        "b \<longrightarrow> (\<exists>log. (ReadFile logPath, RData log) \<in> set (events (watch_join fuel K logPath deadline) ?h3) \<and> registered_in log)"
      by blast
    let ?w = "watch_join (Suc fuel) K logPath deadline"
    have r: "result ?w h = Ok b" "after ?w h = ?h3 @ events (watch_join fuel K logPath deadline) ?h3"
      using again b(1,2) by (simp_all add: now readFileString_def case_prod_beta)
    then have "events ?w h = [(Now, RInt (clock h)), (ReadFile logPath, K ?h1 (ReadFile logPath)),
        (Sleep 3000000000, K ?h2 (Sleep 3000000000))] @ events (watch_join fuel K logPath deadline) ?h3"
      by (intro events_append) simp
    then show ?thesis using r b(3) by auto
  qed
qed simp

definition joined :: "string list \<Rightarrow> string list \<Rightarrow> node_state \<Rightarrow> hist \<Rightarrow> int \<Rightarrow> node_state \<Rightarrow> bool" where
  "joined environ args st ev cd st' \<longleftrightarrow> (\<exists>k logf log.
     (StartProcess (daemon (''/usr/bin/kubelet'' # args) (join_env environ) logf), RInt k) \<in> set ev
   \<and> (ReadFile kubelet_log, RData log) \<in> set ev \<and> registered_in log
   \<and> st' = st\<lparr>clusterJoined := True, liveProcs := liveProcs st @ [cd, k]\<rparr>)"

lemma as_int_Ok: "as_int r = Ok n \<longleftrightarrow> r = RInt n"
  by (cases r) auto

lemma as_int_cases: "(\<exists>n. r = RInt n) \<or> (\<exists>e. as_int r = Err e)"
  by (cases r) auto

lemma register_kubelet_decides:
  assumes "clocked K clock" "26 \<le> fuel"
  shows "\<exists>st'. result (register_kubelet fuel K (join_env environ) args cd logf st) h = Ok st'
    \<and> (st' = st \<or> joined environ args st (events (register_kubelet fuel K (join_env environ) args cd logf st) h) cd st')"
proof -
  let ?p = "StartProcess (daemon (''/usr/bin/kubelet'' # args) (join_env environ) logf)"
  let ?r = "register_kubelet fuel K (join_env environ) args cd logf st"
  show ?thesis
  proof (cases "\<exists>k. K h ?p = RInt k")
    case False
    then show ?thesis using as_int_cases [of "K h ?p"] by (auto simp: register_kubelet_def attempt_def)
  next
    case True
    then obtain k where k: "K h ?p = RInt k" by blast
    let ?h1 = "h @ [(?p, RInt k)]"
    let ?h2 = "?h1 @ [(Now, RInt (clock ?h1))]"
    let ?w = "watch_join fuel K kubelet_log (clock ?h1 + 75000000000)"
    have "clock ?h1 \<le> clock ?h2" by (rule clocked_le [OF assms(1)])
    then have "clock ?h1 + 75000000000 - clock ?h2 \<le> 3000000000 * (int fuel - 1)" using assms(2) by simp
    then obtain b where b: "result ?w ?h2 = Ok b" "after ?w ?h2 = ?h2 @ events ?w ?h2"
        "b \<longrightarrow> (\<exists>log. (ReadFile kubelet_log, RData log) \<in> set (events ?w ?h2) \<and> registered_in log)"
      using watch_join_returns [OF assms(1)] assms(2) by fastforce
    note run = register_kubelet_def attempt_def k clocked_now [OF assms(1)] run_try_io
    show ?thesis
    proof (cases b)
      case True
      have r: "result ?r h = Ok (st\<lparr>clusterJoined := True, liveProcs := liveProcs st @ [cd, k]\<rparr>)"
          "after ?r h = ?h2 @ events ?w ?h2"
        using b(1,2) True by (simp_all add: run case_prod_beta keepAlive_def del: watch_join.simps)
      then have "events ?r h = [(?p, RInt k), (Now, RInt (clock ?h1))] @ events ?w ?h2"
        by (intro events_append) simp
      then show ?thesis unfolding r joined_def using b(3) True by auto
    next
      case False
      then show ?thesis using b(1) by (simp add: run case_prod_beta del: watch_join.simps)
    qed
  qed
qed


lemma grows_daemon_steps [only_intros]:
  "grows (linkRunc K)" "grows (prepareKubeletNodeFiles K)" "grows (await_socket n K sock)"
  "grows (startStaticContainerd K root state sock logPath envs)"
proof -
  show "grows (linkRunc K)" "grows (prepareKubeletNodeFiles K)"
    unfolding linkRunc_def prepareKubeletNodeFiles_def write_if_absent_def path_exists_def by (intro only_intros; simp)+
  show w: "grows (await_socket n K sock)" for n
    by (induction n) (auto intro!: only_intros simp: path_exists_def)
  show "grows (startStaticContainerd K root state sock logPath envs)"
    unfolding startStaticContainerd_def by (auto intro!: only_intros w split: res.splits simp del: await_socket.simps)
qed

lemma grows_watch_join [only_intros]: "grows (watch_join fuel K logPath deadline)"
  by (induction fuel) (auto intro!: only_intros simp: readFileString_def)

lemma grows_register_kubelet [only_intros]: "grows (register_kubelet fuel K envs args cd logf st)"
  unfolding register_kubelet_def by (intro only_intros) simp_all

lemma startStaticContainerd_started:
  "result (startStaticContainerd K root state sock logPath envs) h = Some cd \<Longrightarrow>
   \<exists>logf. (StartProcess (daemon (containerd_argv root state sock) envs logf), RInt cd)
     \<in> set (events (startStaticContainerd K root state sock logPath envs) h)"
  unfolding startStaticContainerd_def
  by (auto simp: events_bind_grows only_intros result_bind as_int_Ok case_prod_beta split: res.splits if_splits simp del: await_socket.simps)


lemma grows_kubelet_up [only_intros]: "grows (kubelet_up fuel K environ args st cd)" "grows (containerd_up K environ)"
  unfolding kubelet_up_def containerd_up_def by (intro only_intros; simp)+

lemma events_attempt_Ok:
  "grows m \<Longrightarrow> (\<And>a. grows (f a)) \<Longrightarrow> result m h = Ok a \<Longrightarrow> events (attempt m d f) h = events m h @ events (f a) (after m h)"
  unfolding attempt_def by (subst events_bind_grows) (auto intro!: only_intros split: res.splits)

lemma kubelet_up_decides:
  assumes "clocked K clock" "26 \<le> fuel"
  shows "\<exists>st'. result (kubelet_up fuel K environ args st cd) h = Ok st'
    \<and> (st' = st \<or> joined environ args st (events (kubelet_up fuel K environ args st cd) h) cd st')"
proof -
  define h2 where "h2 = after (prepareKubeletNodeFiles K) (after (os_ignore K (MkdirAll (kubelet_root @ ''/pki''))) h)"
  let ?o = "OpenFile kubelet_log create_flags"
  let ?a = "attempt (os_int K ?o) st (\<lambda>logf. register_kubelet fuel K (join_env environ) args cd logf st)"
  have res: "result (kubelet_up fuel K environ args st cd) h = result ?a h2"
    unfolding kubelet_up_def result_bind h2_def ..
  show ?thesis
  proof (cases "\<exists>logf. K h2 ?o = RInt logf")
    case False
    then show ?thesis unfolding res using as_int_cases [of "K h2 ?o"] by (auto simp: attempt_def)
  next
    case True
    then obtain logf where l: "K h2 ?o = RInt logf" by blast
    let ?r = "register_kubelet fuel K (join_env environ) args cd logf st" and ?h3 = "h2 @ [(?o, K h2 ?o)]"
    have "events ?a h2 = events (os_int K ?o) h2 @ events ?r (after (os_int K ?o) h2)"
      using l by (intro events_attempt_Ok only_intros) simp_all
    then have "set (events ?r ?h3) \<subseteq> set (events (kubelet_up fuel K environ args st cd) h)"
      unfolding kubelet_up_def by (subst events_bind_grows, (intro only_intros; simp)+, subst events_bind_grows)
        (auto intro!: only_intros simp: h2_def)
    moreover have "result ?a h2 = result ?r ?h3" using l by (simp add: attempt_def)
    ultimately show ?thesis
      using register_kubelet_decides [OF assms, of environ args cd logf st ?h3] unfolding res joined_def by fastforce
  qed
qed

lemma run_daemons_outcome:
  assumes "clocked K clock" "26 \<le> fuel"
  shows "\<exists>st'. result (run_daemons fuel K environ args st) h = Ok st'
    \<and> (st' = st \<or> (\<exists>cd logf. (StartProcess (daemon (containerd_argv ''/run/containerd/root'' ''/run/containerd/state'' containerd_sock)
          (join_env environ) logf), RInt cd) \<in> set (events (run_daemons fuel K environ args st) h)
        \<and> joined environ args st (events (run_daemons fuel K environ args st) h) cd st'))"
proof -
  let ?c = "\<lambda>c. case c of None \<Rightarrow> ok_io st | Some cd \<Rightarrow> kubelet_up fuel K environ args st cd"
  have gc: "grows (?c c)" for c by (auto intro!: only_intros split: option.splits)
  define h1 where "h1 = after (linkRunc K) h"
  define h2 where "h2 = after (containerd_up K environ) h1"
  have res: "result (run_daemons fuel K environ args st) h = result (?c (result (containerd_up K environ) h1)) h2"
    unfolding run_daemons_def result_bind h1_def h2_def ..
  have ev: "events (run_daemons fuel K environ args st) h = events (linkRunc K) h @ events (containerd_up K environ) h1
      @ events (?c (result (containerd_up K environ) h1)) h2"
    unfolding run_daemons_def h1_def h2_def
    by (subst events_bind_grows, (intro only_intros gc)+, subst events_bind_grows) (auto intro!: only_intros gc)
  show ?thesis
  proof (cases "result (containerd_up K environ) h1")
    case None
    then show ?thesis by (simp add: res)
  next
    case (Some cd)
    obtain st' where "result (kubelet_up fuel K environ args st cd) h2 = Ok st'"
        "st' = st \<or> joined environ args st (events (kubelet_up fuel K environ args st cd) h2) cd st'"
      using kubelet_up_decides [OF assms] by blast
    then show ?thesis
      using startStaticContainerd_started [OF Some [unfolded containerd_up_def]]
      unfolding res ev Some joined_def containerd_up_def [symmetric] by auto
  qed
qed

text \<open>C37 (a join decides): with a running clock, the common part of both ways of joining returns; either
  the node's state is as before, or both daemons were started, the log of the kubelet said that it has
  registered, and exactly these two processes were added to those that the node keeps, with the
  node marked as joined.\<close>

theorem run_daemons_decides:
  assumes "clocked K clock" "26 \<le> fuel"
  shows "\<exists>st'. result (run_daemons fuel K environ args st) h = Ok st'
    \<and> (st' = st \<or> (\<exists>cd logf. (StartProcess (daemon (containerd_argv ''/run/containerd/root'' ''/run/containerd/state'' containerd_sock)
          (join_env environ) logf), RInt cd) \<in> set (events (run_daemons fuel K environ args st) h)
        \<and> joined environ args st (events (run_daemons fuel K environ args st) h) cd st'))"
  by (rule run_daemons_outcome [OF assms])

text \<open>A node whose daemons start at once and whose kubelet registers.\<close>

definition registering :: kernel where
  "registering h c = (case c of Now \<Rightarrow> RInt (spent h) | StartProcess a \<Rightarrow> RInt 42 | OpenFile p f \<Rightarrow> RInt 5
     | ReadFile p \<Rightarrow> RData ''Successfully registered node'' | _ \<Rightarrow> RUnit)"

definition fresh_node :: node_state where
  "fresh_node = \<lparr>clusterJoined = False, liveProcs = []\<rparr>"

lemma clocked_registering: "clocked registering spent"
  by (simp add: clocked_def registering_def spent_def)

theorem run_daemons_decides_witness:
  "\<exists>st'. result (run_daemons 26 registering [] [''--v=2''] fresh_node) [] = Ok st' \<and> (st' = fresh_node \<or> clusterJoined st')"
  using run_daemons_decides [OF clocked_registering, of 26 "[]" "[''--v=2'']" fresh_node "[]"] by (auto simp: joined_def)

text \<open>When the log of the kubelet cannot be created, the containerd that was started is neither killed nor
  kept.\<close>

lemma orphaned_containerd:
  assumes "\<And>h. K h (OpenFile kubelet_log create_flags) = RErr e"
  shows "result (kubelet_up fuel K environ args st cd) h = Ok st"
    and "only (\<lambda>c. \<forall>p sig. c \<noteq> Kill p sig) (kubelet_up fuel K environ args st cd)"
proof -
  have a: "attempt (os_int K (OpenFile kubelet_log create_flags)) st f =
      State_Monad.bind (os_ignore K (OpenFile kubelet_log create_flags)) (\<lambda>_. ok_io st)" for f
    by (rule state.expand) (simp add: attempt_def assms fun_eq_iff)
  show "result (kubelet_up fuel K environ args st cd) h = Ok st"
    unfolding kubelet_up_def a result_bind by simp
  show "only (\<lambda>c. \<forall>p sig. c \<noteq> Kill p sig) (kubelet_up fuel K environ args st cd)"
    unfolding kubelet_up_def a prepareKubeletNodeFiles_def write_if_absent_def path_exists_def
    by (intro only_intros) simp_all
qed

end
