(* ===== verification/Triples.thy ===== *)
theory Triples
  imports Polling
begin

text \<open>
  Reasoning about what holds when an operation ends. \<open>ends h m Q\<close> says that \<open>m\<close>, run after the history
  \<open>h\<close>, ends with a result and a history that satisfy \<open>Q\<close>; the rules decompose an operation along its
  structure, as a weakest precondition does, and a frame rule skips an operation whose calls a view of
  the history does not see. The locale \<open>timed_loop\<close> is the interface of a loop that looks at the clock,
  does its work and sleeps until a deadline has passed.
\<close>

definition ends :: "hist \<Rightarrow> 'a io \<Rightarrow> ('a \<Rightarrow> hist \<Rightarrow> bool) \<Rightarrow> bool" where
  "ends h m Q \<longleftrightarrow> Q (result m h) (after m h)"

named_theorems ends_intros \<open>rules that decompose an operation\<close>

lemma endsI: "Q (result m h) (after m h) \<Longrightarrow> ends h m Q"
  by (simp add: ends_def)

lemma endsD: "ends h m Q \<Longrightarrow> Q (result m h) (after m h)"
  by (simp add: ends_def)

lemma ends_mono: "ends h m Q \<Longrightarrow> (\<And>a h'. Q a h' \<Longrightarrow> R a h') \<Longrightarrow> ends h m R"
  by (simp add: ends_def)

lemma ends_conj: "ends h m Q \<Longrightarrow> ends h m R \<Longrightarrow> ends h m (\<lambda>a h'. Q a h' \<and> R a h')"
  by (simp add: ends_def)

lemma ends_return [ends_intros]: "Q a h \<Longrightarrow> ends h (State_Monad.return a) Q"
  by (simp add: ends_def)

lemma ends_ok [ends_intros]: "Q (Ok a) h \<Longrightarrow> ends h (ok_io a) Q"
  by (simp add: ends_def)

lemma ends_os_as [ends_intros]: "Q (f (K h c)) (h @ [(c, K h c)]) \<Longrightarrow> ends h (os_as f K c) Q"
  by (simp add: ends_def)

lemma ends_os_ignore [ends_intros]: "Q () (h @ [(c, K h c)]) \<Longrightarrow> ends h (os_ignore K c) Q"
  by (simp add: ends_def)

lemma ends_bind [ends_intros]: "ends h m (\<lambda>a h'. ends h' (f a) Q) \<Longrightarrow> ends h (State_Monad.bind m f) Q"
  unfolding ends_def result_bind .

lemma ends_try [ends_intros]:
  assumes "ends h m (\<lambda>r h'. case r of Ok a \<Rightarrow> ends h' (f a) Q | Err e \<Rightarrow> Q (Err e) h' | Panic \<Rightarrow> Q Panic h' | Hang \<Rightarrow> Q Hang h')"
  shows "ends h (try_io m f) Q"
  using assms unfolding ends_def try_io_def result_bind by (cases "result m h") simp_all

lemma ends_defer [ends_intros]:
  assumes "ends h m (\<lambda>r h'. if r = Hang then Q Hang h' else ends h' f (\<lambda>_. Q r))"
  shows "ends h (defer_io f m) Q"
  using assms by (cases "run_state m h"; cases "result m h") (auto simp: ends_def run_defer_io)

lemma ends_if [ends_intros]:
  "(b \<Longrightarrow> ends h m Q) \<Longrightarrow> (\<not> b \<Longrightarrow> ends h n Q) \<Longrightarrow> ends h (if b then m else n) Q"
  by simp

text \<open>The frame rule: a view of the history that no call of the operation changes.\<close>

definition unseen :: "(hist \<Rightarrow> 'v) \<Rightarrow> (call \<Rightarrow> bool) \<Rightarrow> bool" where
  "unseen view P \<longleftrightarrow> (\<forall>h c r. P c \<longrightarrow> view (h @ [(c, r)]) = view h)"

lemma unseen_append: "unseen view P \<Longrightarrow> list_all P (calls ev) \<Longrightarrow> view (h @ ev) = view h"
proof (induction ev rule: rev_induct)
  case (snoc e ev)
  then show ?case by (cases e) (simp add: unseen_def flip: append_assoc)
qed simp

lemma ends_frame: "unseen view P \<Longrightarrow> only P m \<Longrightarrow> ends h m (\<lambda>a h'. view h' = view h)"
  unfolding ends_def by (metis onlyE unseen_append list_all_iff)

lemma ends_skip:
  assumes "unseen view P" "only P m" "\<And>a h'. view h' = view h \<Longrightarrow> Q a h'"
  shows "ends h m Q"
  using ends_frame [OF assms(1,2)] assms(3) by (rule ends_mono)

lemma clocked_events: "clocked K clock \<Longrightarrow> clock h \<le> clock (h @ ev)"
proof (induction ev rule: rev_induct)
  case (snoc e ev)
  then show ?case using clocked_le [of K clock "h @ ev" "fst e" "snd e"] by simp
qed simp

lemma clocked_grows: "clocked K clock \<Longrightarrow> grows m \<Longrightarrow> clock h \<le> clock (after m h)"
  using after_events [of "\<lambda>_. True" m h] clocked_events by metis


section \<open>Relations that operations keep\<close>

text \<open>\<open>keeps R m\<close>: the histories before and after \<open>m\<close> are always related by \<open>R\<close>. For a preorder this
  follows from the same of the parts of \<open>m\<close>.\<close>

definition preorder_on_hist :: "(hist \<Rightarrow> hist \<Rightarrow> bool) \<Rightarrow> bool" where
  "preorder_on_hist R \<longleftrightarrow> reflp R \<and> transp R"

definition keeps :: "(hist \<Rightarrow> hist \<Rightarrow> bool) \<Rightarrow> 'a io \<Rightarrow> bool" where
  "keeps R m \<longleftrightarrow> grows m \<and> (\<forall>h. R h (after m h))"

lemma keepsD: "keeps R m \<Longrightarrow> R h (after m h)" "keeps R m \<Longrightarrow> grows m"
  by (simp_all add: keeps_def)

lemma keeps_return: "preorder_on_hist R \<Longrightarrow> keeps R (State_Monad.return a)" "preorder_on_hist R \<Longrightarrow> keeps R (ok_io a)"
  by (auto simp: keeps_def preorder_on_hist_def only_intros dest: reflpD)

lemma keeps_os:
  "(\<And>h. R h (h @ [(c, K h c)])) \<Longrightarrow> keeps R (os_as f K c)" "(\<And>h. R h (h @ [(c, K h c)])) \<Longrightarrow> keeps R (os_ignore K c)"
  "(\<And>h. R h (h @ [(Now, K h Now)])) \<Longrightarrow> keeps R (os_now K)"
  by (simp_all add: keeps_def only_intros)

lemma keeps_bind: "preorder_on_hist R \<Longrightarrow> keeps R m \<Longrightarrow> (\<And>a. keeps R (f a)) \<Longrightarrow> keeps R (State_Monad.bind m f)"
  unfolding keeps_def result_bind preorder_on_hist_def by (blast intro: only_bind dest: transpD)

lemma keeps_if: "(b \<Longrightarrow> keeps R m) \<Longrightarrow> (\<not> b \<Longrightarrow> keeps R n) \<Longrightarrow> keeps R (if b then m else n)"
  by simp

lemma keeps_res:
  "(\<And>a. keeps R (f a)) \<Longrightarrow> (\<And>e. keeps R (g e)) \<Longrightarrow> keeps R m \<Longrightarrow> keeps R n \<Longrightarrow>
     keeps R (case r of Ok a \<Rightarrow> f a | Err e \<Rightarrow> g e | Panic \<Rightarrow> m | Hang \<Rightarrow> n)"
  by (cases r) auto

lemma keeps_option: "keeps R m \<Longrightarrow> (\<And>a. keeps R (f a)) \<Longrightarrow> keeps R (case r of None \<Rightarrow> m | Some a \<Rightarrow> f a)"
  by (cases r) auto

lemma keeps_try: "preorder_on_hist R \<Longrightarrow> keeps R m \<Longrightarrow> (\<And>a. keeps R (f a)) \<Longrightarrow> keeps R (try_io m f)"
  unfolding try_io_def by (intro keeps_bind keeps_res keeps_return)

lemma keeps_defer: "preorder_on_hist R \<Longrightarrow> keeps R f \<Longrightarrow> keeps R m \<Longrightarrow> keeps R (defer_io f m)"
  unfolding defer_io_def by (intro keeps_bind keeps_res keeps_return)

lemma keeps_traverse: "preorder_on_hist R \<Longrightarrow> (\<And>x. keeps R (f x)) \<Longrightarrow> keeps R (State_Monad.traverse_list f xs)"
  by (induction xs) (auto intro!: keeps_bind keeps_return)

lemmas keeps_structure = keeps_return keeps_bind keeps_try keeps_defer keeps_traverse

section \<open>Loops with a deadline\<close>

text \<open>A round ends the loop with a result, or goes on from a new state after a pause.\<close>

locale timed_loop =
  fixes loop :: "nat \<Rightarrow> kernel \<Rightarrow> int \<Rightarrow> 's \<Rightarrow> 'a res io"
    and body :: "kernel \<Rightarrow> 's \<Rightarrow> ('a + 's) io"
    and late :: "'s \<Rightarrow> 'a"
    and pause :: int
  assumes loop_0: "loop 0 K deadline s = State_Monad.return Hang"
    and loop_Suc: "loop (Suc fuel) K deadline s =
       State_Monad.bind (os_now K) (\<lambda>now.
         if now \<ge> deadline then ok_io (late s)
         else State_Monad.bind (body K s) (\<lambda>r. case r of
             Inl a \<Rightarrow> ok_io a
           | Inr s' \<Rightarrow> State_Monad.bind (os_ignore K (Sleep pause)) (\<lambda>_. loop fuel K deadline s')))"
    and body_grows: "grows (body K s)"
    and pause_pos: "0 < pause"
begin

lemma loop_grows: "grows (loop fuel K deadline s)"
proof (induction fuel arbitrary: s)
  case (Suc fuel)
  then show ?case
    unfolding loop_Suc by (intro only_intros body_grows) (auto intro!: only_intros Suc split: sum.splits)
qed (simp add: loop_0 only_intros)

lemma loop_returns:
  assumes "clocked K clock" "deadline - clock h \<le> pause * (int fuel - 1)" "0 < fuel"
  shows "\<exists>a. result (loop fuel K deadline s) h = Ok a"
  using assms(2,3)
proof (induction fuel arbitrary: h s)
  case (Suc fuel)
  let ?h1 = "h @ [(Now, RInt (clock h))]"
  define h2 where "h2 = after (body K s) ?h1"
  let ?h3 = "h2 @ [(Sleep pause, K h2 (Sleep pause))]"
  note now = clocked_now [OF assms(1), of h]
  show ?case
  proof (cases "deadline \<le> clock h")
    case True
    then show ?thesis by (simp add: loop_Suc now)
  next
    case False
    have t: "clock h \<le> clock ?h1" "clock ?h1 \<le> clock h2" "clock h2 + pause \<le> clock ?h3"
      using clocked_le [OF assms(1)] clocked_grows [OF assms(1) body_grows] clocked_step [OF assms(1), of h2 "Sleep pause"] pause_pos
      by (auto simp: h2_def call_time_def)
    have "0 < fuel" using Suc.prems False by (cases fuel) auto
    moreover have "pause * (int (Suc fuel) - 1) = pause * (int fuel - 1) + pause" by (simp add: algebra_simps)
    ultimately have "\<exists>a. result (loop fuel K deadline s') ?h3 = Ok a" for s' using Suc.prems t by (intro Suc.IH) linarith+
    then show ?thesis using False
      by (auto simp: loop_Suc now h2_def case_prod_beta split: sum.splits)
  qed
qed simp

text \<open>What every round keeps holds of the result.\<close>

lemma loop_invariant:
  assumes "result (loop fuel K deadline s) h = Ok a" "I s" "\<And>s. I s \<Longrightarrow> Q (late s)"
    and "\<And>s h. I s \<Longrightarrow> (case result (body K s) h of Inl a \<Rightarrow> Q a | Inr s' \<Rightarrow> I s')"
  shows "Q a"
  using assms(1,2)
proof (induction fuel arbitrary: h s)
  case (Suc fuel)
  let ?h1 = "h @ [(Now, K h Now)]"
  show ?case
  proof (cases "result (body K s) ?h1")
    case (Inl b)
    then show ?thesis using Suc.prems assms(3) [of s] assms(4) [of s ?h1]
      by (auto simp: loop_Suc case_prod_beta split: if_splits)
  next
    case (Inr s')
    then have "I s'" using assms(4) [of s ?h1] Suc.prems(2) by simp
    then show ?thesis using Suc.prems assms(3) [of s] Suc.IH Inr
      by (auto simp: loop_Suc case_prod_beta split: if_splits)
  qed
qed (simp add: loop_0)

end

end
