(* ===== verification/Daemons.thy ===== *)
theory Daemons
  imports ClusterJoin Triples
begin

text \<open>
  The drivers of the container runtime and of the kubelet that a boot runs: the overlay and runc phases
  (\<open>runtime_linux.go\<close>, \<open>runc_linux.go\<close>), containerd from a shared directory (\<open>containerd_linux.go\<close>), the CRI
  phase (\<open>cri_linux.go\<close>), the standalone kubelet (\<open>kubelet_linux.go\<close>), the kubelet that joins an API
  server (\<open>kubelet_apiserver_linux.go\<close>) and the static containerd (\<open>zeroc_containerd_linux.go\<close>). What a phase
  prints as its verdict is its \<open>outcome\<close>; the processes that outlive it are those of the node's state.
  A command that is run with a time limit is the call \<open>RunOutput\<close>: it has been started when its limit is
  reached, since only then is there a process to kill.
\<close>

unbundle bit_operations_syntax

datatype outcome = Skipped | Failed | Incomplete | Passed


section \<open>Lines of output\<close>

fun split_from :: "string \<Rightarrow> string \<Rightarrow> string list" where
  "split_from line [] = (if line = [] then [] else [line])"
| "split_from line (c # s) = (if c = CHR 0x0A then line # split_from [] s else split_from (line @ [c]) s)"

definition splitLines :: "string \<Rightarrow> string list" where
  "splitLines s = split_from [] s"

definition tail_lines :: "nat \<Rightarrow> string \<Rightarrow> string list" where
  "tail_lines n s = (let lines = splitLines s in if length lines > n then drop (length lines - n) lines else lines)"

definition dumpTail :: "kernel \<Rightarrow> string \<Rightarrow> nat \<Rightarrow> string list io" where
  "dumpTail K path n =
     State_Monad.bind (os_data K (ReadFile path)) (\<lambda>r. case r of
         Ok s \<Rightarrow> State_Monad.return (filter (\<lambda>l. l \<noteq> []) (tail_lines n s))
       | _ \<Rightarrow> State_Monad.return [])"

fun first_nonblank :: "string list \<Rightarrow> string" where
  "first_nonblank [] = []"
| "first_nonblank (l # ls) = (let t = trimSpace l in if t \<noteq> [] then t else first_nonblank ls)"

definition lastNonEmptyLine :: "string \<Rightarrow> string" where
  "lastNonEmptyLine s = first_nonblank (rev (splitLines s))"

definition shortID :: "string \<Rightarrow> string" where
  "shortID i = (if length i > 13 then take 13 i else i)"

fun firstMatch :: "string \<Rightarrow> string list \<Rightarrow> string" where
  "firstMatch haystack [] = []"
| "firstMatch haystack (n # ns) = (if contains haystack n then n else firstMatch haystack ns)"

fun index_of :: "string \<Rightarrow> string \<Rightarrow> nat option" where
  "index_of [] sub = (if sub = [] then Some 0 else None)"
| "index_of (c # s) sub = (if hasPrefix (c # s) sub then Some 0 else map_option Suc (index_of s sub))"


section \<open>Commands with a time limit\<close>

definition seconds :: "int \<Rightarrow> int" where "seconds n = n * 1000000000"

definition command :: "string list \<Rightarrow> string list \<Rightarrow> string \<Rightarrow> proc_attr" where
  "command argv envs dir =
     \<lparr>pa_path = hd argv, pa_argv = argv, pa_env = envs, pa_dir = dir, pa_flags = 0, pa_chroot = [], pa_cred = None,
      pa_files = [], pa_tty = False\<rparr>"

definition as_output :: "reply \<Rightarrow> (string \<times> bool) \<times> int option" where
  "as_output r = (case r of
       ROut status out \<Rightarrow> ((out, status = 0), None)
     | RInt pid \<Rightarrow> (([], False), Some pid)
     | _ \<Rightarrow> (([], False), None))"

definition run_limited :: "kernel \<Rightarrow> int \<Rightarrow> proc_attr \<Rightarrow> (string \<times> bool) io" where
  "run_limited K d a =
     State_Monad.bind (os_as as_output K (RunOutput a d)) (\<lambda>r. case snd r of
         None \<Rightarrow> State_Monad.return (fst r)
       | Some pid \<Rightarrow> State_Monad.bind (os_ignore K (Kill pid SIGKILL)) (\<lambda>_. State_Monad.return (fst r)))"

definition runWithTimeoutEnv :: "kernel \<Rightarrow> int \<Rightarrow> string list \<Rightarrow> string list \<Rightarrow> (string \<times> bool) io" where
  "runWithTimeoutEnv K d envs argv = run_limited K d (command argv envs [])"

definition runWithTimeout :: "kernel \<Rightarrow> int \<Rightarrow> string list \<Rightarrow> (string \<times> bool) io" where
  "runWithTimeout K d argv = runWithTimeoutEnv K d [''PATH=/usr/bin:/bin'', ''LD_LIBRARY_PATH=/lib64''] argv"


section \<open>Overlay and runc\<close>

definition join_mapped :: "string \<Rightarrow> string list \<Rightarrow> string list" where
  "join_mapped base names = map (\<lambda>n. path_join [base, n]) names"

definition overlay_opts :: "string \<Rightarrow> string" where
  "overlay_opts base = ''lowerdir='' @ path_join [base, ''lower''] @ '',upperdir='' @ path_join [base, ''upper''] @
     '',workdir='' @ path_join [base, ''work'']"

text \<open>\<open>os.IsNotExist\<close> of the error of a call.\<close>

definition not_exist :: "unit res \<Rightarrow> bool" where
  "not_exist r \<longleftrightarrow> r = Err (Errno ENOENT)"

text \<open>A step whose failure ends the phase.\<close>

definition must :: "'a res io \<Rightarrow> ('a \<Rightarrow> outcome res io) \<Rightarrow> outcome res io" where
  "must m f = attempt m Failed f"

definition overlay_checks :: "kernel \<Rightarrow> string \<Rightarrow> outcome res io" where
  "overlay_checks K base =
     (let merged = \<lambda>n. path_join [path_join [base, ''merged''], n] in
      must (os_data K (ReadFile (merged ''from-lower.txt''))) (\<lambda>data.
      if data \<noteq> ''lower-data'' then ok_io Failed
      else must (os_unit K (WriteFile (merged ''from-upper.txt'') ''upper-data'' 420)) (\<lambda>_.
        must (os_unit K (Stat (path_join [path_join [base, ''upper''], ''from-upper.txt'']))) (\<lambda>_.
        must (os_unit K (Remove (merged ''from-lower.txt''))) (\<lambda>_.
        State_Monad.bind (os_unit K (Stat (merged ''from-lower.txt''))) (\<lambda>r.
        if \<not> not_exist r then ok_io Failed
        else must (os_unit K (Stat (path_join [path_join [base, ''lower''], ''from-lower.txt'']))) (\<lambda>_. ok_io Passed)))))))"

definition overlayPhase0 :: "kernel \<Rightarrow> outcome res io" where
  "overlayPhase0 K =
     (let base = ''/run/ovl''; merged = path_join [base, ''merged''] in
      must (make_dirs K (join_mapped base [''lower'', ''upper'', ''work'', ''merged''])) (\<lambda>_.
      must (os_unit K (WriteFile (path_join [path_join [base, ''lower''], ''from-lower.txt'']) ''lower-data'' 420)) (\<lambda>_.
      must (os_unit K (Mount ''overlay'' merged ''overlay'' 0 (overlay_opts base))) (\<lambda>_.
      defer_io (os_ignore K (Unmount merged 0)) (overlay_checks K base)))))"

text \<open>\<open>io.Copy\<close> is the read of the whole file and the write of what was read.\<close>

definition copyFile :: "kernel \<Rightarrow> string \<Rightarrow> string \<Rightarrow> unit res io" where
  "copyFile K src dst =
     try_io (os_int K (OpenFile src O_RDONLY)) (\<lambda>inp.
     defer_io (os_ignore K (CloseFd inp)) (
     try_io (os_int K (OpenFile dst (O_CREATE OR O_WRONLY OR 0x200))) (\<lambda>out.
     State_Monad.bind (try_io (os_data K (ReadFd inp)) (\<lambda>s. os_unit K (WriteFd out s))) (\<lambda>r.
     if is_ok r then os_unit K (CloseFd out)
     else State_Monad.bind (os_ignore K (CloseFd out)) (\<lambda>_. State_Monad.return r)))))"

definition runcBin :: string where "runcBin = ''/usr/bin/runc''"

definition json_list :: "string list \<Rightarrow> string" where
  "json_list xs = ''['' @ join_with '', '' (map quoted xs) @ '']''"

definition field_of :: "string \<Rightarrow> string \<Rightarrow> string" where
  "field_of name v = quoted name @ '': '' @ v"

definition ociConfigJSON :: string where
  "ociConfigJSON = join_with nl
     [''{'',
      ''  '' @ field_of ''ociVersion'' (quoted ''1.0.2'') @ '','',
      ''  '' @ field_of ''process'' ''{'',
      ''    '' @ field_of ''terminal'' ''false'' @ '','',
      ''    '' @ field_of ''user'' (''{'' @ field_of ''uid'' ''0'' @ '', '' @ field_of ''gid'' ''0'' @ ''}'') @ '','',
      ''    '' @ field_of ''args'' (json_list [''/payload'']) @ '','',
      ''    '' @ field_of ''env'' (json_list [''PATH=/'', ''ASTERKUBE_RUNC_PAYLOAD=1'']) @ '','',
      ''    '' @ field_of ''cwd'' (quoted ''/'') @ '','',
      ''    '' @ field_of ''capabilities'' ''{'',
      ''      '' @ field_of ''bounding'' (json_list [''CAP_AUDIT_WRITE'', ''CAP_KILL'']) @ '','',
      ''      '' @ field_of ''effective'' (json_list [''CAP_AUDIT_WRITE'', ''CAP_KILL'']) @ '','',
      ''      '' @ field_of ''permitted'' (json_list [''CAP_AUDIT_WRITE'', ''CAP_KILL'']),
      ''    },'',
      ''    '' @ field_of ''noNewPrivileges'' ''true'',
      ''  },'',
      ''  '' @ field_of ''root'' (''{'' @ field_of ''path'' (quoted ''rootfs'') @ '', '' @ field_of ''readonly'' ''false'' @ ''}'') @ '','',
      ''  '' @ field_of ''hostname'' (quoted ''runc-phase1'') @ '','',
      ''  '' @ field_of ''mounts'' ''['',
      ''    {'' @ field_of ''destination'' (quoted ''/proc'') @ '', '' @ field_of ''type'' (quoted ''proc'') @ '', '' @
        field_of ''source'' (quoted ''proc'') @ ''}'',
      ''  ],'',
      ''  '' @ field_of ''linux'' ''{'',
      ''    '' @ field_of ''namespaces'' ''['',
      ''      {'' @ field_of ''type'' (quoted ''pid'') @ ''},'',
      ''      {'' @ field_of ''type'' (quoted ''ipc'') @ ''},'',
      ''      {'' @ field_of ''type'' (quoted ''uts'') @ ''},'',
      ''      {'' @ field_of ''type'' (quoted ''mount'') @ ''}'',
      ''    ],'',
      ''    '' @ field_of ''resources'' ''{}'',
      ''  }'',
      ''}'']"

definition runc_container :: "kernel \<Rightarrow> string \<Rightarrow> outcome res io" where
  "runc_container K bdir =
     must (os_unit K (WriteFile (path_join [bdir, ''config.json'']) ociConfigJSON 420)) (\<lambda>_.
     State_Monad.bind (os_ignore K (MkdirAll ''/run/runc-state'')) (\<lambda>_.
     State_Monad.bind (run_limited K (seconds 20)
         (command [runcBin, ''--root'', ''/run/runc-state'', ''run'', ''phase1''] [''PATH=/usr/bin:/bin''] bdir)) (\<lambda>r.
     ok_io (if snd r then Passed else Failed))))"

definition runcPhase1 :: "kernel \<Rightarrow> outcome res io" where
  "runcPhase1 K =
     (let bdir = ''/run/bundle''; rootfs = path_join [bdir, ''rootfs'']; base = ''/run/runc-ovl''; lower = path_join [base, ''lower''] in
      State_Monad.bind (path_exists K runcBin) (\<lambda>there.
      if \<not> there then ok_io Skipped
      else must (make_dirs K (join_mapped base [''lower'', ''upper'', ''work''] @ [rootfs, bdir])) (\<lambda>_.
        must (copyFile K ''/proc/self/exe'' (path_join [lower, ''payload''])) (\<lambda>_.
        must (make_dirs K (join_mapped lower [''proc'', ''dev'', ''sys'', ''tmp''])) (\<lambda>_.
        must (os_unit K (Mount ''overlay'' rootfs ''overlay'' 0 (overlay_opts base))) (\<lambda>_.
        defer_io (os_ignore K (Unmount rootfs 0)) (runc_container K bdir)))))))"


section \<open>Images and the CRI\<close>

definition virtiofsTag :: string where "virtiofsTag = ''asterkubevfs''"
definition virtiofsMount :: string where "virtiofsMount = ''/mnt/vfs''"
definition virtiofsMark :: string where "virtiofsMark = ''MARKER''"
definition ctrNamespace :: string where "ctrNamespace = ''default''"
definition helloImage :: string where "helloImage = ''docker.io/asterkube/hello:latest''"
definition helloTar :: string where "helloTar = virtiofsMount @ ''/hello.tar''"

text \<open>A client command; the log of the daemon is read when it fails.\<close>

definition run_client :: "kernel \<Rightarrow> int \<Rightarrow> string list \<Rightarrow> string \<Rightarrow> string list \<Rightarrow> (string \<times> bool) io" where
  "run_client K d envs logPath argv =
     State_Monad.bind (runWithTimeoutEnv K d envs argv) (\<lambda>r.
     if snd r then State_Monad.return r
     else State_Monad.bind (dumpTail K logPath 50) (\<lambda>_. State_Monad.return r))"

definition ctrImportAndRun :: "kernel \<Rightarrow> string \<Rightarrow> string \<Rightarrow> string list \<Rightarrow> string \<Rightarrow> string \<Rightarrow> outcome io" where
  "ctrImportAndRun K ctr sock envs logPath tarPath =
     (let base = [ctr, ''--address'', sock, ''-n'', ctrNamespace] in
      State_Monad.bind (path_exists K tarPath) (\<lambda>there.
      if \<not> there then State_Monad.return Skipped
      else State_Monad.bind (run_client K (seconds 30) envs logPath (base @ [''images'', ''import'', tarPath])) (\<lambda>r.
        if \<not> snd r then State_Monad.return Failed
        else State_Monad.bind (run_client K (seconds 45) envs logPath (base @ [''run'', ''--rm'', helloImage, ''hello-test''])) (\<lambda>r.
          State_Monad.return (if snd r then Passed else Failed)))))"

definition criPodConfig :: string where
  "criPodConfig = join_with nl
     [''{'',
      ''  '' @ field_of ''metadata'' ''{'',
      ''    '' @ field_of ''name'' (quoted ''asterkube-sandbox'') @ '','',
      ''    '' @ field_of ''namespace'' (quoted ''default'') @ '','',
      ''    '' @ field_of ''uid'' (quoted ''asterkube-sandbox-uid'') @ '','',
      ''    '' @ field_of ''attempt'' ''1'',
      ''  },'',
      ''  '' @ field_of ''log_directory'' (quoted ''/run/cri-logs'') @ '','',
      ''  '' @ field_of ''linux'' ''{'',
      ''    '' @ field_of ''security_context'' ''{'',
      ''      '' @ field_of ''namespace_options'' (''{ '' @ field_of ''network'' ''2'' @ '' }''),
      ''    }'',
      ''  }'',
      ''}'']"

definition criContainerConfig :: string where
  "criContainerConfig = join_with nl
     [''{'',
      ''  '' @ field_of ''metadata'' (''{ '' @ field_of ''name'' (quoted ''hello'') @ '' },''),
      ''  '' @ field_of ''image'' (''{ '' @ field_of ''image'' (quoted helloImage) @ '' },''),
      ''  '' @ field_of ''command'' (json_list [''/hello'']) @ '','',
      ''  '' @ field_of ''log_path'' (quoted ''hello.0.log'') @ '','',
      ''  '' @ field_of ''linux'' ''{'',
      ''    '' @ field_of ''security_context'' ''{'',
      ''      '' @ field_of ''namespace_options'' (''{ '' @ field_of ''pid'' ''1'' @ '' }''),
      ''    }'',
      ''  }'',
      ''}'']"

fun import_images :: "kernel \<Rightarrow> string \<Rightarrow> string \<Rightarrow> string list \<Rightarrow> string list \<Rightarrow> bool io" where
  "import_images K ctr sock envs [] = State_Monad.return True"
| "import_images K ctr sock envs (tar # tars) =
     State_Monad.bind (runWithTimeoutEnv K (seconds 40) envs [ctr, ''--address'', sock, ''-n'', ''k8s.io'', ''images'', ''import'', tar]) (\<lambda>r.
     if snd r then import_images K ctr sock envs tars else State_Monad.return False)"

definition node_resolver_files :: "kernel \<Rightarrow> bool \<Rightarrow> unit io" where
  "node_resolver_files K networkConfigured =
     State_Monad.bind (os_ignore K (MkdirAll ''/etc'')) (\<lambda>_.
     State_Monad.bind (os_ignore K (WriteFile ''/etc/hosts'' (''127.0.0.1 localhost'' @ nl @ ''::1 localhost'' @ nl) 420)) (\<lambda>_.
     if networkConfigured then State_Monad.return ()
     else os_ignore K (WriteFile ''/etc/resolv.conf'' (''nameserver 10.0.2.3'' @ nl) 420)))"

definition cri_pod :: "kernel \<Rightarrow> string \<Rightarrow> string \<Rightarrow> string list \<Rightarrow> string \<Rightarrow> outcome io" where
  "cri_pod K crictlBin sock envs logPath =
     (let run = \<lambda>d args. run_client K d envs logPath
          ([crictlBin, ''--runtime-endpoint'', ''unix://'' @ sock, ''--image-endpoint'', ''unix://'' @ sock] @ args) in
      State_Monad.bind (run (seconds 40) [''runp'', ''/run/cri-pod.json'']) (\<lambda>pod.
      if \<not> snd pod then State_Monad.return Failed
      else State_Monad.bind (run (seconds 40) [''create'', lastNonEmptyLine (fst pod), ''/run/cri-ctr.json'', ''/run/cri-pod.json'']) (\<lambda>created.
        if \<not> snd created then State_Monad.return Failed
        else State_Monad.bind (run (seconds 40) [''start'', lastNonEmptyLine (fst created)]) (\<lambda>started.
          if \<not> snd started then State_Monad.return Failed
          else State_Monad.bind (os_ignore K (Sleep 1500000000)) (\<lambda>_.
            State_Monad.bind (run (seconds 15) [''logs'', lastNonEmptyLine (fst created)]) (\<lambda>logs.
            State_Monad.return (if contains (fst logs) ''hello from a containerd-managed container'' then Passed else Incomplete)))))))"

definition criPhase :: "kernel \<Rightarrow> bool \<Rightarrow> string \<Rightarrow> string \<Rightarrow> string \<Rightarrow> string list \<Rightarrow> string \<Rightarrow> outcome res io" where
  "criPhase K networkConfigured ctrBin crictlBin sock envs logPath =
     State_Monad.bind (path_exists K crictlBin) (\<lambda>there.
     if \<not> there then ok_io Skipped
     else State_Monad.bind (import_images K ctrBin sock envs [virtiofsMount @ ''/pause.tar'', helloTar]) (\<lambda>imported.
       if \<not> imported then ok_io Failed
       else State_Monad.bind (node_resolver_files K networkConfigured) (\<lambda>_.
         State_Monad.bind (os_ignore K (MkdirAll ''/run/cri-logs'')) (\<lambda>_.
         must (os_unit K (WriteFile ''/run/cri-pod.json'' criPodConfig 420)) (\<lambda>_.
         must (os_unit K (WriteFile ''/run/cri-ctr.json'' criContainerConfig 420)) (\<lambda>_.
         State_Monad.bind (cri_pod K crictlBin sock envs logPath) (\<lambda>r. ok_io r)))))))"


section \<open>The standalone kubelet\<close>

definition staticPodManifest :: string where
  "staticPodManifest = concat (map (\<lambda>l. l @ nl)
     [''apiVersion: v1'', ''kind: Pod'', ''metadata:'', ''  name: hello'', ''  namespace: default'', ''spec:'',
      ''  hostNetwork: true'', ''  restartPolicy: Never'', ''  containers:'', ''  - name: hello'',
      ''    image: '' @ helloImage, ''    imagePullPolicy: Never'', ''    command: ['' @ quoted ''/hello'' @ '']''])"

definition crictlRun :: "kernel \<Rightarrow> string \<Rightarrow> string \<Rightarrow> string list \<Rightarrow> string list \<Rightarrow> string io" where
  "crictlRun K crictlBin sock envs args =
     State_Monad.bind (runWithTimeoutEnv K (seconds 10) envs ([crictlBin, ''--runtime-endpoint'', ''unix://'' @ sock] @ args)) (\<lambda>r.
     State_Monad.return (fst r))"

text \<open>One look at the pods and the container: whether the sandbox is there, and whether the container has
  printed anything.\<close>

definition look :: "(string list \<Rightarrow> string io) \<Rightarrow> (bool \<times> bool) io" where
  "look crictl =
     State_Monad.bind (crictl [''pods'', ''--name'', ''hello'']) (\<lambda>pods.
     if \<not> contains pods ''hello'' then State_Monad.return (False, False)
     else State_Monad.bind (crictl [''ps'', ''-a'', ''--name'', ''hello'', ''-q'']) (\<lambda>ids.
       if lastNonEmptyLine ids = [] then State_Monad.return (True, False)
       else State_Monad.bind (crictl [''ps'', ''-a'', ''--name'', ''hello'']) (\<lambda>_.
         State_Monad.bind (crictl [''logs'', lastNonEmptyLine ids]) (\<lambda>logs.
         State_Monad.return (True, list_ex (\<lambda>l. trimSpace l \<noteq> []) (splitLines logs))))))"

fun kubelet_watch :: "nat \<Rightarrow> kernel \<Rightarrow> (string list \<Rightarrow> string io) \<Rightarrow> int \<Rightarrow> bool \<Rightarrow> (bool \<times> bool) res io" where
  "kubelet_watch 0 K crictl deadline sandboxSeen = State_Monad.return Hang"
| "kubelet_watch (Suc fuel) K crictl deadline sandboxSeen =
     State_Monad.bind (os_now K) (\<lambda>now.
     if now \<ge> deadline then ok_io (sandboxSeen, False)
     else State_Monad.bind (look crictl) (\<lambda>r.
       if snd r then ok_io (True, True)
       else State_Monad.bind (os_ignore K (Sleep 3000000000)) (\<lambda>_. kubelet_watch fuel K crictl deadline (sandboxSeen \<or> fst r))))"

definition standalone_args :: "string \<Rightarrow> string list" where
  "standalone_args sock =
     [''--container-runtime-endpoint=unix://'' @ sock, ''--image-service-endpoint=unix://'' @ sock,
      ''--pod-manifest-path=/etc/kubernetes/manifests'', ''--root-dir=/ext2/kubelet'',
      ''--cgroup-driver=cgroupfs'', ''--cgroups-per-qos=false'', ''--enforce-node-allocatable='', ''--cgroup-root=/'',
      ''--runtime-cgroups=/'', ''--kubelet-cgroups=/'', ''--fail-swap-on=false'', ''--hostname-override='' @ nodeName,
      ''--resolv-conf=/etc/resolv.conf'', ''--v=2'']"

definition kill_and_wait :: "kernel \<Rightarrow> int \<Rightarrow> unit io" where
  "kill_and_wait K pid = State_Monad.bind (os_ignore K (Kill pid SIGKILL)) (\<lambda>_. os_ignore K (WaitProc pid))"

definition kubelet_session :: "nat \<Rightarrow> kernel \<Rightarrow> string \<Rightarrow> string \<Rightarrow> string list \<Rightarrow> outcome res io" where
  "kubelet_session fuel K crictlBin sock envs =
     State_Monad.bind (os_now K) (\<lambda>now.
     try_io (kubelet_watch fuel K (crictlRun K crictlBin sock envs) (now + seconds 75) False) (\<lambda>seen.
     if snd seen then ok_io Passed
     else if fst seen then State_Monad.bind (dumpTail K ''/run/kubelet.log'' 40) (\<lambda>_. ok_io Passed)
     else State_Monad.bind (dumpTail K ''/run/kubelet.log'' 80) (\<lambda>_. ok_io Failed)))"

definition kubeletPhase :: "nat \<Rightarrow> kernel \<Rightarrow> string \<Rightarrow> string \<Rightarrow> string \<Rightarrow> string list \<Rightarrow> outcome res io" where
  "kubeletPhase fuel K kubeletBin crictlBin sock envs =
     State_Monad.bind (path_exists K kubeletBin) (\<lambda>there.
     if \<not> there then ok_io Skipped
     else must (make_dirs K [''/etc/kubernetes/manifests'', ''/ext2/kubelet'']) (\<lambda>_.
       State_Monad.bind (prepareKubeletNodeFiles K) (\<lambda>_.
       must (os_unit K (WriteFile ''/etc/kubernetes/manifests/hello.yaml'' staticPodManifest 420)) (\<lambda>_.
       must (os_int K (OpenFile ''/run/kubelet.log'' create_flags)) (\<lambda>logf.
       defer_io (os_ignore K (CloseFd logf)) (
       must (os_int K (StartProcess (daemon (kubeletBin # standalone_args sock) envs logf))) (\<lambda>k.
       defer_io (kill_and_wait K k) (kubelet_session fuel K crictlBin sock envs))))))))"


section \<open>The kubelet that joins an API server\<close>

definition crash_markers :: "string list" where
  "crash_markers = [''panic:'', ''fatal error:'', ''SIGQUIT'', ''SIGABRT'', ''SIGSEGV'', ''[running]:'']"

definition log_keywords :: "string list" where
  "log_keywords =
     [''connection refused'', ''x509'', ''Unauthorized'', ''Forbidden'', ''forbidden'', ''certificate'', ''tls:'', ''TLS'',
      ''no route to host'', ''i/o timeout'', ''EOF'', ''register'', ''Register'', ''node '' @ [CHR 0x22], ''Failed'', ''failed to'',
      ''Unable'', ''apiserver'', ''controller'', ''lease'']"

text \<open>The first line with a crash marker, with those that follow it, 25 lines at most.\<close>

fun crash_header :: "string list \<Rightarrow> string list" where
  "crash_header [] = []"
| "crash_header (ln # lines) = (if firstMatch ln crash_markers \<noteq> [] then take 25 (ln # lines) else crash_header lines)"

definition strip_log :: "string \<Rightarrow> string" where
  "strip_log ln = (if hasPrefix (trimSpace ln) ''log| '' then drop (length ''log| '') (trimSpace ln) else ln)"

definition stack_noise :: "string \<Rightarrow> bool" where
  "stack_noise ln \<longleftrightarrow> hasPrefix ln [CHR 0x09] \<or> contains ln ''goroutine '' \<or> contains ln ''runtime.'' \<or> contains ln ''+0x''"

fun matching_lines :: "nat \<Rightarrow> string list \<Rightarrow> string list" where
  "matching_lines printed [] = []"
| "matching_lines printed (l # lines) =
     (let ln = strip_log l in
      if stack_noise ln then matching_lines printed lines
      else if firstMatch ln log_keywords \<noteq> [] then
        ln # (if printed + 1 \<ge> 60 then [] else matching_lines (printed + 1) lines)
      else matching_lines printed lines)"

text \<open>The lines that are printed of a log: the crash, then what matches, or the tail if nothing does.\<close>

definition summarizeKubeletLog :: "kernel \<Rightarrow> string \<Rightarrow> string list io" where
  "summarizeKubeletLog K path =
     State_Monad.bind (readFileString K path) (\<lambda>s.
     let lines = splitLines s in
     if lines = [] then State_Monad.return []
     else if matching_lines 0 lines = [] then
       State_Monad.bind (dumpTail K path 40) (\<lambda>t. State_Monad.return (crash_header lines @ t))
     else State_Monad.return (crash_header lines @ matching_lines 0 lines))"

definition serve_needles :: "string list" where
  "serve_needles =
     [''status is now: NodeReady'', ''source='' @ quoted ''api'', ''Started container'', ''Created container'', ''RunPodSandbox'',
      ''FailedMount'', ''failed to'']"

fun report_lines :: "string list \<Rightarrow> string list \<Rightarrow> string list" where
  "report_lines reported [] = reported"
| "report_lines reported (ln # lines) =
     (if firstMatch ln serve_needles = [] then report_lines reported lines
      else if ln \<in> set reported then report_lines reported lines
      else report_lines (reported @ [ln]) lines)"

text \<open>What is printed of a reported line: what follows the prefix of the log entry.\<close>

definition serve_message :: "string \<Rightarrow> string" where
  "serve_message ln = (case index_of ln ''] '' of
       Some i \<Rightarrow> if i > 0 \<and> i + 2 < length ln then drop (i + 2) ln else ln
     | None \<Rightarrow> ln)"

text \<open>The serve window. The result holds the reported lines in their order; each was printed once, as its
  \<open>serve_message\<close>.\<close>

definition serveWindow :: int where "serveWindow = seconds 90"

fun serve_window :: "nat \<Rightarrow> kernel \<Rightarrow> string \<Rightarrow> int \<Rightarrow> string list \<Rightarrow> string list res io" where
  "serve_window 0 K logPath deadline reported = State_Monad.return Hang"
| "serve_window (Suc fuel) K logPath deadline reported =
     State_Monad.bind (os_now K) (\<lambda>now.
     if now \<ge> deadline then ok_io reported
     else State_Monad.bind (readFileString K logPath) (\<lambda>s.
       State_Monad.bind (os_ignore K (Sleep 5000000000)) (\<lambda>_.
       serve_window fuel K logPath deadline (report_lines reported (splitLines s)))))"

definition dumpContainerLogs :: "kernel \<Rightarrow> string \<Rightarrow> string \<Rightarrow> string list \<Rightarrow> string \<Rightarrow> nat \<Rightarrow> string list io" where
  "dumpContainerLogs K crictlBin sock envs name tail_count =
     State_Monad.bind (crictlRun K crictlBin sock envs [''ps'', ''-a'', ''--name'', name, ''--latest'', ''-q'']) (\<lambda>ids.
     if lastNonEmptyLine ids = [] then State_Monad.return []
     else State_Monad.bind (crictlRun K crictlBin sock envs [''logs'', ''--tail'', nat_digits tail_count, lastNonEmptyLine ids]) (\<lambda>s.
       State_Monad.return (filter (\<lambda>l. trimSpace l \<noteq> []) (splitLines s))))"

definition apiserver_root :: string where "apiserver_root = ''/ext2/kubelet-apiserver''"
definition apiserver_log :: string where "apiserver_log = ''/run/kubelet-apiserver.log''"

definition apiserver_args :: "string \<Rightarrow> string \<Rightarrow> string list" where
  "apiserver_args sock kubeconfig =
     [''--kubeconfig='' @ kubeconfig, ''--container-runtime-endpoint=unix://'' @ sock, ''--image-service-endpoint=unix://'' @ sock,
      ''--root-dir='' @ apiserver_root, ''--hostname-override='' @ nodeName, ''--node-ip=10.0.2.15'', ''--register-node=true'',
      ''--node-labels='' @ asterkubeNodeLabels, ''--register-with-taints=asterkube.io/experimental=true:NoSchedule'',
      ''--cgroup-driver=cgroupfs'', ''--cgroups-per-qos=false'', ''--enforce-node-allocatable='', ''--cgroup-root=/'',
      ''--runtime-cgroups=/'', ''--kubelet-cgroups=/'', ''--fail-swap-on=false'', ''--resolv-conf=/etc/resolv.conf'',
      ''--node-status-update-frequency=4s'', ''--v=2'']"

text \<open>The watch for the registration is the loop of both joins. A kubelet that does not register is killed,
  one that does is kept after the serve window.\<close>

definition serve_node :: "nat \<Rightarrow> kernel \<Rightarrow> string \<Rightarrow> string list \<Rightarrow> string list res io" where
  "serve_node fuel K sock envs =
     State_Monad.bind (os_now K) (\<lambda>now.
     try_io (serve_window fuel K apiserver_log (now + serveWindow) []) (\<lambda>reported.
     State_Monad.bind (State_Monad.traverse_list (\<lambda>name.
         dumpContainerLogs K (path_join [virtiofsMount, ''crictl'']) sock envs name 25) [''kube-proxy'', ''kindnet-cni'']) (\<lambda>_.
     ok_io reported)))"

definition watch_node :: "nat \<Rightarrow> kernel \<Rightarrow> string \<Rightarrow> string list \<Rightarrow> int \<Rightarrow> node_state \<Rightarrow> node_state res io" where
  "watch_node fuel K sock envs k st =
     State_Monad.bind (os_now K) (\<lambda>now.
     try_io (watch_join fuel K apiserver_log (now + seconds 75)) (\<lambda>registered.
     if \<not> registered then
       State_Monad.bind (summarizeKubeletLog K apiserver_log) (\<lambda>_.
       State_Monad.bind (os_ignore K (Kill k SIGKILL)) (\<lambda>_. ok_io st))
     else try_io (serve_node fuel K sock envs) (\<lambda>_. ok_io (keepAlive k st))))"

definition apiserverPhase :: "nat \<Rightarrow> kernel \<Rightarrow> string \<Rightarrow> string \<Rightarrow> string \<Rightarrow> string list \<Rightarrow> node_state \<Rightarrow> node_state res io" where
  "apiserverPhase fuel K kubeletBin sock kubeconfig envs st =
     State_Monad.bind (path_exists K kubeletBin) (\<lambda>there.
     if \<not> there then ok_io st
     else State_Monad.bind (path_exists K kubeconfig) (\<lambda>configured.
       if \<not> configured then ok_io st
       else State_Monad.bind (installClusterHosts K (path_join [virtiofsMount, ''hosts-extra''])) (\<lambda>_.
         State_Monad.bind (os_ignore K (RemoveAll apiserver_root)) (\<lambda>_.
         attempt (os_unit K (MkdirAll apiserver_root)) st (\<lambda>_.
         attempt (os_int K (OpenFile apiserver_log create_flags)) st (\<lambda>logf.
         defer_io (os_ignore K (CloseFd logf)) (
         attempt (os_int K (StartProcess (daemon (kubeletBin # apiserver_args sock kubeconfig) envs logf))) st (\<lambda>k.
         watch_node fuel K sock envs k st))))))))"


section \<open>Containerd from the shared directory\<close>

definition vfs_env :: "string list" where
  "vfs_env = [''PATH=/usr/bin:/bin:'' @ virtiofsMount, ''LD_LIBRARY_PATH=/lib64'', ''XDG_RUNTIME_DIR=/run'', ''TMPDIR=/tmp'']"

definition vfs_containerd_argv :: "string \<Rightarrow> string list" where
  "vfs_containerd_argv containerd =
     [containerd, ''--root'', ''/run/containerd/root'', ''--state'', ''/run/containerd/state'', ''--address'', containerd_sock,
      ''--log-level'', ''debug'']"

definition containerd_log :: string where "containerd_log = ''/run/containerd/containerd.log''"

fun await_daemon :: "nat \<Rightarrow> kernel \<Rightarrow> string \<Rightarrow> bool io" where
  "await_daemon 0 K sock = State_Monad.return False"
| "await_daemon (Suc n) K sock =
     State_Monad.bind (path_exists K sock) (\<lambda>there.
     if there then State_Monad.return True
     else State_Monad.bind (os_ignore K (Sleep 150000000)) (\<lambda>_. await_daemon n K sock))"

definition drive_containerd :: "nat \<Rightarrow> kernel \<Rightarrow> bool \<Rightarrow> string \<Rightarrow> node_state \<Rightarrow> node_state res io" where
  "drive_containerd fuel K networkConfigured ctr st =
     (let crictl = path_join [virtiofsMount, ''crictl'']; kubelet = path_join [virtiofsMount, ''kubelet'']; sock = containerd_sock in
      State_Monad.bind (await_daemon 100 K sock) (\<lambda>ready.
      if \<not> ready then State_Monad.bind (dumpTail K containerd_log 40) (\<lambda>_. ok_io st)
      else State_Monad.bind (runWithTimeoutEnv K (seconds 40) vfs_env [ctr, ''--address'', sock, ''version'']) (\<lambda>r.
        if \<not> snd r then State_Monad.bind (dumpTail K containerd_log 40) (\<lambda>_. ok_io st)
        else State_Monad.bind (ctrImportAndRun K ctr sock vfs_env containerd_log helloTar) (\<lambda>_.
          try_io (criPhase K networkConfigured ctr crictl sock vfs_env containerd_log) (\<lambda>_.
          try_io (kubeletPhase fuel K kubelet crictl sock vfs_env) (\<lambda>_.
          apiserverPhase fuel K kubelet sock (path_join [virtiofsMount, ''kubeconfig'']) vfs_env st))))))"

definition startContainerdDaemon :: "nat \<Rightarrow> kernel \<Rightarrow> bool \<Rightarrow> string \<Rightarrow> string \<Rightarrow> node_state \<Rightarrow> node_state res io" where
  "startContainerdDaemon fuel K networkConfigured containerd ctr st =
     attempt (make_dirs K [''/run/containerd/root'', ''/run/containerd/state'']) st (\<lambda>_.
     attempt (os_int K (OpenFile containerd_log create_flags)) st (\<lambda>logf.
     defer_io (os_ignore K (CloseFd logf)) (
     State_Monad.bind (installCABundle K (path_join [virtiofsMount, ''ca-bundle.crt''])) (\<lambda>_.
     State_Monad.bind (setupCNI K (path_join [virtiofsMount, ''cni''])) (\<lambda>_.
     attempt (os_int K (StartProcess (daemon (vfs_containerd_argv containerd) vfs_env logf))) st (\<lambda>pid.
     drive_containerd fuel K networkConfigured ctr (keepAlive pid st)))))))"

definition containerdPhase2 :: "nat \<Rightarrow> kernel \<Rightarrow> bool \<Rightarrow> node_state \<Rightarrow> node_state res io" where
  "containerdPhase2 fuel K networkConfigured st =
     (let containerd = path_join [virtiofsMount, ''containerd''] in
      attempt (os_unit K (MkdirAll virtiofsMount)) st (\<lambda>_.
      attempt (os_unit K (Mount virtiofsTag virtiofsMount ''virtiofs'' 0 [])) st (\<lambda>_.
      attempt (os_names K (ReadDir virtiofsMount)) st (\<lambda>_.
      attempt (os_data K (ReadFile (path_join [virtiofsMount, virtiofsMark]))) st (\<lambda>_.
      attempt (os_unit K (Stat containerd)) st (\<lambda>_.
      State_Monad.bind (runWithTimeout K (seconds 40) [containerd, ''--version'']) (\<lambda>r.
      if \<not> snd r then ok_io st
      else startContainerdDaemon fuel K networkConfigured containerd (path_join [virtiofsMount, ''ctr'']) st)))))))"

definition runContainerRuntimeTests :: "nat \<Rightarrow> kernel \<Rightarrow> bool \<Rightarrow> node_state \<Rightarrow> node_state res io" where
  "runContainerRuntimeTests fuel K networkConfigured st =
     try_io (overlayPhase0 K) (\<lambda>_.
     try_io (runcPhase1 K) (\<lambda>_.
     containerdPhase2 fuel K networkConfigured st))"


section \<open>The static containerd\<close>

definition zeroCCtr :: string where "zeroCCtr = ''/usr/bin/ctr''"
definition zeroCImageTar :: string where "zeroCImageTar = ''/usr/share/asterkube/hello.tar''"

definition isDynamicELF :: "kernel \<Rightarrow> string \<Rightarrow> bool io" where
  "isDynamicELF K path =
     State_Monad.bind (os_int K (OpenFile path O_RDONLY)) (\<lambda>r. case r of
         Ok fd \<Rightarrow>
           State_Monad.bind (os_as (\<lambda>r. case r of RData s \<Rightarrow> take 4096 s | _ \<Rightarrow> []) K (ReadFd fd)) (\<lambda>buf.
           State_Monad.bind (os_ignore K (CloseFd fd)) (\<lambda>_. State_Monad.return (contains buf ''/lib64/ld-linux'')))
       | _ \<Rightarrow> State_Monad.return False)"

definition zeroc_session :: "kernel \<Rightarrow> bool \<Rightarrow> string list \<Rightarrow> int \<Rightarrow> node_state \<Rightarrow> node_state res io" where
  "zeroc_session K persist envs pid st =
     State_Monad.bind (await_socket 100 K containerd_sock) (\<lambda>up.
     if \<not> up then State_Monad.bind (dumpTail K containerd_log 40) (\<lambda>_. ok_io st)
     else State_Monad.bind (runWithTimeoutEnv K (seconds 40) envs [zeroCCtr, ''--address'', containerd_sock, ''version'']) (\<lambda>r.
       if \<not> snd r then State_Monad.bind (dumpTail K containerd_log 40) (\<lambda>_. ok_io st)
       else State_Monad.bind (ctrImportAndRun K zeroCCtr containerd_sock envs containerd_log zeroCImageTar) (\<lambda>_.
         ok_io (if persist then keepAlive pid st else st))))"

definition zeroCContainerdTest :: "kernel \<Rightarrow> bool \<Rightarrow> string list \<Rightarrow> node_state \<Rightarrow> node_state res io" where
  "zeroCContainerdTest K persist environ st =
     State_Monad.bind (path_exists K zeroCContainerd) (\<lambda>there.
     if \<not> there then ok_io st
     else State_Monad.bind (isDynamicELF K zeroCContainerd) (\<lambda>dynamic.
       if dynamic then ok_io st
       else State_Monad.bind (linkRunc K) (\<lambda>_.
         State_Monad.bind (os_ignore K (MkdirAll ''/run/containerd/root'')) (\<lambda>_.
         State_Monad.bind (os_ignore K (MkdirAll ''/run/containerd/state'')) (\<lambda>_.
         attempt (os_int K (OpenFile containerd_log create_flags)) st (\<lambda>logf.
         attempt (os_int K (StartProcess (daemon (containerd_argv ''/run/containerd/root'' ''/run/containerd/state'' containerd_sock)
             (join_env environ) logf))) st (\<lambda>pid.
         defer_io (if persist then State_Monad.return () else kill_and_wait K pid)
           (zeroc_session K persist (join_env environ) pid st))))))))"


section \<open>Processes\<close>

text \<open>The processes that were started and not killed since, and all that were started.\<close>

definition proc_step :: "int list \<Rightarrow> call \<times> reply \<Rightarrow> int list" where
  "proc_step ps e = (case fst e of
       StartProcess a \<Rightarrow> (case snd e of RInt k \<Rightarrow> k # ps | _ \<Rightarrow> ps)
     | RunOutput a d \<Rightarrow> (case snd e of RInt k \<Rightarrow> k # ps | _ \<Rightarrow> ps)
     | Kill k sig \<Rightarrow> if sig = SIGKILL then removeAll k ps else ps
     | _ \<Rightarrow> ps)"

definition running :: "hist \<Rightarrow> int set" where
  "running h = set (foldl proc_step [] h)"

definition started :: "hist \<Rightarrow> int set" where
  "started h = {k. \<exists>a. (StartProcess a, RInt k) \<in> set h}"

definition inert :: "call \<Rightarrow> bool" where
  "inert c \<longleftrightarrow> (case c of StartProcess a \<Rightarrow> False | RunOutput a d \<Rightarrow> False | Kill k sig \<Rightarrow> False | _ \<Rightarrow> True)"

lemma started_snoc:
  "started (h @ [(c, r)]) = (case c of StartProcess a \<Rightarrow> (case r of RInt k \<Rightarrow> {k} | _ \<Rightarrow> {}) | _ \<Rightarrow> {}) \<union> started h"
  by (cases c; cases r) (auto simp: started_def)

lemma started_mono: "started h \<subseteq> started (h @ ev)"
  by (auto simp: started_def)

lemma running_inert: "inert c \<Longrightarrow> running (h @ [(c, r)]) = running h"
  by (cases c) (auto simp: running_def proc_step_def inert_def)

lemma running_start [simp]: "running (h @ [(StartProcess a, RInt k)]) = insert k (running h)"
  by (simp add: running_def proc_step_def)

lemma running_kill [simp]: "running (h @ [(Kill k SIGKILL, r)]) = running h - {k}"
  by (simp add: running_def proc_step_def)

lemma running_no_start: "\<nexists>k. r = RInt k \<Longrightarrow> running (h @ [(StartProcess a, r)]) = running h"
  by (cases r) (auto simp: running_def proc_step_def)

lemma started_grows: "grows m \<Longrightarrow> started h \<subseteq> started (after m h)"
  using after_events [of "\<lambda>_. True" m h] started_mono [of h] by metis

lemma keeps_attempt: "preorder_on_hist R \<Longrightarrow> keeps R m \<Longrightarrow> (\<And>a. keeps R (f a)) \<Longrightarrow> keeps R (attempt m d f)"
  unfolding attempt_def by (intro keeps_bind keeps_res keeps_return)

lemma keeps_must: "preorder_on_hist R \<Longrightarrow> keeps R m \<Longrightarrow> (\<And>a. keeps R (f a)) \<Longrightarrow> keeps R (must m f)"
  unfolding must_def by (rule keeps_attempt)

text \<open>An operation that leaves no process behind.\<close>

definition fewer :: "hist \<Rightarrow> hist \<Rightarrow> bool" where
  "fewer h h' \<longleftrightarrow> running h' \<subseteq> running h"

abbreviation settles :: "'a io \<Rightarrow> bool" where
  "settles m \<equiv> keeps fewer m"

named_theorems settles_intros \<open>operations that leave no process behind\<close>

lemma preorder_fewer: "preorder_on_hist fewer"
  by (auto simp: preorder_on_hist_def fewer_def intro!: reflpI transpI)

lemmas settles_structure [settles_intros] = keeps_structure [OF preorder_fewer] keeps_attempt [OF preorder_fewer]
  keeps_must [OF preorder_fewer] keeps_if [of _ fewer] keeps_res [of fewer] keeps_option [of fewer]

lemma settles_after: "settles m \<Longrightarrow> running (after m h) \<subseteq> running h" "settles m \<Longrightarrow> started h \<subseteq> started (after m h)"
  using keepsD(1) [of fewer m h] by (simp_all add: fewer_def started_grows keepsD(2))

lemmas settles_grows = keepsD(2) [of fewer]

lemma settles_os [settles_intros]: "inert c \<Longrightarrow> settles (os_as f K c)" "inert c \<Longrightarrow> settles (os_ignore K c)"
  by (intro keeps_os; simp add: fewer_def running_inert)+

lemma settles_now [settles_intros]: "settles (os_now K)"
  by (intro keeps_os) (simp add: fewer_def running_inert inert_def)

lemma settles_kill [settles_intros]: "settles (os_ignore K (Kill k SIGKILL))"
  by (intro keeps_os) (auto simp: fewer_def)

lemma settles_run [settles_intros]: "settles (run_limited K d a)"
proof -
  have "running (after (run_limited K d a) h) \<subseteq> running h" for h
    by (cases "K h (RunOutput a d)") (auto simp: run_limited_def as_output_def running_def proc_step_def)
  moreover have "grows (run_limited K d a)"
    unfolding run_limited_def by (rule only_bind) (auto intro!: only_intros split: option.splits)
  ultimately show ?thesis by (simp add: keeps_def fewer_def)
qed

lemma settles_commands [settles_intros]:
  "settles (runWithTimeoutEnv K d envs argv)" "settles (runWithTimeout K d argv)" "settles (dumpTail K path n)"
  "settles (run_client K d envs logPath argv)" "settles (crictlRun K crictlBin sock envs args)" "settles (path_exists K path)"
  "settles (readFileString K path)"
  unfolding runWithTimeout_def runWithTimeoutEnv_def dumpTail_def run_client_def crictlRun_def path_exists_def readFileString_def
  by (intro settles_intros; simp add: inert_def)+

lemma settles_loops [settles_intros]:
  "settles (make_dirs K ds)" "settles (await_socket n K sock)" "settles (await_daemon n K sock)"
  "settles (import_images K ctr sock envs tars)" "settles (watch_join fuel K logPath deadline)"
  "settles (serve_window fuel K logPath deadline reported)"
proof -
  show "settles (make_dirs K ds)" by (induction ds) (auto intro!: settles_intros simp: inert_def)
  show "settles (await_socket n K sock)" "settles (await_daemon n K sock)"
    by (induction n) (auto intro!: settles_intros simp: inert_def)
  show "settles (import_images K ctr sock envs tars)" by (induction tars) (auto intro!: settles_intros)
  show "settles (watch_join fuel K logPath deadline)" by (induction fuel) (auto intro!: settles_intros simp: inert_def)
  show "settles (serve_window fuel K logPath deadline reported)"
    by (induction fuel arbitrary: reported) (auto intro!: settles_intros simp: inert_def)
qed

lemma settles_files [settles_intros]:
  "settles (installClusterHosts K src)" "settles (installCABundle K src)" "settles (setupCNI K dir)"
  "settles (prepareKubeletNodeFiles K)" "settles (linkRunc K)" "settles (isDynamicELF K path)"
  "settles (node_resolver_files K networkConfigured)" "settles (copyFile K src dst)"
  unfolding installClusterHosts_def installCABundle_def install_ca_def setupCNI_def copyExecutable_def prepareKubeletNodeFiles_def
    write_if_absent_def linkRunc_def isDynamicELF_def node_resolver_files_def copyFile_def Let_def
  by (intro settles_intros; simp add: inert_def)+

lemma settles_phases [settles_intros]:
  "settles (overlayPhase0 K)" "settles (runcPhase1 K)" "settles (ctrImportAndRun K ctr sock envs logPath tarPath)"
  "settles (criPhase K networkConfigured ctrBin crictlBin sock envs logPath)" "settles (summarizeKubeletLog K path)"
  "settles (serve_node fuel K sock envs)"
  unfolding overlayPhase0_def overlay_checks_def runcPhase1_def runc_container_def ctrImportAndRun_def criPhase_def cri_pod_def
    summarizeKubeletLog_def serve_node_def dumpContainerLogs_def Let_def
  by (intro settles_intros; simp add: inert_def)+

lemma settles_look [settles_intros]: "(\<And>args. settles (crictl args)) \<Longrightarrow> settles (look crictl)"
  unfolding look_def by (intro settles_intros)

lemma settles_session [settles_intros]: "settles (kubelet_session fuel K crictlBin sock envs)"
proof -
  have "settles (kubelet_watch fuel K (crictlRun K crictlBin sock envs) deadline seen)" for deadline seen
    by (induction fuel arbitrary: seen) (auto intro!: settles_intros simp: inert_def)
  then show ?thesis unfolding kubelet_session_def by (intro settles_intros)
qed



section \<open>Phases return\<close>

text \<open>Operations whose result is a value whatever the kernel replies.\<close>

definition surely :: "'a res io \<Rightarrow> bool" where
  "surely m \<longleftrightarrow> (\<forall>h. \<exists>a. result m h = Ok a)"

definition fails_softly :: "'a res io \<Rightarrow> bool" where
  "fails_softly m \<longleftrightarrow> (\<forall>h. result m h \<noteq> Panic \<and> result m h \<noteq> Hang)"

named_theorems surely_intros \<open>operations that return\<close>

lemma surely_basic [surely_intros]:
  "surely (ok_io a)"
  "(\<And>a. surely (f a)) \<Longrightarrow> surely (State_Monad.bind m f)"
  "(b \<Longrightarrow> surely p) \<Longrightarrow> (\<not> b \<Longrightarrow> surely q) \<Longrightarrow> surely (if b then p else q)"
  "surely p \<Longrightarrow> surely (defer_io d p)"
  unfolding surely_def result_bind by simp_all

lemma surely_attempt [surely_intros]: "fails_softly m \<Longrightarrow> (\<And>a. surely (f a)) \<Longrightarrow> surely (attempt m d f)"
  unfolding surely_def fails_softly_def attempt_def result_bind
proof
  fix h assume "\<forall>h. result m h \<noteq> Panic \<and> result m h \<noteq> Hang" "\<And>a. \<forall>h. \<exists>b. result (f a) h = Ok b"
  then show "\<exists>a. result (case result m h of Ok a \<Rightarrow> f a | Err e \<Rightarrow> ok_io d | Panic \<Rightarrow> State_Monad.return Panic
      | Hang \<Rightarrow> State_Monad.return Hang) (after m h) = Ok a"
    by (cases "result m h") auto
qed

lemma surely_must [surely_intros]: "fails_softly m \<Longrightarrow> (\<And>a. surely (f a)) \<Longrightarrow> surely (must m f)"
  unfolding must_def by (rule surely_attempt)

lemma softly_basic [surely_intros]:
  "fails_softly (os_as as_unit K c)" "fails_softly (os_as as_int K c)" "fails_softly (os_as as_data K c)" "fails_softly (os_as as_names K c)"
  "fails_softly (ok_io a)" "fails_softly m \<Longrightarrow> fails_softly (defer_io d m)"
  by (simp_all add: fails_softly_def)

lemma softly_try [surely_intros]: "fails_softly m \<Longrightarrow> (\<And>a. fails_softly (f a)) \<Longrightarrow> fails_softly (try_io m f)"
  unfolding fails_softly_def try_io_def result_bind
proof (intro allI)
  fix h assume m: "\<forall>h. result m h \<noteq> Panic \<and> result m h \<noteq> Hang" and f: "\<And>a. \<forall>h. result (f a) h \<noteq> Panic \<and> result (f a) h \<noteq> Hang"
  let ?r = "result (case result m h of Ok a \<Rightarrow> f a | Err e \<Rightarrow> State_Monad.return (Err e) | Panic \<Rightarrow> State_Monad.return Panic
      | Hang \<Rightarrow> State_Monad.return Hang) (after m h)"
  show "?r \<noteq> Panic \<and> ?r \<noteq> Hang" using m f by (cases "result m h") simp_all
qed

lemma softly_files [surely_intros]: "fails_softly (make_dirs K ds)" "fails_softly (copyFile K src dst)"
proof -
  show "fails_softly (make_dirs K ds)" by (induction ds) (auto intro!: surely_intros)
  have "fails_softly (try_io (os_data K a) (\<lambda>s. os_unit K (g s)))" for a g by (intro surely_intros)
  then have "fails_softly (State_Monad.bind (try_io (os_data K a) (\<lambda>s. os_unit K (g s))) (\<lambda>r.
      if is_ok r then os_unit K b else State_Monad.bind (os_ignore K c) (\<lambda>_. State_Monad.return r)))" for a b c g
    unfolding fails_softly_def result_bind by simp
  then show "fails_softly (copyFile K src dst)" unfolding copyFile_def by (intro surely_intros)
qed

lemma surely_phases [surely_intros]:
  "surely (overlayPhase0 K)" "surely (runcPhase1 K)" "surely (criPhase K networkConfigured ctrBin crictlBin sock envs logPath)"
  unfolding overlayPhase0_def overlay_checks_def runcPhase1_def runc_container_def criPhase_def Let_def
  by (intro surely_intros)+



text \<open>The three loops of this component that wait for a deadline.\<close>

definition look_body :: "(string list \<Rightarrow> string io) \<Rightarrow> bool \<Rightarrow> ((bool \<times> bool) + bool) io" where
  "look_body crictl seen =
     State_Monad.bind (look crictl) (\<lambda>r. State_Monad.return (if snd r then Inl (True, True) else Inr (seen \<or> fst r)))"

definition serve_body :: "kernel \<Rightarrow> string \<Rightarrow> string list \<Rightarrow> (string list + string list) io" where
  "serve_body K logPath reported =
     State_Monad.bind (readFileString K logPath) (\<lambda>s. State_Monad.return (Inr (report_lines reported (splitLines s))))"

definition register_body :: "kernel \<Rightarrow> string \<Rightarrow> (bool + unit) io" where
  "register_body K logPath =
     State_Monad.bind (readFileString K logPath) (\<lambda>log. State_Monad.return (if registered_in log then Inl True else Inr ()))"

lemma sum_if: "(case (if b then Inl x else Inr y) of Inl a \<Rightarrow> f a | Inr s \<Rightarrow> g s) = (if b then f x else g y)"
  by simp

interpretation kubelet_loop: timed_loop
  "\<lambda>fuel K deadline seen. kubelet_watch fuel K (crictlRun K crictlBin sock envs) deadline seen"
  "\<lambda>K seen. look_body (crictlRun K crictlBin sock envs) seen" "\<lambda>seen. (seen, False)" 3000000000
  for crictlBin sock envs
proof unfold_locales
  show "grows (look_body (crictlRun K crictlBin sock envs) seen)" for K seen
    by (rule settles_grows) (simp only: look_body_def, intro settles_intros)
qed (simp_all add: look_body_def sum_if cong: if_cong)

interpretation serve_loop: timed_loop
  "\<lambda>fuel K deadline reported. serve_window fuel K logPath deadline reported"
  "\<lambda>K reported. serve_body K logPath reported" "\<lambda>reported. reported" 5000000000
  for logPath
proof unfold_locales
  show "grows (serve_body K logPath reported)" for K reported
    by (rule settles_grows) (simp only: serve_body_def, intro settles_intros)
qed (simp_all add: serve_body_def cong: if_cong)

interpretation register_loop: timed_loop
  "\<lambda>fuel K deadline (_ :: unit). watch_join fuel K logPath deadline"
  "\<lambda>K _. register_body K logPath" "\<lambda>_. False" 3000000000
  for logPath
proof unfold_locales
  show "grows (register_body K logPath)" for K
    by (rule settles_grows) (simp only: register_body_def, intro settles_intros)
qed (simp_all add: register_body_def sum_if cong: if_cong)

lemma kubelet_session_returns:
  assumes "clocked K clock" "26 \<le> fuel"
  shows "\<exists>a. result (kubelet_session fuel K crictlBin sock envs) h = Ok a"
proof -
  let ?h = "h @ [(Now, RInt (clock h))]"
  let ?w = "kubelet_watch fuel K (crictlRun K crictlBin sock envs) (clock h + seconds 75) False"
  have "clock h \<le> clock ?h" by (rule clocked_le [OF assms(1)])
  then have "clock h + seconds 75 - clock ?h \<le> 3000000000 * (int fuel - 1)" using assms(2) by (simp add: seconds_def)
  then obtain a where "result ?w ?h = Ok a" using kubelet_loop.loop_returns [OF assms(1)] assms(2) by fastforce
  then show ?thesis
    by (simp add: kubelet_session_def clocked_now [OF assms(1)] run_try_io case_prod_beta dumpTail_def del: kubelet_watch.simps)
qed

lemma serve_node_returns:
  assumes "clocked K clock" "26 \<le> fuel"
  shows "\<exists>a. result (serve_node fuel K sock envs) h = Ok a"
proof -
  let ?h = "h @ [(Now, RInt (clock h))]"
  let ?w = "serve_window fuel K apiserver_log (clock h + serveWindow) []"
  have "clock h \<le> clock ?h" by (rule clocked_le [OF assms(1)])
  then have "clock h + serveWindow - clock ?h \<le> 5000000000 * (int fuel - 1)" using assms(2) by (simp add: serveWindow_def seconds_def)
  then obtain a where "result ?w ?h = Ok a" using serve_loop.loop_returns [OF assms(1)] assms(2) by fastforce
  then show ?thesis
    by (simp add: serve_node_def clocked_now [OF assms(1)] run_try_io case_prod_beta del: serve_window.simps)
qed



section \<open>Every process is accounted for\<close>

text \<open>A statement about the processes before and after an operation, which steps that leave no process
  behind can precede and follow, and which holds when the operation gives up at once.\<close>

locale process_claim =
  fixes claim :: "hist \<Rightarrow> 'a res \<Rightarrow> hist \<Rightarrow> bool"
    and given_up :: 'a
  assumes claim_before: "running h1 \<subseteq> running h \<Longrightarrow> started h \<subseteq> started h1 \<Longrightarrow> claim h1 r h2 \<Longrightarrow> claim h r h2"
    and claim_after: "claim h r h1 \<Longrightarrow> running h2 \<subseteq> running h1 \<Longrightarrow> started h1 \<subseteq> started h2 \<Longrightarrow> claim h r h2"
    and claim_stop: "claim h (Ok given_up) h"
    and claim_returns: "claim h r h1 \<Longrightarrow> r \<noteq> Hang"
begin

lemma claim_settled: "settles m \<Longrightarrow> claim (after m h) r h2 \<Longrightarrow> claim h r h2"
  using claim_before settles_after [of m h] by blast

lemma claim_bind: "settles m \<Longrightarrow> (\<And>a h'. ends h' (f a) (claim h')) \<Longrightarrow> ends h (State_Monad.bind m f) (claim h)"
  unfolding ends_def result_bind by (rule claim_settled)

lemma claim_if: "(b \<Longrightarrow> ends h m (claim h)) \<Longrightarrow> (\<not> b \<Longrightarrow> ends h n (claim h)) \<Longrightarrow> ends h (if b then m else n) (claim h)"
  by simp

lemma claim_ok: "ends h (ok_io given_up) (claim h)"
  by (simp add: ends_def claim_stop)

lemma claim_try:
  assumes "settles m" "\<exists>a. result m h = Ok a" "\<And>a h'. ends h' (f a) (claim h')"
  shows "ends h (try_io m f) (claim h)"
proof -
  obtain a where "result m h = Ok a" using assms(2) by blast
  then show ?thesis using assms(3) [of "after m h" a] claim_settled [OF assms(1)]
    unfolding ends_def try_io_def result_bind by simp
qed

lemma claim_attempt:
  assumes "settles m" "fails_softly m" "\<And>a h'. ends h' (f a) (claim h')"
  shows "ends h (attempt m given_up f) (claim h)"
proof (cases "result m h")
  case (Ok a)
  then show ?thesis using assms(3) [of "after m h" a] claim_settled [OF assms(1)]
    unfolding ends_def attempt_def result_bind by simp
next
  case (Err e)
  then show ?thesis using claim_settled [OF assms(1) claim_stop]
    unfolding ends_def attempt_def result_bind by simp
qed (use assms(2) in \<open>simp_all add: fails_softly_def\<close>)

lemma claim_defer:
  assumes "settles f" "ends h m (claim h)"
  shows "ends h (defer_io f m) (claim h)"
proof -
  have "result m h \<noteq> Hang" using assms(2) claim_returns by (auto simp: ends_def)
  then show ?thesis
    using assms(2) claim_after settles_after [OF assms(1)]
    by (cases "run_state m h"; cases "result m h") (auto simp: ends_def run_defer_io)
qed

lemmas claim_rules = claim_bind claim_if claim_ok claim_try claim_attempt claim_defer

end

text \<open>Nothing is left behind.\<close>

definition tidy :: "hist \<Rightarrow> 'a res \<Rightarrow> hist \<Rightarrow> bool" where
  "tidy h r h' \<longleftrightarrow> (\<exists>a. r = Ok a) \<and> running h' \<subseteq> running h \<and> started h \<subseteq> started h'"

text \<open>What is left behind was started and is kept by the node.\<close>

definition accounted :: "node_state \<Rightarrow> hist \<Rightarrow> node_state res \<Rightarrow> hist \<Rightarrow> bool" where
  "accounted st h r h' \<longleftrightarrow> (\<exists>new. r = Ok (st\<lparr>liveProcs := liveProcs st @ new\<rparr>) \<and> set new \<subseteq> started h'
     \<and> running h' \<subseteq> running h \<union> set new) \<and> started h \<subseteq> started h'"

interpretation tidy: process_claim tidy d for d
  by unfold_locales (auto simp: tidy_def)

interpretation accounted: process_claim "accounted st" st for st
proof unfold_locales
  show "accounted st h (Ok st) h" for h by (simp add: accounted_def exI [of _ "[]"])
qed (auto simp: accounted_def; blast)+

lemma settles_tidy: "settles m \<Longrightarrow> result m h = Ok a \<Longrightarrow> ends h m (tidy h)"
  by (simp add: ends_def tidy_def settles_after)


text \<open>The start of a process: it fails, or the rest of the operation runs with a new process.\<close>

lemma ends_start:
  assumes "\<And>k. ends (h @ [(StartProcess a, RInt k)]) (f k) Q"
    and "\<And>r. \<nexists>k. r = RInt k \<Longrightarrow> Q (Ok d) (h @ [(StartProcess a, r)])"
  shows "ends h (attempt (os_int K (StartProcess a)) d f) Q"
proof (cases "\<exists>k. K h (StartProcess a) = RInt k")
  case True
  then obtain k where "K h (StartProcess a) = RInt k" by blast
  then show ?thesis using assms(1) [of k] by (simp add: ends_def attempt_def)
next
  case False
  then show ?thesis using assms(2) [of "K h (StartProcess a)"] as_int_cases [of "K h (StartProcess a)"]
    by (auto simp: ends_def attempt_def)
qed

lemma not_started:
  assumes "\<nexists>k. r = RInt k"
  shows "tidy h (Ok d) (h @ [(StartProcess a, r)])" "accounted st h (Ok st) (h @ [(StartProcess a, r)])"
proof -
  have "running (h @ [(StartProcess a, r)]) = running h" "started h \<subseteq> started (h @ [(StartProcess a, r)])"
    using running_no_start [OF assms] started_mono by blast+
  then show "tidy h (Ok d) (h @ [(StartProcess a, r)])" "accounted st h (Ok st) (h @ [(StartProcess a, r)])"
    by (auto simp: tidy_def accounted_def intro: exI [of _ "[]"])
qed

lemma after_kill_and_wait:
  "running (after (kill_and_wait K k) h) = running h - {k}" "started (after (kill_and_wait K k) h) = started h"
  by (auto simp: kill_and_wait_def running_def proc_step_def started_def)

lemma kubeletPhase_tidy:
  assumes "clocked K clock" "26 \<le> fuel"
  shows "ends h (kubeletPhase fuel K kubeletBin crictlBin sock envs) (tidy h)"
proof -
  let ?s = "kubelet_session fuel K crictlBin sock envs"
  have session: "ends h' (must (os_int K (StartProcess a)) (\<lambda>k. defer_io (kill_and_wait K k) ?s)) (tidy h')" for h' a
    unfolding must_def
  proof (rule ends_start)
    fix k
    let ?h1 = "h' @ [(StartProcess a, RInt k)]"
    obtain r where r: "result ?s ?h1 = Ok r" using kubelet_session_returns [OF assms] by blast
    have "running (after ?s ?h1) \<subseteq> insert k (running h')" "started ?h1 \<subseteq> started (after ?s ?h1)"
      using settles_after [of ?s ?h1, OF settles_session] by simp_all
    moreover have "after (defer_io (kill_and_wait K k) ?s) ?h1 = after (kill_and_wait K k) (after ?s ?h1)"
      using r by (cases "run_state ?s ?h1") (simp add: run_defer_io)
    ultimately show "ends ?h1 (defer_io (kill_and_wait K k) ?s) (tidy h')"
      using r started_mono [of h' "[(StartProcess a, RInt k)]"] by (auto simp: ends_def tidy_def after_kill_and_wait)
  qed (rule not_started)
  show ?thesis
    unfolding kubeletPhase_def must_def
    by (intro tidy.claim_rules settles_intros surely_intros session [unfolded must_def]) (simp_all add: inert_def ends_def tidy_def)
qed

lemma watch_node_ends:
  assumes "clocked K clock" "26 \<le> fuel"
  shows "ends h (watch_node fuel K sock envs k st) (\<lambda>r h'. started h \<subseteq> started h' \<and>
     (r = Ok st \<and> running h' \<subseteq> running h - {k} \<or> r = Ok (keepAlive k st) \<and> running h' \<subseteq> running h))"
proof -
  let ?h = "h @ [(Now, RInt (clock h))]"
  let ?w = "watch_join fuel K apiserver_log (clock h + seconds 75)"
  have "clock h \<le> clock ?h" by (rule clocked_le [OF assms(1)])
  then have "clock h + seconds 75 - clock ?h \<le> 3000000000 * (int fuel - 1)" using assms(2) by (simp add: seconds_def)
  then obtain b where b: "result ?w ?h = Ok b" using register_loop.loop_returns [OF assms(1)] assms(2) by fastforce
  define h1 where "h1 = after ?w ?h"
  have h1: "running h1 \<subseteq> running h" "started h \<subseteq> started h1"
    using settles_after [of ?w ?h] settles_loops(5) started_mono [of h "[(Now, RInt (clock h))]"]
    by (auto simp: h1_def running_inert inert_def)
  have run: "run_state ?w ?h = (Ok b, h1)" using b by (simp add: h1_def prod_eq_iff)
  show ?thesis
  proof (cases b)
    case True
    obtain a where "result (serve_node fuel K sock envs) h1 = Ok a" using serve_node_returns [OF assms] by blast
    then show ?thesis
      using True h1 settles_after [of "serve_node fuel K sock envs" h1] settles_phases(6)
      by (auto simp: ends_def watch_node_def clocked_now [OF assms(1)] run_try_io run case_prod_beta)
  next
    case False
    then show ?thesis
      using h1 settles_after [of "summarizeKubeletLog K apiserver_log" h1] settles_phases(5)
      by (auto simp: ends_def watch_node_def clocked_now [OF assms(1)] run_try_io run case_prod_beta started_snoc)
  qed
qed


lemma keepAlive_liveProcs: "keepAlive k st = st\<lparr>liveProcs := liveProcs st @ [k]\<rparr>"
  by (simp add: keepAlive_def)

lemma accounted_kept:
  assumes "accounted (keepAlive k st) (h @ [(StartProcess a, RInt k)]) r h'"
  shows "accounted st h r h'"
proof -
  let ?h1 = "h @ [(StartProcess a, RInt k)]"
  obtain new where new: "r = Ok (keepAlive k st\<lparr>liveProcs := liveProcs (keepAlive k st) @ new\<rparr>)" "set new \<subseteq> started h'"
      "running h' \<subseteq> running ?h1 \<union> set new" "started ?h1 \<subseteq> started h'"
    using assms by (auto simp: accounted_def)
  have "k \<in> started h'" using new(4) by (auto simp: started_def)
  moreover have "started h \<subseteq> started h'" using new(4) started_mono [of h] by blast
  ultimately show ?thesis using new unfolding accounted_def
    by (intro conjI exI [of _ "k # new"]) (auto simp: keepAlive_def)
qed

lemma apiserverPhase_accounted:
  assumes "clocked K clock" "26 \<le> fuel"
  shows "ends h (apiserverPhase fuel K kubeletBin sock kubeconfig envs st) (accounted st h)"
proof -
  have watch: "ends h' (attempt (os_int K (StartProcess a)) st (\<lambda>k. watch_node fuel K sock envs k st)) (accounted st h')" for h' a
  proof (rule ends_start)
    fix k
    let ?h1 = "h' @ [(StartProcess a, RInt k)]"
    show "ends ?h1 (watch_node fuel K sock envs k st) (accounted st h')"
    proof (rule ends_mono [OF watch_node_ends [OF assms]])
      fix r h2 assume w: "started ?h1 \<subseteq> started h2 \<and>
        (r = Ok st \<and> running h2 \<subseteq> running ?h1 - {k} \<or> r = Ok (keepAlive k st) \<and> running h2 \<subseteq> running ?h1)"
      have s: "k \<in> started h2" "started h' \<subseteq> started h2" using w started_mono [of h' "[(StartProcess a, RInt k)]"] by (auto simp: started_def)
      from w show "accounted st h' r h2"
      proof (elim conjE disjE)
        assume "r = Ok st" "running h2 \<subseteq> running ?h1 - {k}"
        then show ?thesis using s by (auto simp: accounted_def intro!: exI [of _ "[]"])
      next
        assume "r = Ok (keepAlive k st)" "running h2 \<subseteq> running ?h1"
        then show ?thesis using s by (auto simp: accounted_def keepAlive_def intro!: exI [of _ "[k]"])
      qed
    qed
  qed (rule not_started)
  show ?thesis
    unfolding apiserverPhase_def
    by (intro accounted.claim_rules settles_intros surely_intros watch) (simp_all add: inert_def)
qed

lemma drive_containerd_accounted:
  assumes "clocked K clock" "26 \<le> fuel"
  shows "ends h (drive_containerd fuel K networkConfigured ctr st) (accounted st h)"
proof -
  have phases: "ends h' (try_io (kubeletPhase fuel K kubelet crictl sock envs) (\<lambda>_. apiserverPhase fuel K kubelet sock kc envs st))
      (accounted st h')" for h' kubelet crictl sock envs kc
  proof -
    have k: "ends h' (kubeletPhase fuel K kubelet crictl sock envs) (tidy h')" by (rule kubeletPhase_tidy [OF assms])
    show ?thesis
      by (rule ends_try, rule ends_mono [OF k])
         (auto simp: tidy_def intro!: ends_mono [OF apiserverPhase_accounted [OF assms]], erule (2) accounted.claim_before)
  qed
  show ?thesis
    unfolding drive_containerd_def Let_def
    by (intro accounted.claim_rules settles_intros phases)
       (use surely_phases(3) in \<open>auto simp: surely_def inert_def\<close>)
qed

lemma startContainerdDaemon_accounted:
  assumes "clocked K clock" "26 \<le> fuel"
  shows "ends h (startContainerdDaemon fuel K networkConfigured containerd ctr st) (accounted st h)"
proof -
  have start: "ends h' (attempt (os_int K (StartProcess a)) st (\<lambda>k. drive_containerd fuel K networkConfigured ctr (keepAlive k st)))
      (accounted st h')" for h' a
  proof (rule ends_start)
    show "ends (h' @ [(StartProcess a, RInt k)]) (drive_containerd fuel K networkConfigured ctr (keepAlive k st)) (accounted st h')" for k
      by (rule ends_mono [OF drive_containerd_accounted [OF assms]]) (rule accounted_kept)
  qed (rule not_started)
  show ?thesis
    unfolding startContainerdDaemon_def
    by (intro accounted.claim_rules settles_intros surely_intros start) (simp_all add: inert_def)
qed

lemma runtime_tests_ends:
  assumes "clocked K clock" "26 \<le> fuel"
  shows "ends h (runContainerRuntimeTests fuel K networkConfigured st) (accounted st h)"
proof -
  have "ends h' (containerdPhase2 fuel K networkConfigured st) (accounted st h')" for h'
    unfolding containerdPhase2_def Let_def
    by (intro accounted.claim_rules settles_intros surely_intros startContainerdDaemon_accounted [OF assms]) (simp_all add: inert_def)
  then show ?thesis
    unfolding runContainerRuntimeTests_def
    by (intro accounted.claim_rules settles_intros) (use surely_phases in \<open>auto simp: surely_def\<close>)
qed

text \<open>C9 (no process is lost): with a running clock the container runtime tests return; they change nothing
  of the node's state but the processes that it keeps, to which they only add processes that were
  started, and every process that they started and did not kill is among those. So the standalone
  kubelet, a kubelet that did not register and every command that ran out of time are gone.\<close>

theorem runtime_tests_accounted:
  assumes "clocked K clock" "26 \<le> fuel"
  shows "\<exists>new. result (runContainerRuntimeTests fuel K networkConfigured st) h = Ok (st\<lparr>liveProcs := liveProcs st @ new\<rparr>)
     \<and> set new \<subseteq> started (after (runContainerRuntimeTests fuel K networkConfigured st) h)
     \<and> running (after (runContainerRuntimeTests fuel K networkConfigured st) h) \<subseteq> running h \<union> set new"
  using runtime_tests_ends [OF assms] by (simp add: ends_def accounted_def)

text \<open>A host that shares a directory with all the programs, which all work at once.\<close>

definition full_share :: kernel where
  "full_share h c = (case c of Now \<Rightarrow> RInt (spent h) | StartProcess a \<Rightarrow> RInt (int (length h)) | OpenFile p f \<Rightarrow> RInt 5
     | ReadFile p \<Rightarrow> RData ''Successfully registered node'' | ReadDir p \<Rightarrow> RNames [''containerd''] | RunOutput a d \<Rightarrow> ROut 0 ''hello''
     | _ \<Rightarrow> RUnit)"

theorem runtime_tests_accounted_witness:
  "\<exists>new. result (runContainerRuntimeTests 26 full_share False fresh_node) [] = Ok \<lparr>clusterJoined = False, liveProcs = new\<rparr>
     \<and> running (after (runContainerRuntimeTests 26 full_share False fresh_node) []) \<subseteq> set new"
proof -
  have "clocked full_share spent" by (simp add: clocked_def full_share_def spent_def)
  from runtime_tests_accounted [OF this, of 26 False fresh_node "[]"] show ?thesis
    by (auto simp: fresh_node_def running_def)
qed


section \<open>The static containerd is contained\<close>

definition contained :: "bool \<Rightarrow> node_state \<Rightarrow> hist \<Rightarrow> node_state res \<Rightarrow> hist \<Rightarrow> bool" where
  "contained persist st h r h' \<longleftrightarrow> (\<exists>pid. r \<in> {Ok st, Ok (if persist then keepAlive pid st else st)}
     \<and> running h' \<subseteq> running h \<union> (if persist then {pid} else {}))"

interpretation contained: process_claim "contained persist st" st for persist st
  by unfold_locales (auto simp: contained_def; blast)+

lemma zeroc_session_result:
  "settles (zeroc_session K persist envs pid st)"
  "result (zeroc_session K persist envs pid st) h \<in> {Ok st, Ok (if persist then keepAlive pid st else st)}"
  unfolding zeroc_session_def by (intro settles_intros) (simp add: case_prod_beta)

text \<open>The test of the static containerd always returns; without the persistence option it leaves the
  node's state as it was and no process behind; with the option it leaves at most the daemon, which it
  adds to the processes of the node unless a check failed.\<close>

lemma zeroc_contained:
  "\<exists>pid. result (zeroCContainerdTest K persist environ st) h \<in> {Ok st, Ok (if persist then keepAlive pid st else st)}
     \<and> running (after (zeroCContainerdTest K persist environ st) h) \<subseteq> running h \<union> (if persist then {pid} else {})"
proof -
  let ?s = "\<lambda>pid. zeroc_session K persist (join_env environ) pid st"
  let ?d = "\<lambda>pid. if persist then State_Monad.return () else kill_and_wait K pid"
  have session: "ends h' (attempt (os_int K (StartProcess a)) st (\<lambda>pid. defer_io (?d pid) (?s pid))) (contained persist st h')" for h' a
  proof (rule ends_start)
    fix k
    let ?h1 = "h' @ [(StartProcess a, RInt k)]"
    have r: "result (?s k) ?h1 \<in> {Ok st, Ok (if persist then keepAlive k st else st)}" by (rule zeroc_session_result)
    then have "after (defer_io (?d k) (?s k)) ?h1 = after (?d k) (after (?s k) ?h1)"
      by (cases "run_state (?s k) ?h1") (auto simp: run_defer_io)
    moreover have "running (after (?s k) ?h1) \<subseteq> insert k (running h')"
      using settles_after(1) [of "?s k" ?h1] zeroc_session_result(1) by simp
    ultimately show "ends ?h1 (defer_io (?d k) (?s k)) (contained persist st h')"
      using r unfolding ends_def contained_def by (intro exI [of _ k]) (auto simp: after_kill_and_wait)
  next
    fix r :: reply assume "\<nexists>k. r = RInt k"
    then show "contained persist st h' (Ok st) (h' @ [(StartProcess a, r)])"
      by (simp add: contained_def running_no_start)
  qed
  have "ends h (zeroCContainerdTest K persist environ st) (contained persist st h)"
    unfolding zeroCContainerdTest_def
    by (intro contained.claim_rules settles_intros surely_intros session) (simp_all add: inert_def)
  then show ?thesis by (simp add: ends_def contained_def)
qed

text \<open>With the option, a daemon that does not open its socket keeps running although the node does not know
  of it.\<close>

lemma zeroc_orphan:
  assumes "\<And>h. K h (Stat containerd_sock) = RErr ENOENT"
  shows "ends h (defer_io (State_Monad.return ()) (zeroc_session K True envs pid st)) (\<lambda>r h'. r = Ok st \<and> running h' = running h)"
proof -
  let ?w = "\<lambda>n. await_socket n K containerd_sock"
  have down: "result (?w n) h = False" for n h
    by (induction n arbitrary: h) (simp_all add: assms case_prod_beta)
  have unseen: "unseen running inert" by (simp add: unseen_def running_inert)
  have "only inert (?w n)" for n
    by (induction n) (auto simp: path_exists_def inert_def intro!: only_intros)
  then have wait: "ends h (?w 100) (\<lambda>up h'. \<not> up \<and> running h' = running h)"
    using ends_frame [OF unseen, of "?w 100" h] down by (simp add: ends_def del: await_socket.simps)
  have log: "ends h' (dumpTail K containerd_log 40) (\<lambda>_ h''. running h'' = running h')" for h'
    by (rule ends_frame [OF unseen]) (auto simp: dumpTail_def inert_def intro!: only_intros split: res.splits)
  have "ends h (zeroc_session K True envs pid st) (\<lambda>r h'. r = Ok st \<and> running h' = running h)"
    unfolding zeroc_session_def
    by (rule ends_bind, rule ends_mono [OF wait]) (auto intro!: ends_bind ends_mono [OF log] ends_ok)
  then show ?thesis
    by (intro ends_defer) (auto simp: ends_def)
qed



section \<open>Mounts are undone\<close>

text \<open>A count over the history that is the same before and after an operation. It is when a call that adds
  one is followed by a deferred call that takes one away.\<close>

definition level :: "(call \<times> reply \<Rightarrow> int) \<Rightarrow> hist \<Rightarrow> hist \<Rightarrow> bool" where
  "level count h h' \<longleftrightarrow> sum_list (map count h') = sum_list (map count h)"

lemma preorder_level: "preorder_on_hist (level count)"
  by (auto simp: preorder_on_hist_def level_def intro!: reflpI transpI)

lemma level_paired:
  assumes "keeps (level count) m" "surely m"
    and "\<And>r. count (opening, r) = (if as_unit r = Ok () then 1 else 0)" "\<And>r. count (closing, r) = - 1"
  shows "keeps (level count) (attempt (os_unit K opening) d (\<lambda>_. defer_io (os_ignore K closing) m))" (is "keeps _ ?m")
proof -
  have "grows ?m" using keepsD(2) [OF assms(1)]
    unfolding attempt_def by (auto intro!: only_intros split: res.splits)
  moreover have "level count h (after ?m h)" for h
  proof (cases "as_unit (K h opening) = Ok ()")
    case True
    let ?h1 = "h @ [(opening, K h opening)]"
    obtain a where "result m ?h1 = Ok a" using assms(2) unfolding surely_def by blast
    then show ?thesis using True keepsD(1) [OF assms(1), of ?h1]
      by (cases "run_state m ?h1") (simp add: attempt_def run_defer_io level_def assms(3,4))
  next
    case False
    then show ?thesis using as_unit_cases [of "K h opening"] by (auto simp: attempt_def level_def assms(3))
  qed
  ultimately show ?thesis by (simp add: keeps_def)
qed

text \<open>The number of successful mounts less that of the unmounts does not change.\<close>

abbreviation balanced :: "hist \<Rightarrow> hist \<Rightarrow> bool" where
  "balanced \<equiv> level mount_change"

definition no_mount :: "call \<Rightarrow> bool" where
  "no_mount c \<longleftrightarrow> (case c of Mount src tgt fs fl d \<Rightarrow> False | Unmount p fl \<Rightarrow> False | _ \<Rightarrow> True)"

named_theorems balanced_intros \<open>operations that undo their mounts\<close>

lemmas balanced_structure [balanced_intros] = keeps_structure [OF preorder_level [of mount_change]] keeps_must [OF preorder_level [of mount_change]]
  keeps_if [of _ balanced] keeps_res [of balanced] keeps_option [of balanced]

lemma balanced_os [balanced_intros]:
  "no_mount c \<Longrightarrow> keeps balanced (os_as f K c)" "no_mount c \<Longrightarrow> keeps balanced (os_ignore K c)"
proof -
  assume "no_mount c"
  then have "mount_change (c, r) = 0" for r by (cases c) (simp_all add: no_mount_def)
  then show "keeps balanced (os_as f K c)" "keeps balanced (os_ignore K c)" by (intro keeps_os; simp add: level_def)+
qed

lemma balanced_run [balanced_intros]: "keeps balanced (run_limited K d a)"
  unfolding run_limited_def by (intro balanced_intros; simp add: no_mount_def)

lemma balanced_files [balanced_intros]:
  "keeps balanced (path_exists K path)" "keeps balanced (make_dirs K ds)" "keeps balanced (copyFile K src dst)"
proof -
  show "keeps balanced (path_exists K path)" unfolding path_exists_def by (intro balanced_intros) (simp add: no_mount_def)
  show "keeps balanced (make_dirs K ds)" by (induction ds) (auto intro!: balanced_intros simp: no_mount_def)
  show "keeps balanced (copyFile K src dst)" unfolding copyFile_def by (intro balanced_intros; simp add: no_mount_def)
qed

lemma balanced_mounted:
  assumes "keeps balanced m" "surely m"
  shows "keeps balanced (must (os_unit K (Mount src tgt fs fl d)) (\<lambda>_. defer_io (os_ignore K (Unmount p 0)) m))"
  unfolding must_def by (rule level_paired [OF assms]) simp_all

text \<open>C22 (overlays are unmounted): on every path through the overlay test and the runc test, whatever the
  kernel replies, as many unmounts follow as mounts have succeeded, and both tests return.\<close>

theorem overlays_unmounted:
  "mounts_left (after (overlayPhase0 K) h) = mounts_left h \<and> mounts_left (after (runcPhase1 K) h) = mounts_left h
   \<and> (\<exists>v. result (overlayPhase0 K) h = Ok v) \<and> (\<exists>v. result (runcPhase1 K) h = Ok v)"
proof -
  have checks: "keeps balanced (overlay_checks K base)" "surely (overlay_checks K base)" for base
    unfolding overlay_checks_def Let_def by (intro balanced_intros; simp add: no_mount_def) (intro surely_intros)
  have runc: "keeps balanced (runc_container K bdir)" "surely (runc_container K bdir)" for bdir
    unfolding runc_container_def by (intro balanced_intros; simp add: no_mount_def) (intro surely_intros)
  have "keeps balanced (overlayPhase0 K)"
    unfolding overlayPhase0_def Let_def
    by (intro keeps_must [OF preorder_level [of mount_change]] balanced_mounted balanced_files balanced_os checks) (simp add: no_mount_def)
  moreover have "keeps balanced (runcPhase1 K)"
    unfolding runcPhase1_def Let_def
    by (intro keeps_bind [OF preorder_level [of mount_change]] keeps_if keeps_return [OF preorder_level [of mount_change]] balanced_mounted [OF runc]
          keeps_must [OF preorder_level [of mount_change] balanced_files(2)] keeps_must [OF preorder_level [of mount_change] balanced_files(3)] balanced_files)
  ultimately show ?thesis
    using surely_phases(1,2) [of K] keepsD(1) [of balanced "overlayPhase0 K" h] keepsD(1) [of balanced "runcPhase1 K" h]
    by (simp add: level_def mounts_left_def surely_def)
qed


section \<open>Reports\<close>

lemma report_lines_set: "set (report_lines reported lines) = set reported \<union> {ln \<in> set lines. firstMatch ln serve_needles \<noteq> []}"
  by (induction reported lines rule: report_lines.induct) auto

lemma report_lines_distinct: "distinct reported \<Longrightarrow> distinct (report_lines reported lines)"
proof (induction reported lines rule: report_lines.induct)
  case (2 reported ln lines)
  show ?case
  proof (cases "firstMatch ln serve_needles = [] \<or> ln \<in> set reported")
    case True
    then have "report_lines reported (ln # lines) = report_lines reported lines" by auto
    then show ?thesis using 2 True by auto
  next
    case False
    then show ?thesis using 2 by simp
  qed
qed simp

text \<open>In the serve window a line of the kubelet's log is printed at most
  once, and only if it speaks of readiness, a pod or a failure.\<close>

lemma serve_reports_once:
  assumes "result (serve_window fuel K logPath deadline []) h = Ok reported"
  shows "distinct reported \<and> (\<forall>ln \<in> set reported. firstMatch ln serve_needles \<noteq> [])"
  by (rule serve_loop.loop_invariant [OF assms, where I = "\<lambda>r. distinct r \<and> (\<forall>ln \<in> set r. firstMatch ln serve_needles \<noteq> [])"])
     (auto simp: serve_body_def readFileString_def report_lines_set report_lines_distinct case_prod_beta)

definition pod_log :: kernel where
  "pod_log h c = (case c of Now \<Rightarrow> RInt (spent h) | ReadFile p \<Rightarrow> RData (''Started container'' @ nl @ ''idle'' @ nl @ ''Started container'' @ nl)
     | _ \<Rightarrow> RUnit)"

lemma pod_log_reports: "result (serve_window 3 pod_log apiserver_log 1 []) [] = Ok [''Started container'']"
  by code_simp


text \<open>The summary of a log: at most 25 lines of a crash and at most 60 that match.\<close>

lemma crash_header_length: "length (crash_header lines) \<le> 25"
  by (induction lines) simp_all

lemma matching_lines_eq:
  "printed < 60 \<Longrightarrow> matching_lines printed lines =
     take (60 - printed) (filter (\<lambda>ln. \<not> stack_noise ln \<and> firstMatch ln log_keywords \<noteq> []) (map strip_log lines))"
  by (induction printed lines rule: matching_lines.induct) (auto simp: Let_def take_Cons' Suc_diff_Suc)

lemma firstMatch_found: "[] \<notin> set ns \<Longrightarrow> firstMatch s ns \<noteq> [] \<longleftrightarrow> (\<exists>n \<in> set ns. contains s n)"
  by (induction ns) auto

lemma split_from_eq:
  "CHR 0x0A \<notin> set line \<Longrightarrow> split_from line s =
     (let ls = split_on (CHR 0x0A) (line @ s) in if last ls = [] then butlast ls else ls)"
proof (induction line s rule: split_from.induct)
  case (1 line)
  then show ?case by (simp add: split_on_no_sep)
next
  case (2 line c s)
  then show ?case by (auto simp: Let_def split_on_append_sep)
qed

text \<open>The lines of a text are its parts between line feeds, without an empty last one.\<close>

lemma splitLines_eq: "splitLines s = (let ls = split_on (CHR 0x0A) s in if last ls = [] then butlast ls else ls)"
  unfolding splitLines_def by (subst split_from_eq) simp_all

end
