(* ===== verification/SecurityProbes.thy ===== *)
theory SecurityProbes
  imports Daemons
begin

text \<open>
  The probes that test the kernel's isolation: seccomp filters, the mandatory access control on signals,
  files and connections, user namespaces, volumes and sandboxes (\<open>seccomp_probe_linux.go\<close>,
  \<open>mac_probe_linux.go\<close>, \<open>file_mac_probe_linux.go\<close>, \<open>socket_mac_probe_linux.go\<close>, \<open>userns_probe_linux.go\<close>,
  \<open>rootless_probe_linux.go\<close>, \<open>usermap_probe_linux.go\<close>, \<open>volume_probe_linux.go\<close>, \<open>sandbox_probe_linux.go\<close>). A program
  that a probe re-executes is an operation whose result is its exit status; \<open>os.Exit\<close> ends it at once,
  without its deferred calls. The verdict that init prints is a boolean.
\<close>

unbundle bit_operations_syntax

section \<open>Re-executed programs\<close>

definition seccompProbeEnv :: string where "seccompProbeEnv = ''ASTERKUBE_SECCOMP_PROBE''"
definition macProbeEnv :: string where "macProbeEnv = ''ASTERKUBE_MAC_PROBE''"
definition fileMacProbeEnv :: string where "fileMacProbeEnv = ''ASTERKUBE_FILE_MAC_PROBE''"
definition socketMacProbeEnv :: string where "socketMacProbeEnv = ''ASTERKUBE_SOCKET_MAC_PROBE''"
definition usernsProbeEnv :: string where "usernsProbeEnv = ''ASTERKUBE_USERNS_PROBE''"
definition rootlessProbeEnv :: string where "rootlessProbeEnv = ''ASTERKUBE_ROOTLESS_PROBE''"
definition usermapProbeEnv :: string where "usermapProbeEnv = ''ASTERKUBE_USERMAP_PROBE''"
definition suidReportEnv :: string where "suidReportEnv = ''ASTERKUBE_SUID_REPORT''"
definition sandboxProbeEnv :: string where "sandboxProbeEnv = ''ASTERKUBE_SANDBOX_NETNS''"
definition runcPayloadEnv :: string where "runcPayloadEnv = ''ASTERKUBE_RUNC_PAYLOAD''"
definition probeChildEnv :: string where "probeChildEnv = ''ASTERKUBE_PROBE_CHILD''"

lemmas probe_env_defs = seccompProbeEnv_def macProbeEnv_def fileMacProbeEnv_def socketMacProbeEnv_def usernsProbeEnv_def
  rootlessProbeEnv_def usermapProbeEnv_def suidReportEnv_def sandboxProbeEnv_def runcPayloadEnv_def probeChildEnv_def

definition self_exe :: "kernel \<Rightarrow> string io" where
  "self_exe K = os_as (\<lambda>r. case r of RData s \<Rightarrow> s | _ \<Rightarrow> ''/proc/self/exe'') K Executable"

text \<open>\<open>CombinedOutput\<close>: the exit status, if the program could be started, and its output.\<close>

definition as_status :: "reply \<Rightarrow> int option \<times> string" where
  "as_status r = (case r of ROut status out \<Rightarrow> (Some status, out) | _ \<Rightarrow> (None, []))"

definition run_child :: "kernel \<Rightarrow> proc_attr \<Rightarrow> (int option \<times> string) io" where
  "run_child K a = os_as as_status K (RunOutput a (- 1))"

definition reexec :: "string \<Rightarrow> string list \<Rightarrow> proc_attr" where
  "reexec self envs = command [self] envs []"

text \<open>\<open>if err := m; err != nil { os.Exit(2) }\<close>.\<close>

definition or_exit :: "'a res io \<Rightarrow> int res io \<Rightarrow> int res io" where
  "or_exit m f = State_Monad.bind m (\<lambda>r. if is_ok r then f else ok_io 2)"


section \<open>Seccomp filters\<close>

definition prSetNoNewPrivs :: int where "prSetNoNewPrivs = 38"
definition seccompSetModeFilter :: nat where "seccompSetModeFilter = 1"
definition seccompFilterFlagTSync :: nat where "seccompFilterFlagTSync = 1"
definition bpfLd :: "16 word" where "bpfLd = 0x00"
definition bpfW :: "16 word" where "bpfW = 0x00"
definition bpfAbs :: "16 word" where "bpfAbs = 0x20"
definition bpfJmp :: "16 word" where "bpfJmp = 0x05"
definition bpfJeq :: "16 word" where "bpfJeq = 0x10"
definition bpfRet :: "16 word" where "bpfRet = 0x06"
definition bpfK :: "16 word" where "bpfK = 0x00"
definition offNr :: "32 word" where "offNr = 0"
definition offArch :: "32 word" where "offArch = 4"
definition auditArchX8664 :: "32 word" where "auditArchX8664 = 0xC000003E"
definition retKillProcess :: "32 word" where "retKillProcess = 0x80000000"
definition retErrno :: "32 word" where "retErrno = 0x00050000"
definition retAllow :: "32 word" where "retAllow = 0x7fff0000"
definition eperm :: "32 word" where "eperm = 1"

definition buildFilter :: "32 word \<Rightarrow> 32 word \<Rightarrow> sockFilter list" where
  "buildFilter targetNr action =
     [\<lparr>sf_code = bpfLd OR bpfW OR bpfAbs, sf_jt = 0, sf_jf = 0, sf_k = offArch\<rparr>,
      \<lparr>sf_code = bpfJmp OR bpfJeq OR bpfK, sf_jt = 1, sf_jf = 0, sf_k = auditArchX8664\<rparr>,
      \<lparr>sf_code = bpfRet OR bpfK, sf_jt = 0, sf_jf = 0, sf_k = retKillProcess\<rparr>,
      \<lparr>sf_code = bpfLd OR bpfW OR bpfAbs, sf_jt = 0, sf_jf = 0, sf_k = offNr\<rparr>,
      \<lparr>sf_code = bpfJmp OR bpfJeq OR bpfK, sf_jt = 0, sf_jf = 1, sf_k = targetNr\<rparr>,
      \<lparr>sf_code = bpfRet OR bpfK, sf_jt = 0, sf_jf = 0, sf_k = action\<rparr>,
      \<lparr>sf_code = bpfRet OR bpfK, sf_jt = 0, sf_jf = 0, sf_k = retAllow\<rparr>]"

definition installFilter :: "kernel \<Rightarrow> sockFilter list \<Rightarrow> unit res io" where
  "installFilter K prog =
     State_Monad.bind (os_unit K (Seccomp seccompSetModeFilter seccompFilterFlagTSync (of_nat (length prog)) prog)) (\<lambda>r.
     if is_ok r then State_Monad.return r
     else os_unit K (Seccomp seccompSetModeFilter 0 (of_nat (length prog)) prog))"

definition SYS_UNAME :: "32 word" where "SYS_UNAME = 63"

definition probe_action :: "string \<Rightarrow> 32 word" where
  "probe_action mode = (if mode = ''kill'' then retKillProcess else retErrno OR eperm)"

definition seccompProbeChild :: "kernel \<Rightarrow> string \<Rightarrow> int res io" where
  "seccompProbeChild K mode =
     or_exit (os_unit K (Prctl prSetNoNewPrivs 1 0 0 0)) (
     or_exit (installFilter K (buildFilter SYS_UNAME (probe_action mode))) (
     State_Monad.bind (os_as (\<lambda>r. case r of RInt n \<Rightarrow> n | _ \<Rightarrow> 0) K Getpid) (\<lambda>pid.
     if pid \<le> 0 then ok_io 2
     else State_Monad.bind (os_unit K Uname) (\<lambda>err.
       ok_io (if mode = ''kill'' then 3 else if err = Err (Errno EPERM) then 0 else 3)))))"

definition runSeccompProbe :: "kernel \<Rightarrow> string list \<Rightarrow> bool io" where
  "runSeccompProbe K environ =
     State_Monad.bind (self_exe K) (\<lambda>self.
     State_Monad.bind (run_child K (reexec self (environ @ [setting seccompProbeEnv ''errno'']))) (\<lambda>e.
     State_Monad.bind (run_child K (reexec self (environ @ [setting seccompProbeEnv ''kill'']))) (\<lambda>k.
     State_Monad.return (fst e = Some 0 \<and> (case fst k of Some status \<Rightarrow> status < 0 | None \<Rightarrow> False)))))"


section \<open>Mandatory access control\<close>

definition tenantA :: int where "tenantA = 1"
definition tenantB :: int where "tenantB = 2"

text \<open>\<open>Kill(pid, 0)\<close>, a permission check.\<close>

definition may_signal :: "kernel \<Rightarrow> int \<Rightarrow> unit res io" where
  "may_signal K pid = os_unit K (Kill pid 0)"

definition exit_verdict :: "bool \<Rightarrow> int res io" where
  "exit_verdict ok = ok_io (if ok then 0 else 3)"

definition macProbePeer :: "kernel \<Rightarrow> int res io" where
  "macProbePeer K =
     or_exit (prctlSetTenant K tenantB) (
     State_Monad.bind (os_ignore K (WriteFd 1 (''peer-ready'' @ nl))) (\<lambda>_.
     State_Monad.bind (os_ignore K (ReadFd 0)) (\<lambda>_. ok_io 0)))"

text \<open>The scenarios once the peer is ready.\<close>

definition mac_scenarios :: "kernel \<Rightarrow> int \<Rightarrow> int res io" where
  "mac_scenarios K peerPid =
     or_exit (prctlMacMode K macModeEnforcing) (
     or_exit (prctlSetTenant K tenantA) (
     State_Monad.bind (may_signal K peerPid) (\<lambda>crossErr.
     or_exit (prctlSetTenant K tenantB) (
     State_Monad.bind (may_signal K peerPid) (\<lambda>sameErr.
     or_exit (prctlSetTenant K tenantA) (
     or_exit (prctlMacMode K macModePermissive) (
     State_Monad.bind (may_signal K peerPid) (\<lambda>permErr.
     exit_verdict (crossErr = Err (Errno EPERM) \<and> sameErr = Ok () \<and> permErr = Ok ())))))))))"

text \<open>The pipes of a child: the end that the child gets, and the end that is kept, if there is a pipe. The
  child's ends are closed once it runs.\<close>

definition pipe_ends :: "(int \<times> int) res \<Rightarrow> int list" where
  "pipe_ends r = (case r of Ok (a, b) \<Rightarrow> [a, b] | _ \<Rightarrow> [])"

definition start_piped :: "kernel \<Rightarrow> proc_attr \<Rightarrow> (int \<times> int option \<times> int option) res io" where
  "start_piped K a =
     State_Monad.bind (os_pair K MakePipe) (\<lambda>i.
     State_Monad.bind (os_pair K MakePipe) (\<lambda>out.
     let theirs = take 1 (pipe_ends i) @ drop 1 (pipe_ends out);
         ours = \<lambda>r f. (case r of Ok e \<Rightarrow> Some (f e) | _ \<Rightarrow> None) in
     try_io (os_int K (StartProcess (a\<lparr>pa_files := theirs\<rparr>))) (\<lambda>pid.
     State_Monad.bind (close_all K theirs) (\<lambda>_.
     ok_io (pid, ours i snd, ours out fst)))))"

definition read_line :: "kernel \<Rightarrow> int \<Rightarrow> string io" where
  "read_line K fd = os_as (\<lambda>r. case r of RData s \<Rightarrow> s | _ \<Rightarrow> []) K (ReadFd fd)"

definition macProbeMain :: "kernel \<Rightarrow> string list \<Rightarrow> int res io" where
  "macProbeMain K environ =
     State_Monad.bind (self_exe K) (\<lambda>self.
     State_Monad.bind (start_piped K (reexec self (environ @ [setting macProbeEnv ''peer'']))) (\<lambda>p. case p of
         Ok (pid, stdin, stdout) \<Rightarrow> (case stdout of
             None \<Rightarrow> State_Monad.return Panic
           | Some fd \<Rightarrow> State_Monad.bind (read_line K fd) (\<lambda>line.
               if line \<noteq> ''peer-ready'' @ nl then ok_io 2 else mac_scenarios K pid))
       | _ \<Rightarrow> ok_io 2))"

definition run_self :: "kernel \<Rightarrow> string list \<Rightarrow> bool io" where
  "run_self K envs =
     State_Monad.bind (self_exe K) (\<lambda>self.
     State_Monad.bind (run_child K (reexec self envs)) (\<lambda>r. State_Monad.return (fst r = Some 0)))"

definition runMacProbe :: "kernel \<Rightarrow> string list \<Rightarrow> bool io" where
  "runMacProbe K environ = run_self K (environ @ [setting macProbeEnv ''main''])"


subsection \<open>Files\<close>

definition fileMacPathEnv :: string where "fileMacPathEnv = ''ASTERKUBE_FILE_MAC_PATH''"
definition secretPath :: string where "secretPath = ''/tmp/astermac-secret''"
definition prAsterkubeLabelFd :: int where "prAsterkubeLabelFd = 0x4b55464c"

definition labelFd :: "kernel \<Rightarrow> int \<Rightarrow> int \<Rightarrow> unit res io" where
  "labelFd K fd tenant = os_unit K (Prctl prAsterkubeLabelFd fd tenant 0 0)"

text \<open>An errno, 0 for success.\<close>

definition errno_of :: "'a res \<Rightarrow> int" where
  "errno_of r = (case r of Ok a \<Rightarrow> 0 | Err (Errno e) \<Rightarrow> e | _ \<Rightarrow> EIO)"

definition openErrno :: "kernel \<Rightarrow> string \<Rightarrow> int io" where
  "openErrno K path =
     State_Monad.bind (os_int K (OpenFile path O_RDONLY)) (\<lambda>r. case r of
         Ok fd \<Rightarrow> State_Monad.bind (os_ignore K (CloseFd fd)) (\<lambda>_. State_Monad.return 0)
       | _ \<Rightarrow> State_Monad.return (errno_of r))"

definition denied_exit :: "int \<Rightarrow> int res io" where
  "denied_exit errno = exit_verdict (errno = EPERM)"

definition fileMacProbePeer :: "kernel \<Rightarrow> getenv \<Rightarrow> int res io" where
  "fileMacProbePeer K env =
     or_exit (prctlSetTenant K tenantB) (
     State_Monad.bind (openErrno K (env fileMacPathEnv)) denied_exit)"

text \<open>The scenarios that the file and the connection probes share: \<open>access\<close> tries the labelled object,
  \<open>clear\<close> removes its label.\<close>

definition mac_access_scenarios :: "kernel \<Rightarrow> proc_attr \<Rightarrow> int io \<Rightarrow> (int \<Rightarrow> bool) \<Rightarrow> unit res io \<Rightarrow> int res io" where
  "mac_access_scenarios K peer access allowed clear =
     State_Monad.bind (run_child K peer) (\<lambda>cross.
     State_Monad.bind (prctlSetTenant K tenantA) (\<lambda>_.
     State_Monad.bind access (\<lambda>same.
     State_Monad.bind (prctlSetTenant K 0) (\<lambda>_.
     State_Monad.bind access (\<lambda>unconf.
     State_Monad.bind (prctlMacMode K macModePermissive) (\<lambda>_.
     State_Monad.bind (prctlSetTenant K tenantB) (\<lambda>_.
     State_Monad.bind access (\<lambda>perm.
     State_Monad.bind clear (\<lambda>_.
     State_Monad.bind (prctlMacMode K macModePermissive) (\<lambda>_.
     State_Monad.bind (prctlSetTenant K 0) (\<lambda>_.
     exit_verdict (fst cross = Some 0 \<and> allowed same \<and> allowed unconf \<and> allowed perm))))))))))))"

definition fileMacProbeMain :: "kernel \<Rightarrow> string list \<Rightarrow> int res io" where
  "fileMacProbeMain K environ =
     State_Monad.bind (self_exe K) (\<lambda>self.
     State_Monad.bind (os_int K (OpenFile secretPath create_flags)) (\<lambda>f. case f of
         Ok fd \<Rightarrow>
           State_Monad.bind (os_ignore K (WriteFd fd (''tenant-A secret'' @ nl))) (\<lambda>_.
           or_exit (prctlMacMode K macModeEnforcing) (
           or_exit (labelFd K fd tenantA) (
           mac_access_scenarios K
             (reexec self (environ @ [setting fileMacProbeEnv ''peer'', setting fileMacPathEnv secretPath]))
             (openErrno K secretPath) (\<lambda>e. e = 0) (labelFd K fd 0))))
       | _ \<Rightarrow> ok_io 2))"

definition runFileMacProbe :: "kernel \<Rightarrow> string list \<Rightarrow> bool io" where
  "runFileMacProbe K environ = run_self K (environ @ [setting fileMacProbeEnv ''main''])"


subsection \<open>Connections\<close>

definition testIPBE :: "32 word" where "testIPBE = 0x7f000001"
definition testPort :: nat where "testPort = 59999"

definition SOCK_STREAM :: nat where "SOCK_STREAM = 1"

definition test_addr :: bytes where
  "test_addr = [ucast (drop_bit 24 testIPBE AND 0xff), ucast (drop_bit 16 testIPBE AND 0xff), ucast (drop_bit 8 testIPBE AND 0xff),
     ucast (testIPBE AND 0xff)]"

definition connectErrno :: "kernel \<Rightarrow> int io" where
  "connectErrno K =
     State_Monad.bind (os_int K (Socket 2 SOCK_STREAM 0)) (\<lambda>s. case s of
         Ok fd \<Rightarrow>
           State_Monad.bind (os_unit K (Connect fd (Inet4 test_addr testPort))) (\<lambda>r.
           State_Monad.bind (os_ignore K (CloseFd fd)) (\<lambda>_. State_Monad.return (errno_of r)))
       | _ \<Rightarrow> State_Monad.return (errno_of s))"

definition socketMacProbePeer :: "kernel \<Rightarrow> int res io" where
  "socketMacProbePeer K =
     or_exit (prctlSetTenant K tenantB) (State_Monad.bind (connectErrno K) denied_exit)"

definition socketMacProbeMain :: "kernel \<Rightarrow> string list \<Rightarrow> int res io" where
  "socketMacProbeMain K environ =
     State_Monad.bind (self_exe K) (\<lambda>self.
     or_exit (prctlMacMode K macModeEnforcing) (
     or_exit (labelIP K (uint testIPBE) tenantA) (
     mac_access_scenarios K (reexec self (environ @ [setting socketMacProbeEnv ''peer'']))
       (connectErrno K) (\<lambda>e. e \<noteq> EPERM) (labelIP K (uint testIPBE) 0))))"

definition runSocketMacProbe :: "kernel \<Rightarrow> string list \<Rightarrow> bool io" where
  "runSocketMacProbe K environ = run_self K (environ @ [setting socketMacProbeEnv ''main''])"



section \<open>User namespaces\<close>

definition usernsParentEnv :: string where "usernsParentEnv = ''ASTERKUBE_USERNS_PARENT''"
definition unprivUID :: "32 word" where "unprivUID = 1000"

text \<open>The text of an error is not modelled; an error is told apart by its prefix.\<close>

definition read_link :: "kernel \<Rightarrow> string \<Rightarrow> string io" where
  "read_link K path = os_as (\<lambda>r. case r of RData s \<Rightarrow> s | _ \<Rightarrow> ''ERR:'') K (Readlink path)"

definition userNsLink :: "kernel \<Rightarrow> string io" where
  "userNsLink K = read_link K ''/proc/self/ns/user''"

definition readFileBestEffort :: "kernel \<Rightarrow> string \<Rightarrow> string io" where
  "readFileBestEffort K path = os_as (\<lambda>r. case r of RData s \<Rightarrow> s | _ \<Rightarrow> ''()'') K (ReadFile path)"

definition usernsProbeChild :: "kernel \<Rightarrow> getenv \<Rightarrow> int res io" where
  "usernsProbeChild K env =
     State_Monad.bind (userNsLink K) (\<lambda>child.
     State_Monad.bind (readFileBestEffort K ''/proc/self/uid_map'') (\<lambda>_.
     exit_verdict (child \<noteq> env usernsParentEnv \<and> \<not> hasPrefix child ''ERR:'')))"

definition runUsernsProbe :: "kernel \<Rightarrow> string list \<Rightarrow> bool io" where
  "runUsernsProbe K environ =
     State_Monad.bind (userNsLink K) (\<lambda>parent.
     State_Monad.bind (self_exe K) (\<lambda>self.
     State_Monad.bind (run_child K ((reexec self (environ @ [setting usernsProbeEnv ''child'', setting usernsParentEnv parent]))
         \<lparr>pa_flags := CLONE_NEWUSER\<rparr>)) (\<lambda>r.
     State_Monad.return (fst r = Some 0))))"

definition unshareErrno :: "kernel \<Rightarrow> mflags \<Rightarrow> int io" where
  "unshareErrno K flags = State_Monad.bind (os_unit K (Unshare flags)) (\<lambda>r. State_Monad.return (errno_of r))"

definition rootlessProbeUserns :: "kernel \<Rightarrow> int res io" where
  "rootlessProbeUserns K =
     State_Monad.bind (unshareErrno K CLONE_NEWNET) (\<lambda>netErr.
     State_Monad.bind (may_signal K 1) (\<lambda>hostErr.
     exit_verdict (netErr = 0 \<and> hostErr = Err (Errno EPERM))))"

definition rootlessProbeUnpriv :: "kernel \<Rightarrow> string list \<Rightarrow> int res io" where
  "rootlessProbeUnpriv K environ =
     State_Monad.bind (unshareErrno K CLONE_NEWNET) (\<lambda>baseErr.
     State_Monad.bind (self_exe K) (\<lambda>self.
     State_Monad.bind (run_child K ((reexec self (environ @ [setting rootlessProbeEnv ''userns'']))\<lparr>pa_flags := CLONE_NEWUSER\<rparr>)) (\<lambda>r.
     exit_verdict (baseErr = EPERM \<and> fst r = Some 0))))"

definition unprivileged :: "proc_attr \<Rightarrow> proc_attr" where
  "unprivileged a = a\<lparr>pa_cred := Some (unprivUID, unprivUID)\<rparr>"

definition run_unprivileged :: "kernel \<Rightarrow> string list \<Rightarrow> bool io" where
  "run_unprivileged K envs =
     State_Monad.bind (self_exe K) (\<lambda>self.
     State_Monad.bind (run_child K (unprivileged (reexec self envs))) (\<lambda>r. State_Monad.return (fst r = Some 0)))"

definition runRootlessProbe :: "kernel \<Rightarrow> string list \<Rightarrow> bool io" where
  "runRootlessProbe K environ = run_unprivileged K (environ @ [setting rootlessProbeEnv ''unpriv''])"

definition id_of :: "reply \<Rightarrow> int" where
  "id_of r = (case r of RInt n \<Rightarrow> n | _ \<Rightarrow> - 1)"

definition usermapProbeChild :: "kernel \<Rightarrow> int res io" where
  "usermapProbeChild K =
     State_Monad.bind (os_as id_of K Getuid) (\<lambda>uid.
     State_Monad.bind (os_as id_of K Getgid) (\<lambda>gid.
     State_Monad.bind (readFileBestEffort K ''/proc/self/uid_map'') (\<lambda>_.
     State_Monad.bind (readFileBestEffort K ''/proc/self/gid_map'') (\<lambda>_.
     exit_verdict (uid = 0 \<and> gid = 0)))))"

definition usermapProbeUnpriv :: "kernel \<Rightarrow> string list \<Rightarrow> int res io" where
  "usermapProbeUnpriv K environ =
     State_Monad.bind (self_exe K) (\<lambda>self.
     State_Monad.bind (os_as as_status K (RunMapped ((reexec self (environ @ [setting usermapProbeEnv ''child'']))\<lparr>pa_flags := CLONE_NEWUSER\<rparr>)
         [(0, uint unprivUID, 1)] [(0, uint unprivUID, 1)])) (\<lambda>r.
     exit_verdict (fst r = Some 0)))"

definition runUsermapProbe :: "kernel \<Rightarrow> string list \<Rightarrow> bool io" where
  "runUsermapProbe K environ = run_unprivileged K (environ @ [setting usermapProbeEnv ''unpriv''])"


section \<open>Volumes\<close>

definition suidMode :: nat where "suidMode = 2541"

definition copyExe :: "kernel \<Rightarrow> string \<Rightarrow> unit res io" where
  "copyExe K dst =
     State_Monad.bind (self_exe K) (\<lambda>src.
     try_io (os_int K (OpenFile src O_RDONLY)) (\<lambda>inp.
     defer_io (os_ignore K (CloseFd inp)) (
     try_io (os_int K (OpenFile dst (O_CREATE OR O_WRONLY OR 0x200))) (\<lambda>out.
     State_Monad.bind (try_io (os_data K (ReadFd inp)) (\<lambda>s. os_unit K (WriteFd out s))) (\<lambda>r.
     State_Monad.bind (os_ignore K (CloseFd out)) (\<lambda>_.
     if is_ok r then os_unit K (Chmod dst suidMode) else State_Monad.return r))))))"

text \<open>\<open>Sscanf(s, "euid=%d", &euid)\<close>.\<close>

definition scan_number :: "string \<Rightarrow> int option" where
  "scan_number s =
     (let t = trimLeftSpace s;
          sign = takeWhile (\<lambda>c. c \<in> {CHR ''+'', CHR ''-''}) (take 1 t);
          digits = takeWhile (\<lambda>c. c \<in> set ''0123456789'') (drop (length sign) t)
      in atoi (sign @ digits))"

definition scan_euid :: "string \<Rightarrow> int option" where
  "scan_euid s = (if hasPrefix s ''euid='' then scan_number (drop 5 s) else None)"

definition execAsUnprivReportEuid :: "kernel \<Rightarrow> string list \<Rightarrow> string \<Rightarrow> int io" where
  "execAsUnprivReportEuid K environ bin =
     State_Monad.bind (run_child K (unprivileged (command [bin] (environ @ [setting suidReportEnv ''1'']) []))) (\<lambda>r.
     State_Monad.return (
       if fst r \<noteq> Some 0 \<and> snd r = [] then - 2
       else case scan_euid (trimSpace (snd r)) of Some euid \<Rightarrow> euid | None \<Rightarrow> - 1))"

definition volume_dirs :: "string list" where
  "volume_dirs = [''/run/suidvol'', ''/run/nosuidvol'', ''/run/noexecvol'']"

text \<open>\<open>None\<close> where the set-up failed.\<close>

definition volume_bins :: "kernel \<Rightarrow> string list \<Rightarrow> bool option res io" where
  "volume_bins K environ =
     attempt (copyExe K ''/run/suidvol/bin'') None (\<lambda>_.
     attempt (copyExe K ''/run/nosuidvol/bin'') None (\<lambda>_.
     attempt (copyExe K ''/run/noexecvol/bin'') None (\<lambda>_.
     State_Monad.bind (execAsUnprivReportEuid K environ ''/run/suidvol/bin'') (\<lambda>ctrl.
     State_Monad.bind (execAsUnprivReportEuid K environ ''/run/nosuidvol/bin'') (\<lambda>nosuid.
     State_Monad.bind (execAsUnprivReportEuid K environ ''/run/noexecvol/bin'') (\<lambda>noexec.
     ok_io (Some (ctrl = 0 \<and> nosuid = uint unprivUID \<and> noexec = - 2))))))))"

definition runVolumeProbe :: "kernel \<Rightarrow> string list \<Rightarrow> bool option res io" where
  "runVolumeProbe K environ =
     State_Monad.bind (State_Monad.traverse_list (\<lambda>d. os_ignore K (MkdirAll d)) volume_dirs) (\<lambda>_.
     attempt (os_unit K (Mount ''tmpfs'' ''/run/suidvol'' ''tmpfs'' 0 [])) None (\<lambda>_.
     State_Monad.bind (os_unit K (Mount ''tmpfs'' ''/run/nosuidvol'' ''tmpfs'' msNosuid [])) (\<lambda>nosuidErr.
     State_Monad.bind (os_unit K (Mount ''tmpfs'' ''/run/noexecvol'' ''tmpfs'' msNoexec [])) (\<lambda>noexecErr.
     if \<not> is_ok nosuidErr \<or> \<not> is_ok noexecErr then ok_io None
     else volume_bins K environ))))"


section \<open>Sandboxes\<close>

definition sandboxPidEnv :: string where "sandboxPidEnv = ''ASTERKUBE_SANDBOX_PID''"

definition netnsLink :: "kernel \<Rightarrow> string io" where
  "netnsLink K = read_link K ''/proc/self/ns/net''"

definition print_link :: "kernel \<Rightarrow> unit io" where
  "print_link K = State_Monad.bind (netnsLink K) (\<lambda>l. os_ignore K (WriteFd 1 (l @ nl)))"

definition sandboxProbeHold :: "kernel \<Rightarrow> int res io" where
  "sandboxProbeHold K =
     State_Monad.bind (print_link K) (\<lambda>_.
     State_Monad.bind (os_ignore K (ReadFd 0)) (\<lambda>_. ok_io 0))"

definition sandboxProbeJoin :: "kernel \<Rightarrow> getenv \<Rightarrow> int res io" where
  "sandboxProbeJoin K env =
     State_Monad.bind (os_int K (OpenFile (''/proc/'' @ env sandboxPidEnv @ ''/ns/net'') (O_RDONLY OR O_CLOEXEC))) (\<lambda>r. case r of
         Ok fd \<Rightarrow>
           or_exit (os_unit K (Setns fd CLONE_NEWNET)) (
           State_Monad.bind (os_ignore K (CloseFd fd)) (\<lambda>_.
           State_Monad.bind (print_link K) (\<lambda>_. ok_io 0)))
       | _ \<Rightarrow> ok_io 2)"

definition joined_sandbox :: "kernel \<Rightarrow> string \<Rightarrow> string list \<Rightarrow> int \<Rightarrow> int option \<Rightarrow> bool res io" where
  "joined_sandbox K self environ sandboxPid stdout = (case stdout of
       None \<Rightarrow> State_Monad.return Panic
     | Some fd \<Rightarrow>
         State_Monad.bind (read_line K fd) (\<lambda>line.
         State_Monad.bind (netnsLink K) (\<lambda>hostNet.
         State_Monad.bind (run_child K (reexec self (environ @ [setting sandboxProbeEnv ''join'', setting sandboxPidEnv (itoa sandboxPid)]))) (\<lambda>r.
         let sandboxNet = trimSpace line; joinerNet = trimSpace (snd r) in
         ok_io (joinerNet = sandboxNet \<and> hasPrefix sandboxNet ''net:'' \<and> sandboxNet \<noteq> hostNet)))))"

text \<open>The deferred release of the sandbox: closing a pipe that could not be made panics.\<close>

definition runSandboxNetnsProbe :: "kernel \<Rightarrow> string list \<Rightarrow> bool res io" where
  "runSandboxNetnsProbe K environ =
     State_Monad.bind (self_exe K) (\<lambda>self.
     State_Monad.bind (start_piped K ((reexec self (environ @ [setting sandboxProbeEnv ''hold'']))\<lparr>pa_flags := CLONE_NEWNET\<rparr>)) (\<lambda>p. case p of
         Ok (pid, stdin, stdout) \<Rightarrow> (case stdin of
             None \<Rightarrow> State_Monad.bind (joined_sandbox K self environ pid stdout) (\<lambda>_. State_Monad.return Panic)
           | Some fd \<Rightarrow> defer_io (State_Monad.bind (os_ignore K (CloseFd fd)) (\<lambda>_. os_ignore K (WaitProc pid)))
               (joined_sandbox K self environ pid stdout))
       | _ \<Rightarrow> ok_io False))"



section \<open>The filter decides as documented\<close>

text \<open>What the kernel documents of the instructions that the filter uses: \<open>run p pc A load\<close> is the verdict of
  the program \<open>p\<close> from instruction \<open>pc\<close> with the accumulator \<open>A\<close>, where \<open>load\<close> reads a word of the data
  of the call.\<close>

definition cbpf_laws :: "(sockFilter list \<Rightarrow> nat \<Rightarrow> 32 word \<Rightarrow> (32 word \<Rightarrow> 32 word) \<Rightarrow> 32 word) \<Rightarrow> bool" where
  "cbpf_laws run \<longleftrightarrow> (\<forall>p pc A load. pc < length p \<longrightarrow>
     (sf_code (p ! pc) = 0x20 \<longrightarrow> run p pc A load = run p (pc + 1) (load (sf_k (p ! pc))) load)
   \<and> (sf_code (p ! pc) = 0x15 \<longrightarrow> run p pc A load =
        run p (pc + 1 + unat (if A = sf_k (p ! pc) then sf_jt (p ! pc) else sf_jf (p ! pc))) A load)
   \<and> (sf_code (p ! pc) = 0x06 \<longrightarrow> run p pc A load = sf_k (p ! pc)))"

lemma cbpf_step:
  assumes "cbpf_laws run" "pc < length p"
  shows "sf_code (p ! pc) = 0x20 \<Longrightarrow> run p pc A load = run p (pc + 1) (load (sf_k (p ! pc))) load"
    and "sf_code (p ! pc) = 0x15 \<Longrightarrow> run p pc A load =
        run p (pc + 1 + unat (if A = sf_k (p ! pc) then sf_jt (p ! pc) else sf_jf (p ! pc))) A load"
    and "sf_code (p ! pc) = 0x06 \<Longrightarrow> run p pc A load = sf_k (p ! pc)"
  using assms unfolding cbpf_laws_def by blast+

lemmas bpf_defs = bpfLd_def bpfW_def bpfAbs_def bpfJmp_def bpfJeq_def bpfRet_def bpfK_def

lemma bpf_codes: "bpfLd OR bpfW OR bpfAbs = 0x20" "bpfJmp OR bpfJeq OR bpfK = 0x15" "bpfRet OR bpfK = 0x06"
  by (simp_all add: bpf_defs)

lemma buildFilter_decides_at:
  assumes "cbpf_laws run"
  shows "run (buildFilter targetNr action) 0 A load =
    (if load offArch \<noteq> auditArchX8664 then retKillProcess else if load offNr = targetNr then action else retAllow)"
proof -
  let ?p = "buildFilter targetNr action"
  have len: "length ?p = 7" by (simp add: buildFilter_def)
  have nth: "?p ! 0 = \<lparr>sf_code = 0x20, sf_jt = 0, sf_jf = 0, sf_k = offArch\<rparr>"
      "?p ! Suc 0 = \<lparr>sf_code = 0x15, sf_jt = 1, sf_jf = 0, sf_k = auditArchX8664\<rparr>"
      "?p ! 2 = \<lparr>sf_code = 0x06, sf_jt = 0, sf_jf = 0, sf_k = retKillProcess\<rparr>"
      "?p ! 3 = \<lparr>sf_code = 0x20, sf_jt = 0, sf_jf = 0, sf_k = offNr\<rparr>"
      "?p ! 4 = \<lparr>sf_code = 0x15, sf_jt = 0, sf_jf = 1, sf_k = targetNr\<rparr>"
      "?p ! 5 = \<lparr>sf_code = 0x06, sf_jt = 0, sf_jf = 0, sf_k = action\<rparr>"
      "?p ! 6 = \<lparr>sf_code = 0x06, sf_jt = 0, sf_jf = 0, sf_k = retAllow\<rparr>"
    by (simp_all add: buildFilter_def bpf_codes)
  note step = cbpf_step [OF assms, of _ ?p, unfolded len]
  have "run ?p 0 A load = run ?p 1 (load offArch) load" using step(1) [of 0 A load] by (simp add: nth)
  also have "\<dots> = run ?p (if load offArch = auditArchX8664 then 3 else 2) (load offArch) load"
    using step(2) [of "Suc 0" "load offArch" load] by (simp add: nth numeral_2_eq_2 numeral_3_eq_3)
  also have "\<dots> = (if load offArch \<noteq> auditArchX8664 then retKillProcess else run ?p 4 (load offNr) load)"
    using step(3) [of 2 "load offArch" load] step(1) [of 3 "load offArch" load]
    by (cases "load offArch = auditArchX8664") (simp_all add: nth)
  also have "run ?p 4 (load offNr) load = run ?p (if load offNr = targetNr then 5 else 6) (load offNr) load"
    using step(2) [of 4 "load offNr" load] by (simp add: nth)
  also have "\<dots> = (if load offNr = targetNr then action else retAllow)"
    using step(3) [of 5 "load offNr" load] step(3) [of 6 "load offNr" load]
    by (cases "load offNr = targetNr") (simp_all add: nth)
  finally show ?thesis .
qed

text \<open>C8 (the seccomp filter): on every machine that runs classic BPF as documented, the filter kills a call
  of another architecture, gives the action for the chosen call and allows every other call.\<close>

theorem buildFilter_decides:
  assumes "cbpf_laws run"
  shows "run (buildFilter targetNr action) 0 A load =
    (if load offArch \<noteq> auditArchX8664 then retKillProcess else if load offNr = targetNr then action else retAllow)"
  using assms by (rule buildFilter_decides_at)

text \<open>An interpreter of these instructions; any other instruction ends the program with a kill.\<close>

function cbpf :: "sockFilter list \<Rightarrow> nat \<Rightarrow> 32 word \<Rightarrow> (32 word \<Rightarrow> 32 word) \<Rightarrow> 32 word" where
  "cbpf p pc A load =
     (if length p \<le> pc then retKillProcess
      else if sf_code (p ! pc) = 0x20 then cbpf p (pc + 1) (load (sf_k (p ! pc))) load
      else if sf_code (p ! pc) = 0x15 then
        cbpf p (pc + 1 + unat (if A = sf_k (p ! pc) then sf_jt (p ! pc) else sf_jf (p ! pc))) A load
      else if sf_code (p ! pc) = 0x06 then sf_k (p ! pc)
      else retKillProcess)"
  by pat_completeness auto
termination by (relation "measure (\<lambda>(p, pc, A, load). length p - pc)") auto

declare cbpf.simps [simp del]

lemma cbpf_laws_cbpf: "cbpf_laws cbpf"
  unfolding cbpf_laws_def
  by (intro allI impI conjI; subst cbpf.simps; simp)

theorem buildFilter_decides_witness:
  "cbpf (buildFilter 63 (retErrno OR eperm)) 0 0 (\<lambda>k. if k = offArch then auditArchX8664 else 63) = 0x00050001"
  using buildFilter_decides [OF cbpf_laws_cbpf, of 63 "retErrno OR eperm" 0 "\<lambda>k. if k = offArch then auditArchX8664 else 63"]
  by (simp add: offArch_def offNr_def retErrno_def eperm_def)

text \<open>A kernel that enforces installed filters on uname: an errno verdict is the call's error.\<close>

definition uname_data :: "32 word \<Rightarrow> 32 word" where
  "uname_data k = (if k = offArch then auditArchX8664 else if k = offNr then SYS_UNAME else 0)"

definition installed_filters :: "hist \<Rightarrow> sockFilter list list" where
  "installed_filters h = List.map_filter (\<lambda>e. case fst e of
     Seccomp op fl n p \<Rightarrow> if as_unit (snd e) = Ok () then Some p else None | _ \<Rightarrow> None) h"

lemma installed_filters_simps [simp]:
  "installed_filters [] = []" "installed_filters (h @ h') = installed_filters h @ installed_filters h'"
  "installed_filters ((Seccomp op fl n p, r) # h) = (if as_unit r = Ok () then p # installed_filters h else installed_filters h)"
  "installed_filters ((Prctl a b c d e, r) # h) = installed_filters h" "installed_filters ((Getpid, r) # h) = installed_filters h"
  by (simp_all add: installed_filters_def List.map_filter_def)

definition filters_enforced :: "kernel \<Rightarrow> (sockFilter list \<Rightarrow> nat \<Rightarrow> 32 word \<Rightarrow> (32 word \<Rightarrow> 32 word) \<Rightarrow> 32 word) \<Rightarrow> bool" where
  "filters_enforced K run \<longleftrightarrow> (\<forall>h p. installed_filters h = [p] \<longrightarrow>
     run p 0 0 uname_data AND 0xffff0000 = retErrno \<longrightarrow> K h Uname = RErr (uint (run p 0 0 uname_data AND 0xffff)))"

lemma probe_verdict:
  assumes "cbpf_laws run" "mode \<noteq> ''kill''"
  shows "run (buildFilter SYS_UNAME (probe_action mode)) 0 0 uname_data = 0x00050001"
  using assms buildFilter_decides_at [OF assms(1), of SYS_UNAME "probe_action mode" 0 uname_data]
  by (simp add: uname_data_def probe_action_def offArch_def offNr_def retErrno_def eperm_def)

lemma installed:
  assumes "result (installFilter K p) h = Ok ()"
  shows "installed_filters (after (installFilter K p) h) = installed_filters h @ [p]"
  using assms by (auto simp: installFilter_def is_ok_unit split: if_splits)


text \<open>A kernel that enforces the last installed filter with the interpreter.\<close>

definition filtering :: kernel where
  "filtering h c = (case c of Getpid \<Rightarrow> RInt 7
     | Uname \<Rightarrow> (case installed_filters h of [p] \<Rightarrow> RErr (uint (cbpf p 0 0 uname_data AND 0xffff)) | _ \<Rightarrow> RUnit) | _ \<Rightarrow> RUnit)"




section \<open>The mode of the access control\<close>

text \<open>The modes that a program sets, in order.\<close>

definition mode_of :: "call \<Rightarrow> int option" where
  "mode_of c = (case c of Prctl op m a b d \<Rightarrow> if op = prAsterkubeMacMode then Some m else None | _ \<Rightarrow> None)"

definition modes :: "hist \<Rightarrow> int list" where
  "modes h = List.map_filter (\<lambda>e. mode_of (fst e)) h"

lemma modes_append [simp]: "modes (h @ h') = modes h @ modes h'" "modes [] = []"
  by (simp_all add: modes_def List.map_filter_def)

lemma modes_none: "mode_of c = None \<Longrightarrow> modes [(c, r)] = []"
  by (simp add: modes_def List.map_filter_def)

lemma modes_some: "mode_of c = Some m \<Longrightarrow> modes [(c, r)] = [m]"
  by (simp add: modes_def List.map_filter_def)

definition same_modes :: "hist \<Rightarrow> hist \<Rightarrow> bool" where
  "same_modes h h' \<longleftrightarrow> modes h' = modes h"

lemma preorder_same_modes: "preorder_on_hist same_modes"
  by (auto simp: preorder_on_hist_def same_modes_def intro!: reflpI transpI)

named_theorems mode_intros \<open>operations that do not set the mode\<close>

lemmas mode_structure [mode_intros] = keeps_structure [OF preorder_same_modes] keeps_if [of _ same_modes]
  keeps_res [of same_modes] keeps_option [of same_modes]

lemma mode_os [mode_intros]:
  "mode_of c = None \<Longrightarrow> keeps same_modes (os_as f K c)" "mode_of c = None \<Longrightarrow> keeps same_modes (os_ignore K c)"
  by (intro keeps_os; simp add: same_modes_def modes_none)+

lemma mode_parts [mode_intros]:
  "keeps same_modes (self_exe K)" "keeps same_modes (run_child K a)" "keeps same_modes (prctlSetTenant K n)" "keeps same_modes (may_signal K pid)"
  "keeps same_modes (labelFd K fd n)" "keeps same_modes (labelIP K ip n)" "keeps same_modes (openErrno K path)"
  "keeps same_modes (connectErrno K)" "keeps same_modes (read_line K fd)"
  unfolding self_exe_def run_child_def prctlSetTenant_def may_signal_def labelFd_def labelIP_def openErrno_def connectErrno_def read_line_def
  by (intro mode_intros;
      simp add: mode_of_def prAsterkubeSetTenant_def prAsterkubeLabelFd_def prAsterkubeLabelIp_def prAsterkubeMacMode_def)+

lemma mode_start [mode_intros]: "keeps same_modes (start_piped K a)"
  unfolding start_piped_def close_all_def Let_def by (intro mode_intros; simp add: mode_of_def)

text \<open>How the modes grow along the programs: \<open>set_modes h m ms\<close> says that \<open>m\<close>, after \<open>h\<close>, sets the modes
  \<open>ms\<close> unless it exits early with status 2.\<close>

definition sets_modes :: "int res io \<Rightarrow> int list \<Rightarrow> bool" where
  "sets_modes m ms \<longleftrightarrow> (\<forall>h. result m h \<noteq> Panic \<longrightarrow> result m h \<noteq> Ok 2 \<longrightarrow> modes (after m h) = modes h @ ms)"

lemma sets_bind: "keeps same_modes m \<Longrightarrow> (\<And>a. sets_modes (f a) ms) \<Longrightarrow> sets_modes (State_Monad.bind m f) ms"
  unfolding sets_modes_def result_bind by (metis keepsD(1) same_modes_def)

lemma sets_or_exit: "keeps same_modes m \<Longrightarrow> sets_modes f ms \<Longrightarrow> sets_modes (or_exit m f) ms"
  unfolding or_exit_def by (rule sets_bind) (auto simp: sets_modes_def)

lemma sets_mode: "sets_modes f ms \<Longrightarrow> sets_modes (State_Monad.bind (prctlMacMode K m) (\<lambda>_. f)) (m # ms)"
  unfolding sets_modes_def result_bind by (simp add: prctlMacMode_def modes_some mode_of_def)

lemma sets_mode_exit: "sets_modes f ms \<Longrightarrow> sets_modes (or_exit (prctlMacMode K m) f) (m # ms)"
  unfolding sets_modes_def or_exit_def result_bind by (simp add: prctlMacMode_def modes_some mode_of_def)

lemma sets_verdict: "sets_modes (exit_verdict b) []" "sets_modes (ok_io 2) ms"
  by (simp_all add: sets_modes_def exit_verdict_def)

lemma sets_panic: "sets_modes (State_Monad.return Panic) ms"
  by (simp add: sets_modes_def)

lemma sets_if: "(b \<Longrightarrow> sets_modes m ms) \<Longrightarrow> (\<not> b \<Longrightarrow> sets_modes n ms) \<Longrightarrow> sets_modes (if b then m else n) ms"
  by simp

lemmas sets_rules = sets_mode_exit sets_mode sets_verdict sets_or_exit sets_bind sets_panic sets_if

lemma sets_access:
  assumes "keeps same_modes access" "keeps same_modes clear"
  shows "sets_modes (mac_access_scenarios K peer access allowed clear) [macModePermissive, macModePermissive]"
  unfolding mac_access_scenarios_def
  by (rule sets_mode sets_verdict | rule sets_bind, (rule assms | intro mode_intros))+

text \<open>C18 (the mode is restored): each of the three programs that test the access control switches it to
  enforcing and, unless it exits early because a step failed, has set it to permissive as the last mode
  it set when it exits.\<close>

theorem mac_probes_restore:
  "(result (macProbeMain K environ) h \<in> {Ok 0, Ok 3} \<longrightarrow>
      modes (after (macProbeMain K environ) h) = modes h @ [macModeEnforcing, macModePermissive])
   \<and> (result (fileMacProbeMain K environ) h \<in> {Ok 0, Ok 3} \<longrightarrow>
      modes (after (fileMacProbeMain K environ) h) = modes h @ [macModeEnforcing, macModePermissive, macModePermissive])
   \<and> (result (socketMacProbeMain K environ) h \<in> {Ok 0, Ok 3} \<longrightarrow>
      modes (after (socketMacProbeMain K environ) h) = modes h @ [macModeEnforcing, macModePermissive, macModePermissive])"
proof -
  have "sets_modes (mac_scenarios K pid) [macModeEnforcing, macModePermissive]" for pid
    unfolding mac_scenarios_def
    by (rule sets_mode_exit sets_verdict | rule sets_or_exit, intro mode_intros | rule sets_bind, intro mode_intros)+
  then have "sets_modes (macProbeMain K environ) [macModeEnforcing, macModePermissive]"
    unfolding macProbeMain_def
    by (intro sets_bind mode_intros) (auto intro!: sets_bind sets_verdict sets_panic mode_intros split: res.splits option.splits)
  moreover have "sets_modes (fileMacProbeMain K environ) [macModeEnforcing, macModePermissive, macModePermissive]"
    unfolding fileMacProbeMain_def
    by (intro sets_bind mode_intros)
       (auto intro!: sets_bind sets_mode_exit sets_or_exit sets_access sets_verdict mode_intros simp: mode_of_def split: res.splits)
  moreover have "sets_modes (socketMacProbeMain K environ) [macModeEnforcing, macModePermissive, macModePermissive]"
    unfolding socketMacProbeMain_def
    by (rule sets_bind, intro mode_intros, rule sets_mode_exit, rule sets_or_exit, intro mode_intros, rule sets_access) (intro mode_intros)+
  ultimately show ?thesis by (auto simp: sets_modes_def)
qed

text \<open>A kernel without any access control, and one that refuses to label processes.\<close>

definition lax :: kernel where
  "lax h c = (case c of MakePipe \<Rightarrow> RInts 3 4 | StartProcess a \<Rightarrow> RInt 9 | ReadFd fd \<Rightarrow> RData (''peer-ready'' @ nl)
     | OpenFile p f \<Rightarrow> RInt 5 | Socket a b d \<Rightarrow> RInt 6 | _ \<Rightarrow> RUnit)"

definition no_labels :: kernel where
  "no_labels h c = (case c of Prctl op m a b d \<Rightarrow> if op = prAsterkubeMacMode then RUnit else RErr EINVAL | _ \<Rightarrow> lax h c)"

theorem mac_probes_restore_witness:
  "modes (after (macProbeMain lax []) []) = [macModeEnforcing, macModePermissive]"
proof -
  have "result (macProbeMain lax []) [] = Ok 3" by code_simp
  then show ?thesis using mac_probes_restore [of lax "[]" "[]"] by simp
qed

text \<open>A program that exits early leaves the mode enforcing, and the parent does not reset it.\<close>

lemma early_exit_stays_enforcing:
  "run_state (macProbeMain no_labels []) [] = (Ok 2, after (macProbeMain no_labels []) []) \<and>
   modes (after (macProbeMain no_labels []) []) = [macModeEnforcing]"
  "result (fileMacProbeMain no_labels []) [] = Ok 2 \<and> modes (after (fileMacProbeMain no_labels []) []) = [macModeEnforcing]"
  by code_simp+

text \<open>The deferred removal of the secret file never runs, since every path ends with \<open>os.Exit\<close>.\<close>

lemma secret_stays: "only (\<lambda>c. c \<noteq> Remove secretPath) (fileMacProbeMain K environ)"
  unfolding fileMacProbeMain_def self_exe_def or_exit_def prctlMacMode_def prctlSetTenant_def labelFd_def mac_access_scenarios_def run_child_def
    openErrno_def exit_verdict_def
  by (auto intro!: only_intros split: res.splits)

text \<open>The volumes, one with a copy of the program that gains root when executed, stay mounted.\<close>

lemma volumes_stay: "only (\<lambda>c. \<forall>p fl. c \<noteq> Unmount p fl) (runVolumeProbe K environ)"
  unfolding runVolumeProbe_def volume_bins_def copyExe_def self_exe_def attempt_def execAsUnprivReportEuid_def run_child_def
  by (auto intro!: only_intros split: res.splits)

end
