(* ===== verification/OciExec.thy ===== *)
theory OciExec
  imports OciRuntime
begin

text \<open>
  \<open>runc exec\<close> (\<open>runc_exec_linux.go\<close>) and the entry point of the runtime, \<open>runOCIRuntime\<close>, with its
  global flags and the dispatch to the commands. A command that ends the process with
  \<open>os.Exit(n)\<close> has the outcome \<open>Some n\<close>.
\<close>

section \<open>The command line of exec\<close>

record exec_args =
  x_processPath :: string
  x_consoleSocket :: string
  x_pidFile :: string
  x_id :: string
  x_detach :: bool
  x_tty :: bool

definition exec_arg :: "string \<Rightarrow> string list \<Rightarrow> exec_args \<Rightarrow> exec_args arg_step" where
  "exec_arg a rest x =
     (if a = ''--process'' \<or> a = ''-p'' then take_value (\<lambda>x v. x\<lparr>x_processPath := v\<rparr>) x rest
      else if hasPrefix a ''--process='' then Continue (x\<lparr>x_processPath := trimPrefix a ''--process=''\<rparr>) rest
      else if a = ''--console-socket'' then take_value (\<lambda>x v. x\<lparr>x_consoleSocket := v\<rparr>) x rest
      else if hasPrefix a ''--console-socket='' then
        Continue (x\<lparr>x_consoleSocket := trimPrefix a ''--console-socket=''\<rparr>) rest
      else if a = ''--pid-file'' then take_value (\<lambda>x v. x\<lparr>x_pidFile := v\<rparr>) x rest
      else if hasPrefix a ''--pid-file='' then Continue (x\<lparr>x_pidFile := trimPrefix a ''--pid-file=''\<rparr>) rest
      else if a = ''-d'' \<or> a = ''--detach'' then Continue (x\<lparr>x_detach := True\<rparr>) rest
      else if a = ''-t'' \<or> a = ''--tty'' then Continue (x\<lparr>x_tty := True\<rparr>) rest
      else if hasPrefix a ''-'' then
        Continue x (if \<not> contains a ''='' \<and> rest \<noteq> [] \<and> \<not> hasPrefix (hd rest) ''-'' then tl rest else rest)
      else Continue (x\<lparr>x_id := a\<rparr>) rest)"

definition exec_args0 :: exec_args where
  "exec_args0 = \<lparr>x_processPath = [], x_consoleSocket = [], x_pidFile = [], x_id = [], x_detach = False, x_tty = False\<rparr>"

definition exec_args_of :: "string list \<Rightarrow> exec_args res" where
  "exec_args_of args = arg_loop (length args) exec_arg args exec_args0"


section \<open>Finding the command\<close>

definition not_a_dir :: "reply \<Rightarrow> bool" where
  "not_a_dir r = (case r of RStat d m \<Rightarrow> \<not> d | _ \<Rightarrow> False)"

fun find_in_path :: "kernel \<Rightarrow> string \<Rightarrow> string \<Rightarrow> string list \<Rightarrow> string res io" where
  "find_in_path K rootfs cmd [] = err_io (Text (cmd @ '' not found in container PATH''))"
| "find_in_path K rootfs cmd (dir # dirs) =
     (if dir = [] then find_in_path K rootfs cmd dirs
      else let cand = trimRight (CHR ''/'') dir @ ''/'' @ cmd in
        State_Monad.bind (os_as not_a_dir K (Stat (rootfs @ cand))) (\<lambda>ok.
        if ok then ok_io cand else find_in_path K rootfs cmd dirs))"

text \<open>The first \<open>PATH=\<close> of the environment wins.\<close>

definition first_path :: "string list \<Rightarrow> string" where
  "first_path env = (case find (\<lambda>e. hasPrefix e ''PATH='') env of
       Some e \<Rightarrow> trimPrefix e ''PATH='' | None \<Rightarrow> default_path)"

definition resolveInRootfs :: "kernel \<Rightarrow> string \<Rightarrow> string \<Rightarrow> string list \<Rightarrow> string res io" where
  "resolveInRootfs K rootfs cmd env =
     (if contains cmd ''/'' then
        (let abs_cmd = (if hasPrefix cmd ''/'' then cmd else ''/'' @ cmd) in
         State_Monad.bind (os_stat K (Stat (rootfs @ abs_cmd))) (\<lambda>r.
         if is_ok r then ok_io abs_cmd else err_io (Text (cmd @ '' not found in container''))))
      else find_in_path K rootfs cmd (split_on (CHR '':'') (first_path env)))"


section \<open>Terminals\<close>

definition ioctlTIOCSPTLCK :: int where "ioctlTIOCSPTLCK = 0x40045431"
definition ioctlTIOCGPTN :: int where "ioctlTIOCGPTN = 0x80045430"

definition openPTY :: "kernel \<Rightarrow> (int \<times> string) res io" where
  "openPTY K =
     try_io (os_int K (OpenFile ''/dev/ptmx'' (O_RDWR OR O_NOCTTY))) (\<lambda>m.
     State_Monad.bind (os_unit K (Ioctl m ioctlTIOCSPTLCK)) (\<lambda>r. case r of
         Err e \<Rightarrow> State_Monad.bind (os_ignore K (CloseFd m)) (\<lambda>_. err_io (Wrap ''unlockpt'' e))
       | _ \<Rightarrow> State_Monad.bind (os_int K (Ioctl m ioctlTIOCGPTN)) (\<lambda>r. case r of
           Ok n \<Rightarrow> ok_io (m, ''/dev/pts/'' @ itoa n)
         | Err e \<Rightarrow> State_Monad.bind (os_ignore K (CloseFd m)) (\<lambda>_. err_io (Wrap ''ptsname'' e))
         | Panic \<Rightarrow> State_Monad.return Panic
         | Hang \<Rightarrow> State_Monad.return Hang)))"

text \<open>The pair of master and slave, when the process has a terminal on a console socket.\<close>

definition open_terminal :: "kernel \<Rightarrow> bool \<Rightarrow> (int \<times> int) option res io" where
  "open_terminal K want =
     (if \<not> want then ok_io None
      else try_io (wrap_io ''exec: openpty'' (openPTY K)) (\<lambda>(m, slavePath).
        State_Monad.bind (os_int K (OpenFile slavePath O_RDWR)) (\<lambda>r. case r of
            Ok s \<Rightarrow> ok_io (Some (m, s))
          | Err e \<Rightarrow> State_Monad.bind (os_ignore K (CloseFd m)) (\<lambda>_. err_io (Wrap (''exec: open '' @ slavePath) e))
          | Panic \<Rightarrow> State_Monad.return Panic
          | Hang \<Rightarrow> State_Monad.return Hang)))"


section \<open>Exec\<close>

definition exec_namespaces :: "(string \<times> mflags) list" where
  "exec_namespaces = [(''net'', CLONE_NEWNET), (''ipc'', CLONE_NEWIPC), (''uts'', CLONE_NEWUTS), (''cgroup'', CLONE_NEWCGROUP)]"

definition exec_join_one :: "kernel \<Rightarrow> int \<Rightarrow> string \<times> mflags \<Rightarrow> unit io" where
  "exec_join_one K pid nf =
     State_Monad.bind (os_int K (OpenFile (''/proc/'' @ itoa pid @ ''/ns/'' @ fst nf) (O_RDONLY OR O_CLOEXEC))) (\<lambda>r. case r of
         Ok fd \<Rightarrow>
           State_Monad.bind (os_ignore K (Setns fd (snd nf))) (\<lambda>_.
           os_ignore K (CloseFd fd))
       | _ \<Rightarrow> State_Monad.return ())"

fun mirror_resolv :: "kernel \<Rightarrow> string \<Rightarrow> string list \<Rightarrow> unit io" where
  "mirror_resolv K target [] = State_Monad.return ()"
| "mirror_resolv K target (src # srcs) =
     State_Monad.bind (os_data K (ReadFile src)) (\<lambda>r. case r of
         Ok data \<Rightarrow>
           (if data = [] then mirror_resolv K target srcs
            else State_Monad.bind (os_stat K (Lstat target)) (\<lambda>st.
                 State_Monad.bind (case st of
                     Ok (isdir, m) \<Rightarrow> if isdir then os_ignore K (Remove target) else State_Monad.return ()
                   | _ \<Rightarrow> State_Monad.return ()) (\<lambda>_.
                 os_ignore K (WriteFile target data 420))))
       | _ \<Rightarrow> mirror_resolv K target srcs)"

definition exec_env :: "string list \<Rightarrow> string list" where
  "exec_env env = (if \<exists>e \<in> set env. hasPrefix e ''PATH='' then env else env @ [''PATH='' @ default_path])"

definition exec_attr :: "containerState \<Rightarrow> execProcess \<Rightarrow> string \<Rightarrow> (int \<times> int) option \<Rightarrow> proc_attr" where
  "exec_attr st p argv0 pty =
     \<lparr>pa_path = argv0, pa_argv = ep_Args p, pa_env = exec_env (ep_Env p), pa_dir = ep_Cwd p, pa_flags = 0,
      pa_chroot = cs_Rootfs st,
      pa_cred = (if ep_UID p \<noteq> 0 \<or> ep_GID p \<noteq> 0 then Some (word_of_int (ep_UID p), word_of_int (ep_GID p)) else None),
      pa_files = (case pty of Some (m, s) \<Rightarrow> [s, s, s] | None \<Rightarrow> [0, 1, 2]),
      pa_tty = (pty \<noteq> None)\<rparr>"

text \<open>\<open>state, _ := proc.Wait()\<close>: after a failed wait, \<open>state\<close> is nil and its use panics.\<close>

definition exec_wait :: "kernel \<Rightarrow> int \<Rightarrow> int option res io" where
  "exec_wait K pid = os_as (\<lambda>r. case r of
       RInt n \<Rightarrow> Ok (if n \<noteq> 0 then Some n else None)
     | _ \<Rightarrow> Panic) K (WaitProc pid)"

text \<open>The descriptor travels as ancillary data of one byte on the console socket; a connection that was
  dialled as a unix socket always is one.\<close>

definition sendTerminalFD :: "kernel \<Rightarrow> string \<Rightarrow> int \<Rightarrow> unit res io" where
  "sendTerminalFD K socketPath fd =
     try_io (os_int K (DialUnix socketPath)) (\<lambda>c.
     defer_io (os_ignore K (CloseFd c)) (os_unit K (SendRights c fd)))"

definition exec_finish :: "kernel \<Rightarrow> exec_args \<Rightarrow> (int \<times> int) option \<Rightarrow> int \<Rightarrow> int option res io" where
  "exec_finish K x pty pid = (case pty of
       Some (m, s) \<Rightarrow>
         State_Monad.bind (os_ignore K (CloseFd s)) (\<lambda>_.
         State_Monad.bind (sendTerminalFD K (x_consoleSocket x) m) (\<lambda>r.
         State_Monad.bind (os_ignore K (CloseFd m)) (\<lambda>_. case r of
             Err e \<Rightarrow> err_io (Wrap ''exec: send console fd'' e)
           | _ \<Rightarrow> ok_io None)))
     | None \<Rightarrow> if x_detach x then ok_io None else exec_wait K pid)"

definition exec_start :: "kernel \<Rightarrow> exec_args \<Rightarrow> containerState \<Rightarrow> execProcess \<Rightarrow> string \<Rightarrow> (int \<times> int) option \<Rightarrow> int option res io" where
  "exec_start K x st p argv0 pty =
     State_Monad.bind (os_int K (StartProcess (exec_attr st p argv0 pty))) (\<lambda>r. case r of
         Ok pid \<Rightarrow>
           State_Monad.bind (if x_pidFile x \<noteq> [] then os_ignore K (WriteFile (x_pidFile x) (itoa pid) 420)
                             else State_Monad.return ()) (\<lambda>_.
           exec_finish K x pty pid)
       | Err e \<Rightarrow>
           State_Monad.bind (case pty of
               Some (m, s) \<Rightarrow> State_Monad.bind (os_ignore K (CloseFd m)) (\<lambda>_. os_ignore K (CloseFd s))
             | None \<Rightarrow> State_Monad.return ()) (\<lambda>_.
           err_io (Wrap ''exec: start'' e))
       | Panic \<Rightarrow> State_Monad.return Panic
       | Hang \<Rightarrow> State_Monad.return Hang)"

definition exec_process :: "kernel \<Rightarrow> exec_args \<Rightarrow> execProcess res io" where
  "exec_process K x =
     try_io (if x_processPath x = [] then ok_io exec0
             else try_io (wrap_io ''exec: read process spec'' (os_data K (ReadFile (x_processPath x)))) (\<lambda>data.
               State_Monad.return (wrap_err ''exec: parse process spec'' (json_unmarshal dec_exec data exec0)))) (\<lambda>p.
     if ep_Args p = [] then err_io (Text ''exec: no command in process spec'')
     else ok_io (p\<lparr>ep_Cwd := orDefault (ep_Cwd p) ''/'', ep_Terminal := ep_Terminal p \<or> x_tty x\<rparr>))"

definition resolv_sources :: "int \<Rightarrow> string list" where
  "resolv_sources pid = [''/proc/'' @ itoa pid @ ''/root/etc/resolv.conf'', ''/etc/resolv.conf'']"

definition exec_in :: "kernel \<Rightarrow> exec_args \<Rightarrow> containerState \<Rightarrow> int option res io" where
  "exec_in K x st =
     try_io (exec_process K x) (\<lambda>p.
     try_io (wrap_io ''exec'' (resolveInRootfs K (cs_Rootfs st) (hd (ep_Args p)) (ep_Env p))) (\<lambda>argv0.
     State_Monad.bind (State_Monad.traverse_list (exec_join_one K (cs_InitPid st)) exec_namespaces) (\<lambda>_.
     State_Monad.bind (mirror_resolv K (cs_Rootfs st @ ''/etc/resolv.conf'') (resolv_sources (cs_InitPid st))) (\<lambda>_.
     try_io (open_terminal K (ep_Terminal p \<and> x_consoleSocket x \<noteq> [])) (\<lambda>pty.
     exec_start K x st p argv0 pty)))))"

definition cmdExec :: "kernel \<Rightarrow> runtimeGlobals \<Rightarrow> string list \<Rightarrow> int option res io" where
  "cmdExec K g args =
     try_io (State_Monad.return (exec_args_of args)) (\<lambda>x.
     if x_id x = [] then err_io (Text ''exec: no container id'')
     else try_io (wrap_io (''exec: read state '' @ x_id x) (readState K g (x_id x))) (\<lambda>st.
     State_Monad.bind (if cs_InitPid st \<le> 0 then State_Monad.return False else pidAlive K (cs_InitPid st)) (\<lambda>alive.
     if \<not> alive then err_io (Text (''exec: container '' @ x_id x @ '' is not running''))
     else exec_in K x st)))"


section \<open>Global flags and dispatch\<close>

datatype global_step = GNext runtimeGlobals "string list" | GVersion | GHelp | GDispatch | GOverrun

definition isGlobalValueFlag :: "string \<Rightarrow> bool" where
  "isGlobalValueFlag a \<longleftrightarrow> a = ''--log'' \<or> a = ''--root'' \<or> a = ''--log-format''"

definition global_arg :: "string \<Rightarrow> string list \<Rightarrow> runtimeGlobals \<Rightarrow> global_step" where
  "global_arg a rest g =
     (if a = ''--root'' then (case rest of [] \<Rightarrow> GOverrun | v # r \<Rightarrow> GNext (g\<lparr>g_root := v\<rparr>) r)
      else if hasPrefix a ''--root='' then GNext (g\<lparr>g_root := trimPrefix a ''--root=''\<rparr>) rest
      else if a = ''--log'' then (case rest of [] \<Rightarrow> GOverrun | v # r \<Rightarrow> GNext (g\<lparr>g_log := v\<rparr>) r)
      else if hasPrefix a ''--log='' then GNext (g\<lparr>g_log := trimPrefix a ''--log=''\<rparr>) rest
      else if a = ''--log-format'' then GNext g (tl rest)
      else if hasPrefix a ''--log-format='' then GNext g rest
      else if a = ''--version'' \<or> a = ''-v'' \<or> a = ''version'' then GVersion
      else if a = ''--help'' \<or> a = ''-h'' then GHelp
      else if a = ''--systemd-cgroup'' \<or> a = ''--debug'' \<or> a = ''--rootless'' then GNext g rest
      else if hasPrefix a ''--'' then
        GNext g (if \<not> contains a ''='' \<and> rest \<noteq> [] \<and> \<not> hasPrefix (hd rest) ''-'' \<and> isGlobalValueFlag a
                 then tl rest else rest)
      else GDispatch)"

datatype globals_result = Run runtimeGlobals "string list" | Version | Help | ArgPanic

text \<open>The flag loop; \<open>Run g (cmd # rest)\<close> is the jump to the dispatch, \<open>Run g []\<close> the end of the line.\<close>

lemma global_arg_shorter: "global_arg a rest g = GNext g' rest' \<Longrightarrow> length rest' \<le> length rest"
  unfolding global_arg_def by (auto split: if_splits list.splits)

function parse_globals :: "string list \<Rightarrow> runtimeGlobals \<Rightarrow> globals_result" where
  "parse_globals [] g = Run g []"
| "parse_globals (a # rest) g = (case global_arg a rest g of
       GNext g' rest' \<Rightarrow> parse_globals rest' g'
     | GVersion \<Rightarrow> Version
     | GHelp \<Rightarrow> Help
     | GDispatch \<Rightarrow> Run g (a # rest)
     | GOverrun \<Rightarrow> ArgPanic)"
  by pat_completeness auto
termination
  by (relation "measure (\<lambda>(args, g). length args)") (auto dest: global_arg_shorter)

definition println :: "kernel \<Rightarrow> string \<Rightarrow> unit io" where
  "println K s = os_ignore K (WriteFd 1 (s @ [CHR 0x0A]))"

definition printRuncVersion :: "kernel \<Rightarrow> unit io" where
  "printRuncVersion K =
     State_Monad.bind (println K ''runc version 1.4.3-asterkube (pure-Go, CGO-free)'') (\<lambda>_.
     State_Monad.bind (println K ''spec: 1.2.0'') (\<lambda>_.
     State_Monad.bind (println K ''go: pure-go'') (\<lambda>_.
     println K ''libseccomp: none'')))"

definition runcLog :: "rt_env \<Rightarrow> kernel \<Rightarrow> runtimeGlobals \<Rightarrow> string \<Rightarrow> unit io" where
  "runcLog E K g msg =
     (if g_log g = [] then State_Monad.return ()
      else State_Monad.bind (os_int K (OpenFile (g_log g) (O_CREATE OR O_WRONLY OR O_APPEND))) (\<lambda>r. case r of
          Ok f \<Rightarrow>
            State_Monad.bind (os_now K) (\<lambda>now.
            State_Monad.bind (os_ignore K (WriteFd f
              (json_print (JObj [(''level'', JStr ''error''), (''msg'', JStr msg), (''time'', JStr (e_time E now))]) @ [CHR 0x0A]))) (\<lambda>_.
            os_ignore K (CloseFd f)))
        | _ \<Rightarrow> State_Monad.return ()))"

text \<open>\<open>runc ps\<close>: the pid of the container init, when the container is known.\<close>

definition cmdPs :: "kernel \<Rightarrow> runtimeGlobals \<Rightarrow> string list \<Rightarrow> unit io" where
  "cmdPs K g args =
     State_Monad.bind (readState K g (lastArg args)) (\<lambda>r. case r of
         Ok st \<Rightarrow>
           (if containsArg args ''--format'' \<and> containsArg args ''json''
            then println K (''['' @ itoa (cs_InitPid st) @ '']'')
            else println K (''PID'' @ [CHR 0x0A] @ itoa (cs_InitPid st)))
       | _ \<Rightarrow> State_Monad.return ())"

definition finish :: "rt_env \<Rightarrow> kernel \<Rightarrow> runtimeGlobals \<Rightarrow> string \<Rightarrow> unit res io \<Rightarrow> int res io" where
  "finish E K g cmd m = State_Monad.bind m (\<lambda>r. case r of
       Ok _ \<Rightarrow> ok_io 0
     | Err e \<Rightarrow> State_Monad.bind (runcLog E K g (cmd @ '': '' @ e_text E e)) (\<lambda>_. ok_io 1)
     | Panic \<Rightarrow> State_Monad.return Panic
     | Hang \<Rightarrow> State_Monad.return Hang)"

definition finish_exec :: "rt_env \<Rightarrow> kernel \<Rightarrow> runtimeGlobals \<Rightarrow> string list \<Rightarrow> int res io" where
  "finish_exec E K g args = State_Monad.bind (cmdExec K g args) (\<lambda>r. case r of
       Ok (Some code) \<Rightarrow> ok_io code
     | Ok None \<Rightarrow> ok_io 0
     | Err e \<Rightarrow> State_Monad.bind (runcLog E K g (''exec: '' @ e_text E e)) (\<lambda>_. ok_io 1)
     | Panic \<Rightarrow> State_Monad.return Panic
     | Hang \<Rightarrow> State_Monad.return Hang)"

definition dispatch :: "rt_env \<Rightarrow> kernel \<Rightarrow> runtimeGlobals \<Rightarrow> string \<Rightarrow> string list \<Rightarrow> int res io" where
  "dispatch E K g cmd rest =
     State_Monad.bind (os_unit K (MkdirAll (g_root g))) (\<lambda>r.
     State_Monad.bind (case r of Err e \<Rightarrow> runcLog E K g (''mkdir root: '' @ e_text E e) | _ \<Rightarrow> State_Monad.return ()) (\<lambda>_.
     if cmd = ''--version'' \<or> cmd = ''version'' then State_Monad.bind (printRuncVersion K) (\<lambda>_. ok_io 0)
     else if cmd = ''features'' then ok_io 1
     else if cmd = ''create'' then finish E K g cmd (cmdCreate E K g rest)
     else if cmd = ''start'' then finish E K g cmd (cmdStart K g rest)
     else if cmd = ''state'' then finish E K g cmd (cmdState K g rest)
     else if cmd = ''kill'' then finish E K g cmd (cmdKill K g rest)
     else if cmd = ''delete'' then finish E K g cmd (cmdDelete K g rest)
     else if cmd = ''exec'' then finish_exec E K g rest
     else if cmd = ''ps'' then State_Monad.bind (cmdPs K g rest) (\<lambda>_. ok_io 0)
     else if cmd = ''update'' \<or> cmd = ''pause'' \<or> cmd = ''resume'' \<or> cmd = ''events'' then ok_io 0
     else State_Monad.bind (runcLog E K g (''unsupported runc command '' @ cmd)) (\<lambda>_. ok_io 1)))"

definition runOCIRuntime :: "rt_env \<Rightarrow> kernel \<Rightarrow> string list \<Rightarrow> int res io" where
  "runOCIRuntime E K args =
     (case parse_globals args \<lparr>g_root = defaultRuntimeRoot, g_log = []\<rparr> of
        ArgPanic \<Rightarrow> State_Monad.return Panic
      | Version \<Rightarrow> State_Monad.bind (printRuncVersion K) (\<lambda>_. ok_io 0)
      | Help \<Rightarrow> State_Monad.bind (println K ''asterkube pure-Go OCI runtime (runc-compatible subset)'') (\<lambda>_. ok_io 0)
      | Run g [] \<Rightarrow> State_Monad.bind (runcLog E K g ''no subcommand'') (\<lambda>_. ok_io 1)
      | Run g (cmd # rest) \<Rightarrow> dispatch E K g cmd rest)"


section \<open>Command lines\<close>

lemma fits_exec_arg: "fits (length xs) (exec_arg x xs a)"
  by (simp add: exec_arg_def)

text \<open>The argument loops of create and of exec always return, with the
  parsed arguments or with the panic of a flag that lacks its value.\<close>

lemma arg_loops_return: "create_args_of args \<noteq> Hang \<and> exec_args_of args \<noteq> Hang"
  unfolding create_args_of_def exec_args_of_def
  using arg_loop_returns [of create_arg args "length args"] arg_loop_returns [of exec_arg args "length args"]
  by (simp add: fits_create_arg fits_exec_arg)

lemma hasPrefix_shorten: "hasPrefix s (p @ q) \<Longrightarrow> hasPrefix s p"
  using hasPrefixE [of s "p @ q"] by auto

text \<open>Global flags in the form containerd's shim passes them select the
  state directory and the log file, and the rest of the line reaches the command unchanged.\<close>

lemma shim_command_line:
  assumes "cmd \<notin> {''version'', ''-v'', ''-h''}" and "\<not> hasPrefix cmd ''--''"
  shows "parse_globals ([''--root'', root, ''--log'', log, ''--log-format'', fmt] @ cmd # rest) g = Run \<lparr>g_root = root, g_log = log\<rparr> (cmd # rest)"
proof -
  have p: "\<not> hasPrefix cmd (''--'' @ q)" and n: "cmd \<noteq> ''--'' @ q" for q
    using assms(2) hasPrefix_shorten [of cmd "''--''" q] by (blast, auto simp: hasPrefix_def)
  have "global_arg cmd rest g' = GDispatch" for g'
    unfolding global_arg_def using assms p [of "''root=''"] p [of "''log=''"] p [of "''log-format=''"]
      n [of "''root''"] n [of "''log''"] n [of "''log-format''"] n [of "''version''"] n [of "''help''"]
      n [of "''systemd-cgroup''"] n [of "''debug''"] n [of "''rootless''"]
    by simp
  moreover have "global_arg ''--root'' (root # r) g' = GNext (g'\<lparr>g_root := root\<rparr>) r"
    "global_arg ''--log'' (log # r) g' = GNext (g'\<lparr>g_log := log\<rparr>) r"
    "global_arg ''--log-format'' (fmt # r) g' = GNext g' r" for r g'
    by (simp_all add: global_arg_def hasPrefix_def)
  ultimately show ?thesis by (cases g) simp
qed

text \<open>\<open>--root\<close> or \<open>--log\<close> as the last argument reads past the end of the
  command line; the runtime panics instead of reporting an error, and has made no call.\<close>

lemma missing_value_panics:
  "run_state (runOCIRuntime E K [''--root'']) h = (Panic, h) \<and> run_state (runOCIRuntime E K [''--log'']) h = (Panic, h)"
  by (simp add: runOCIRuntime_def global_arg_def hasPrefix_def)


section \<open>Processes in a container\<close>

lemma grows_find_in_path [only_intros]: "grows (find_in_path K rootfs cmd dirs)"
  by (induction dirs) (auto intro!: only_intros simp: Let_def)

lemma grows_resolveInRootfs [only_intros]: "grows (resolveInRootfs K rootfs cmd env)"
  unfolding resolveInRootfs_def Let_def by (auto intro!: only_intros)

lemma find_in_path_checked:
  assumes "result (find_in_path K rootfs cmd dirs) h = Ok p"
  shows "\<exists>m. (Stat (rootfs @ p), RStat False m) \<in> set (events (find_in_path K rootfs cmd dirs) h)"
  using assms
proof (induction dirs arbitrary: h)
  case (Cons dir dirs)
  show ?case
  proof (cases "dir = []")
    case True
    then show ?thesis using Cons by simp
  next
    case False
    let ?cand = "trimRight (CHR ''/'') dir @ ''/'' @ cmd"
    let ?s = "Stat (rootfs @ ?cand)"
    let ?rest = "find_in_path K rootfs cmd dirs"
    let ?k = "\<lambda>ok. if ok then ok_io ?cand else ?rest"
    have m: "find_in_path K rootfs cmd (dir # dirs) = State_Monad.bind (os_as not_a_dir K ?s) ?k"
      by (subst find_in_path.simps) (simp only: False Let_def if_False)
    have ev: "events (find_in_path K rootfs cmd (dir # dirs)) h = (?s, K h ?s) # events (?k (not_a_dir (K h ?s))) (h @ [(?s, K h ?s)])"
      unfolding m by (subst events_bind_grows) (auto intro!: only_intros)
    show ?thesis
    proof (cases "not_a_dir (K h ?s)")
      case True
      then obtain mo where "K h ?s = RStat False mo" by (auto simp: not_a_dir_def split: reply.splits)
      moreover have "p = ?cand" using Cons.prems True unfolding m result_bind by simp
      ultimately show ?thesis unfolding ev using True by auto
    next
      case no: False
      have "result ?rest (h @ [(?s, K h ?s)]) = Ok p" using Cons.prems no unfolding m result_bind by simp
      from Cons.IH [OF this] show ?thesis unfolding ev using no by auto
    qed
  qed
qed simp

text \<open>The path that exec resolves a command to was found by a
  successful check below the container's root; for a bare command name it is not a directory.\<close>

lemma resolveInRootfs_checked:
  assumes "result (resolveInRootfs K rootfs cmd env) h = Ok p"
  shows "\<exists>d m. (Stat (rootfs @ p), RStat d m) \<in> set (events (resolveInRootfs K rootfs cmd env) h)
    \<and> (if contains cmd ''/'' then hasPrefix p ''/'' else \<not> d)"
proof (cases "contains cmd ''/''")
  case True
  let ?p = "if hasPrefix cmd ''/'' then cmd else ''/'' @ cmd"
  have p: "p = ?p" and ok: "is_ok (as_stat (K h (Stat (rootfs @ ?p))))"
    using assms True by (auto simp: resolveInRootfs_def Let_def split: if_splits)
  obtain d m where "K h (Stat (rootfs @ ?p)) = RStat d m"
    using ok by (cases "K h (Stat (rootfs @ ?p))") auto
  moreover have "hasPrefix ?p ''/''" by (simp add: hasPrefix_def)
  ultimately show ?thesis using True ok unfolding p
    by (intro exI [of _ d] exI [of _ m]) (auto simp: resolveInRootfs_def Let_def events_def)
next
  case False
  then have "result (find_in_path K rootfs cmd (split_on (CHR '':'') (first_path env))) h = Ok p"
    using assms by (simp add: resolveInRootfs_def)
  from find_in_path_checked [OF this] show ?thesis using False by (auto simp: resolveInRootfs_def)
qed


definition no_start :: "call \<Rightarrow> bool" where
  "no_start c \<longleftrightarrow> (case c of StartProcess a \<Rightarrow> False | _ \<Rightarrow> True)"

lemma no_start_simps [simp]:
  "no_start (OpenFile p f)" "no_start (Setns fd m)" "no_start (CloseFd fd)" "no_start (ReadFile p)" "no_start (Stat p)"
  "no_start (Lstat p)" "no_start (Remove p)" "no_start (WriteFile p s mode)" "no_start (Ioctl fd n)" "no_start (DialUnix p)" "no_start (SendRights c fd)"
  "no_start (WaitProc pid)" "no_start (Kill pid n)" "\<not> no_start (StartProcess a)"
  by (simp_all add: no_start_def)

lemma no_start_steps:
  "only no_start (readState K g cid)" "only no_start (pidAlive K pid)" "only no_start (exec_process K x)"
  "only no_start (resolveInRootfs K rootfs cmd env)" "only no_start (exec_join_one K pid nf)"
  "only no_start (mirror_resolv K target srcs)" "only no_start (open_terminal K w)"
proof -
  show "only no_start (readState K g cid)" by (auto simp: readState_def intro!: only_intros)
  show "only no_start (pidAlive K pid)" by (auto simp: pidAlive_def intro!: only_intros)
  show "only no_start (exec_process K x)" by (auto simp: exec_process_def intro!: only_intros)
  have "only no_start (find_in_path K rootfs cmd dirs)" for dirs
    by (induction dirs) (auto intro!: only_intros simp: Let_def)
  then show "only no_start (resolveInRootfs K rootfs cmd env)"
    by (auto simp: resolveInRootfs_def Let_def intro!: only_intros)
  show "only no_start (exec_join_one K pid nf)" by (auto simp: exec_join_one_def intro!: only_intros split: res.splits)
  show "only no_start (mirror_resolv K target srcs)"
    by (induction srcs) (auto intro!: only_intros split: res.splits)
  show "only no_start (open_terminal K w)"
    by (auto simp: open_terminal_def openPTY_def intro!: only_intros split: res.splits)
qed

lemma no_start_finish: "only no_start (exec_finish K x pty pid)"
  by (auto simp: exec_finish_def exec_wait_def sendTerminalFD_def intro!: only_intros split: res.splits option.splits)

lemma only_exec_start: "only (\<lambda>c. no_start c \<or> c = StartProcess (exec_attr st p argv0 pty)) (exec_start K x st p argv0 pty)"
  unfolding exec_start_def
  by (auto intro!: only_intros only_mono [OF no_start_finish] split: res.splits option.splits)

lemma grows_exec_start: "grows (exec_start K x st p argv0 pty)"
  by (rule only_mono [OF only_exec_start]) simp

lemma exec_env_path: "\<exists>e \<in> set (exec_env env). hasPrefix e ''PATH=''"
  by (auto simp: exec_env_def hasPrefix_def)

lemma exec_in_start:
  assumes "e \<in> set (events (exec_in K x st) h)" "fst e = StartProcess a"
  shows "\<exists>p argv0 pty. a = exec_attr st p argv0 pty"
proof -
  have ne: "\<not> no_start (fst e)" using assms(2) by simp
  let ?f4 = "\<lambda>p argv0. try_io (open_terminal K (ep_Terminal p \<and> x_consoleSocket x \<noteq> [])) (\<lambda>pty. exec_start K x st p argv0 pty)"
  let ?f3 = "\<lambda>p argv0. State_Monad.bind (mirror_resolv K (cs_Rootfs st @ ''/etc/resolv.conf'') (resolv_sources (cs_InitPid st))) (\<lambda>_. ?f4 p argv0)"
  let ?f2 = "\<lambda>p argv0. State_Monad.bind (State_Monad.traverse_list (exec_join_one K (cs_InitPid st)) exec_namespaces) (\<lambda>_. ?f3 p argv0)"
  let ?f1 = "\<lambda>p. try_io (wrap_io ''exec'' (resolveInRootfs K (cs_Rootfs st) (hd (ep_Args p)) (ep_Env p))) (\<lambda>argv0. ?f2 p argv0)"
  have g: "only no_start m \<Longrightarrow> grows m" for m :: "'b io" by (erule only_mono) simp
  have g4: "grows (?f4 p argv0)" for p argv0 by (intro only_intros g [OF no_start_steps(7)] grows_exec_start)
  have g3: "grows (?f3 p argv0)" for p argv0
    by (rule only_bind [OF only_mono [OF no_start_steps(6)] g4]) simp
  have j: "only no_start (State_Monad.traverse_list (exec_join_one K (cs_InitPid st)) exec_namespaces)"
    by (intro only_intros no_start_steps)
  have g2: "grows (?f2 p argv0)" for p argv0 by (rule only_bind [OF only_mono [OF j] g3]) simp
  have r: "only no_start (wrap_io ''exec'' (resolveInRootfs K (cs_Rootfs st) (hd (ep_Args p)) (ep_Env p)))" for p
    by (intro only_intros no_start_steps)
  have g1: "grows (?f1 p)" for p by (rule only_try_io [OF only_mono [OF r] g2]) simp
  obtain p where 1: "e \<in> set (events (?f1 p) (after (exec_process K x) h))"
    by (rule try_reach [OF assms(1) [unfolded exec_in_def] no_start_steps(3) ne g1])
  obtain argv0 h2 where 2: "e \<in> set (events (?f2 p argv0) h2)" by (rule try_reach [OF 1 r ne g2])
  have 3: "e \<in> set (events (?f3 p argv0) (after (State_Monad.traverse_list (exec_join_one K (cs_InitPid st)) exec_namespaces) h2))"
    by (rule bind_reach [OF 2 j ne g3])
  note 4 = bind_reach [OF 3 no_start_steps(6) ne g4]
  obtain pty h5 where 5: "e \<in> set (events (exec_start K x st p argv0 pty) h5)"
    by (rule try_reach [OF 4 no_start_steps(7) ne grows_exec_start])
  have "no_start (fst e) \<or> fst e = StartProcess (exec_attr st p argv0 pty)"
    using only_made [OF only_exec_start, of "fst e" K x st p argv0 pty h5] 5 by (auto simp: made_def calls_def)
  then show ?thesis using ne assms(2) by auto
qed

text \<open>C13 (exec stays in the container): exec starts a process only in a container whose recorded init
  process is alive, with the container's root as its root directory, without new namespaces and
  with a search path in its environment.\<close>

theorem cmdExec_confined:
  assumes "(StartProcess a, r) \<in> set (events (cmdExec K g args) h)"
  shows "\<exists>x st. exec_args_of args = Ok x \<and> result (readState K g (x_id x)) h = Ok st \<and> 0 < cs_InitPid st
    \<and> as_unit (K (after (readState K g (x_id x)) h) (Kill (cs_InitPid st) 0)) = Ok ()
    \<and> pa_chroot a = cs_Rootfs st \<and> pa_flags a = 0 \<and> (\<exists>e \<in> set (pa_env a). hasPrefix e ''PATH='')"
proof -
  let ?e = "(StartProcess a, r)"
  have ne: "\<not> no_start (fst ?e)" by simp
  obtain x where x: "exec_args_of args = Ok x"
    using assms by (cases "exec_args_of args") (auto simp: cmdExec_def try_io_def events_def)
  let ?al = "\<lambda>st. if cs_InitPid st \<le> 0 then State_Monad.return False else pidAlive K (cs_InitPid st)"
  let ?f2 = "\<lambda>st alive. if \<not> alive then err_io (Text (''exec: container '' @ x_id x @ '' is not running'')) else exec_in K x st"
  let ?f1 = "\<lambda>st. State_Monad.bind (?al st) (?f2 st)"
  let ?rd = "wrap_io (''exec: read state '' @ x_id x) (readState K g (x_id x))"
  have idn: "x_id x \<noteq> []" using assms by (auto simp: cmdExec_def x try_io_return events_def)
  have cmd: "cmdExec K g args = try_io ?rd ?f1" using idn by (simp add: cmdExec_def x try_io_return)
  have rd: "only no_start ?rd" by (intro only_intros no_start_steps)
  have al: "only no_start (?al st)" for st by (intro only_intros no_start_steps)
  have ein: "grows (exec_in K x st)" for st
    unfolding exec_in_def by (intro only_intros grows_exec_start only_mono [OF no_start_steps(3)] only_mono [OF no_start_steps(5)]
        only_mono [OF no_start_steps(6)] only_mono [OF no_start_steps(7)]) simp_all
  have g2: "grows (?f2 st alive)" for st alive using ein by (auto intro!: only_intros)
  have g1: "grows (?f1 st)" for st by (rule only_bind [OF only_mono [OF al] g2]) simp
  obtain st where st: "result ?rd h = Ok st" "?e \<in> set (events (?f1 st) (after ?rd h))"
    by (rule try_reach [OF assms [unfolded cmd] rd ne g1])
  let ?h = "after (readState K g (x_id x)) h"
  have 2: "?e \<in> set (events (?f2 st (result (?al st) ?h)) (after (?al st) ?h))"
    using bind_reach [OF st(2) al ne g2] unfolding result_wrap .
  then have alive: "result (?al st) ?h" by (cases "result (?al st) ?h") auto
  have ok: "is_ok (as_unit q) \<Longrightarrow> as_unit q = Ok ()" for q by (cases q) auto
  have 3: "0 < cs_InitPid st" "as_unit (K ?h (Kill (cs_InitPid st) 0)) = Ok ()"
    using alive by (auto simp: pidAlive_def split: if_splits intro: ok)
  have "?e \<in> set (events (exec_in K x st) (after (?al st) ?h))" using 2 alive by simp
  from exec_in_start [OF this] obtain p argv0 pty where "a = exec_attr st p argv0 pty" by auto
  then show ?thesis using x st(1) [unfolded result_wrap wrap_err_Ok] 3 exec_env_path [of "ep_Env p"]
    by (intro exI [of _ x] exI [of _ st]) (simp add: exec_attr_def)
qed

text \<open>A kernel with a running container and a process specification.\<close>

definition sample_exec :: json where
  "sample_exec = JObj [(''args'', JArr [JStr ''/bin/sh''])]"

definition exec_kernel :: kernel where
  "exec_kernel h c = (case c of
       ReadFile p \<Rightarrow> RData (json_print (if p = ''/p.json'' then sample_exec else enc_state sample_state))
     | Stat p \<Rightarrow> RStat False 493
     | _ \<Rightarrow> RInt 3)"

lemma sample_exec_decodes:
  "json_unmarshal dec_exec (json_print sample_exec) exec0 = Ok (exec0\<lparr>ep_Args := [''/bin/sh'']\<rparr>)"
proof -
  have "json_parse (json_print sample_exec) = Some sample_exec"
    by (rule json_parse_print) (simp add: sample_exec_def)
  then show ?thesis
    by (simp add: json_unmarshal_def dec_exec_def dec_struct_def sample_exec_def json_field_def exec_field_def dec_list_def
        dec_string_def exec0_def)
qed

theorem cmdExec_confined_witness:
  "\<exists>a r. (StartProcess a, r) \<in> set (events (cmdExec exec_kernel \<lparr>g_root = ''/run'', g_log = []\<rparr> [''-p'', ''/p.json'', ''web'']) [])
    \<and> pa_chroot a = ''/run/b/rootfs''"
proof -
  let ?g = "\<lparr>g_root = ''/run'', g_log = []\<rparr>" and ?args = "[''-p'', ''/p.json'', ''web'']"
  have x: "exec_args_of ?args = Ok (exec_args0\<lparr>x_processPath := ''/p.json'', x_id := ''web''\<rparr>)"
    by (simp add: exec_args_of_def exec_arg_def take_value_def hasPrefix_def exec_args0_def)
  have sf: "state_file ?g ''web'' \<noteq> ''/p.json''" by code_simp
  have rs: "run_state (readState exec_kernel ?g ''web'') h =
      (Ok sample_state, h @ [(ReadFile (state_file ?g ''web''), RData (json_print (enc_state sample_state)))])" for h
    using sf by (simp add: readState_def exec_kernel_def sample_state_decodes)
  have ep: "run_state (exec_process exec_kernel (exec_args0\<lparr>x_processPath := ''/p.json'', x_id := ''web''\<rparr>)) h =
      (Ok (exec0\<lparr>ep_Args := [''/bin/sh''], ep_Cwd := ''/''\<rparr>), h @ [(ReadFile ''/p.json'', RData (json_print sample_exec))])" for h
    by (simp add: exec_process_def run_try_io exec_kernel_def sample_exec_decodes exec_args0_def) (simp add: exec0_def orDefault_def)
  obtain a r where ar: "(StartProcess a, r) \<in> set (events (cmdExec exec_kernel ?g ?args) [])"
  proof -
    let ?a = "exec_attr sample_state (exec0\<lparr>ep_Args := [''/bin/sh''], ep_Cwd := ''/''\<rparr>) ''/bin/sh'' None"
    have "(StartProcess ?a, RInt 3) \<in> set (events (cmdExec exec_kernel ?g ?args) [])"
      by (simp add: events_def cmdExec_def x try_io_return run_try_io rs exec_in_def ep)
         (simp add: pidAlive_def exec_args0_def sample_state_def exec_kernel_def run_try_io exec_in_def ep [unfolded exec_args0_def, simplified]
           resolveInRootfs_def hasPrefix_def exec_namespaces_def exec_join_one_def resolv_sources_def open_terminal_def
           exec_start_def exec0_def Let_def exec_finish_def exec_wait_def enc_state_def)
    then show thesis by (rule that)
  qed
  from cmdExec_confined [OF ar] have "pa_chroot a = cs_Rootfs sample_state"
    by (auto simp: x rs exec_args0_def)
  then show ?thesis using ar by (auto simp: sample_state_def)
qed

text \<open>Once exec has opened a terminal, it closes its ends of both the master
  and the slave, whether the process starts or not and whether the master reaches the shim or not.\<close>

lemma finish_closes_terminal:
  "{CloseFd m, CloseFd s} \<subseteq> set (made (exec_finish K x (Some (m, s)) pid) h)"
proof -
  let ?fin = "\<lambda>r :: unit res. case r of Err e \<Rightarrow> err_io (Wrap ''exec: send console fd'' e) | _ \<Rightarrow> ok_io (None :: int option)"
  let ?close = "\<lambda>r. State_Monad.bind (os_ignore K (CloseFd m)) (\<lambda>_. ?fin r)"
  let ?send = "sendTerminalFD K (x_consoleSocket x) m"
  have e: "grows (?fin r)" for r by (auto intro!: only_intros split: res.splits)
  have c: "grows (?close r)" for r by (intro only_intros e) simp
  have t: "grows ?send" unfolding sendTerminalFD_def by (intro only_intros) simp_all
  have "CloseFd m \<in> set (made (?close r) h')" for r h'
    by (subst made_bind [where P = "\<lambda>_. True" and Q = "\<lambda>_. True"]) (simp_all add: only_intros e)
  then have "CloseFd m \<in> set (made (State_Monad.bind ?send ?close) h')" for h'
    by (subst made_bind [where P = "\<lambda>_. True" and Q = "\<lambda>_. True"]) (simp_all add: t c)
  moreover have "grows (State_Monad.bind ?send ?close)" by (rule only_bind [OF t c])
  ultimately show ?thesis unfolding exec_finish_def option.case prod.case
    by (subst made_bind [where P = "\<lambda>_. True" and Q = "\<lambda>_. True"]) (simp_all add: only_intros)
qed

lemma exec_closes_terminal:
  "{CloseFd m, CloseFd s} \<subseteq> set (made (exec_start K x st p argv0 (Some (m, s))) h)"
proof -
  let ?c = "StartProcess (exec_attr st p argv0 (Some (m, s)))"
  have g: "grows (exec_finish K x pty pid)" for pty pid by (rule only_mono [OF no_start_finish]) simp
  show ?thesis
  proof (cases "as_int (K h ?c)")
    case (Ok pid)
    let ?pid = "if x_pidFile x \<noteq> [] then os_ignore K (WriteFile (x_pidFile x) (itoa pid) 420) else State_Monad.return ()"
    have "made (exec_start K x st p argv0 (Some (m, s))) h =
        [?c] @ made ?pid (h @ [(?c, K h ?c)]) @ made (exec_finish K x (Some (m, s)) pid) (after ?pid (h @ [(?c, K h ?c)]))"
      unfolding exec_start_def
      by (simp add: Ok made_bind [where P = "\<lambda>_. True" and Q = "\<lambda>_. True"] only_intros g)
    then show ?thesis using finish_closes_terminal [of m s K x pid] by auto
  qed (auto simp: exec_start_def made_def events_def)
qed

end
