(* ===== verification/Init.thy ===== *)
theory Init
  imports SecurityProbes OciExec
begin

text \<open>
  The entry point (\<open>main.go\<close>) and the life of a persistent node (\<open>persist_linux.go\<close>). One binary plays
  many roles: \<open>main_role\<close> is the dispatch of \<open>main\<close>, on the arguments, the environment and the
  process id. The boot itself is in the theory \<open>Boot\<close>, and the probe that \<open>serveForever\<close> starts in the
  background (\<open>probeNodeClusterIP\<close>) is put beside it in \<open>LiveNode\<close>.
\<close>

section \<open>Roles\<close>

datatype role =
    RuncInit string string string
  | OciRuntimeCli "string list"
  | MountApplet "string list"
  | UmountApplet "string list"
  | ShebangProbe
  | Probe string string
  | Container
  | RuncPayload
  | ProbeChild
  | Kubelet
  | InitProcess

text \<open>The probe roles in the order of their tests: a variable with the values that select the role, or
  with any value but the empty one.\<close>

definition probe_roles :: "(string \<times> string list option) list" where
  "probe_roles =
     [(seccompProbeEnv, None),
      (macProbeEnv, Some [''main'', ''peer'']),
      (fileMacProbeEnv, Some [''main'', ''peer'']),
      (socketMacProbeEnv, Some [''main'', ''peer'']),
      (usernsProbeEnv, Some [''child'']),
      (rootlessProbeEnv, Some [''unpriv'', ''userns'']),
      (usermapProbeEnv, Some [''unpriv'', ''child'']),
      (suidReportEnv, None),
      (sandboxProbeEnv, Some [''hold'', ''join''])]"

definition selects :: "getenv \<Rightarrow> string \<times> string list option \<Rightarrow> bool" where
  "selects env p = (case snd p of None \<Rightarrow> env (fst p) \<noteq> [] | Some vs \<Rightarrow> env (fst p) \<in> set vs)"

definition env_role :: "getenv \<Rightarrow> int \<Rightarrow> role" where
  "env_role env pid = (case find (selects env) probe_roles of
       Some p \<Rightarrow> Probe (fst p) (env (fst p))
     | None \<Rightarrow>
         if env containerEnv \<noteq> [] then Container
         else if env runcPayloadEnv \<noteq> [] then RuncPayload
         else if env probeChildEnv \<noteq> [] then ProbeChild
         else if pid \<noteq> 1 then Kubelet
         else InitProcess)"

definition main_role :: "string list \<Rightarrow> getenv \<Rightarrow> int \<Rightarrow> role res" where
  "main_role argv env pid =
     (if length argv \<ge> 5 \<and> argv ! 1 = ''__runc_init'' then Ok (RuncInit (argv ! 2) (argv ! 3) (argv ! 4))
      else case argv of
        [] \<Rightarrow> Panic
      | arg0 # args \<Rightarrow>
          let base = path_base arg0 in
          Ok (if base = ''runc'' \<or> base = ''asterkube-runc'' then OciRuntimeCli args
              else if base = ''mount'' then MountApplet args
              else if base = ''umount'' then UmountApplet args
              else if base = ''shebang-probe'' then ShebangProbe
              else env_role env pid))"


section \<open>A persistent node\<close>

definition prAsterkubeAcpi :: int where "prAsterkubeAcpi = 0x4b554143"

definition armACPIShutdown :: "kernel \<Rightarrow> unit io" where
  "armACPIShutdown K = os_ignore K (Prctl prAsterkubeAcpi 0 0 0 0)"

text \<open>No process that is kept is ever waited for, so \<open>ProcessState\<close> is not set and the test for an exit
  in \<open>nodeIsLive\<close> does not hold.\<close>

definition nodeIsLive :: "node_state \<Rightarrow> bool" where
  "nodeIsLive st \<longleftrightarrow> liveProcs st \<noteq> []"

definition powerOff :: "kernel \<Rightarrow> unit res io" where
  "powerOff K =
     State_Monad.bind (os_ignore K Sync) (\<lambda>_.
     State_Monad.bind (os_unit K (Reboot 0x4321fedc)) (\<lambda>r.
     if is_ok r then ok_io ()
     else State_Monad.bind (os_ignore K Pause) (\<lambda>_. State_Monad.return Hang)))"

definition signal_all :: "kernel \<Rightarrow> int \<Rightarrow> node_state \<Rightarrow> unit io" where
  "signal_all K sig st =
     State_Monad.bind (State_Monad.traverse_list (\<lambda>pid. os_ignore K (Kill pid sig)) (liveProcs st)) (\<lambda>_. State_Monad.return ())"

definition gracefulShutdown :: "kernel \<Rightarrow> node_state \<Rightarrow> unit res io" where
  "gracefulShutdown K st =
     State_Monad.bind (signal_all K SIGTERM st) (\<lambda>_.
     State_Monad.bind (os_ignore K (Sleep 3000000000)) (\<lambda>_.
     State_Monad.bind (signal_all K SIGKILL st) (\<lambda>_.
     State_Monad.bind (os_ignore K Sync) (\<lambda>_.
     powerOff K))))"

definition serveForever :: "kernel \<Rightarrow> node_state \<Rightarrow> unit res io" where
  "serveForever K st =
     State_Monad.bind (armACPIShutdown K) (\<lambda>_.
     State_Monad.bind (os_ignore K AwaitSignal) (\<lambda>_.
     gracefulShutdown K st))"


section \<open>The end of a boot\<close>

definition stays_up :: "getenv \<Rightarrow> node_state \<Rightarrow> bool" where
  "stays_up env st \<longleftrightarrow> nodeIsLive st \<or> env ''ASTERKUBE_PERSIST'' \<noteq> []"

definition finish_boot :: "kernel \<Rightarrow> getenv \<Rightarrow> node_state \<Rightarrow> unit res io" where
  "finish_boot K env st =
     (if stays_up env st then serveForever K st else powerOff K)"


section \<open>Every process finds its role\<close>

lemma getenv_of_none: "list_all (\<lambda>e. \<not> hasPrefix e (var @ ''='')) es \<Longrightarrow> getenv_of es var = []"
  by (simp add: getenv_of_def list_all_iff find_None_iff [THEN iffD2])

lemma setting_prefix:
  assumes "CHR ''='' \<notin> set v" "CHR ''='' \<notin> set var"
  shows "hasPrefix (setting v x) (var @ ''='') \<longleftrightarrow> v = var"
proof
  assume "hasPrefix (setting v x) (var @ ''='')"
  then obtain t where "v @ CHR ''='' # x = var @ CHR ''='' # t" by (auto simp: setting_def dest: hasPrefixE)
  then have "takeWhile (\<lambda>c. c \<noteq> CHR ''='') (v @ CHR ''='' # x) = takeWhile (\<lambda>c. c \<noteq> CHR ''='') (var @ CHR ''='' # t)" by simp
  moreover have "takeWhile (\<lambda>c. c \<noteq> CHR ''='') (w @ CHR ''='' # y) = w" if "CHR ''='' \<notin> set w" for w y
    using that by (simp add: takeWhile_append takeWhile_eq_all_conv)
  ultimately show "v = var" using assms by metis
next
  show "v = var \<Longrightarrow> hasPrefix (setting v x) (var @ ''='')"
    using hasPrefix_append [of "var @ ''=''" x] by (simp add: setting_def)
qed

definition pod_names :: "string list" where
  "pod_names = [podHostnameEnv, podTenantEnv, podIPEnv, hostIPEnv, vethPrefxEnv, peerIPEnv, tenantProbeIPEnv, crossPingEnv,
     masqRoleEnv, masqUplinkGwEnv, masqTargetEnv, svcRoleEnv, svcVIPEnv, svcVPortEnv, svcBackendPortEnv]"

definition node_vars :: "podSpec \<Rightarrow> podNetwork \<Rightarrow> string list" where
  "node_vars spec n = [setting podHostnameEnv (Hostname spec)] @
     (if Tenant spec \<noteq> 0 then [setting podTenantEnv (nat_digits (unat (Tenant spec)))] else []) @ bridged_net_env n"

lemma node_vars_named: "e \<in> set (node_vars spec n) \<Longrightarrow> \<exists>v \<in> set pod_names. \<exists>x. e = setting v x"
  unfolding node_vars_def bridged_net_env_def veth_net_env_def service_env_def given_def pod_names_def
  by (simp split: if_splits) blast+

definition role_vars :: "string list" where
  "role_vars = containerEnv # map fst probe_roles"

lemma role_vars_fresh:
  "list_all (\<lambda>var. CHR ''='' \<notin> set var \<and> var \<notin> set pod_names) role_vars" "list_all (\<lambda>v. CHR ''='' \<notin> set v) pod_names"
  by code_simp+

lemma node_vars_free:
  assumes "var \<in> set role_vars"
  shows "list_all (\<lambda>e. \<not> hasPrefix e (var @ ''='')) (node_vars spec n)"
proof -
  have "\<not> hasPrefix e (var @ ''='')" if e: "e \<in> set (node_vars spec n)" for e
  proof -
    obtain v x where v: "v \<in> set pod_names" "e = setting v x" using node_vars_named [OF e] by blast
    then have "v \<noteq> var" "CHR ''='' \<notin> set v" "CHR ''='' \<notin> set var"
      using assms role_vars_fresh by (auto simp: list_all_iff)
    then show ?thesis by (simp add: v setting_prefix)
  qed
  then show ?thesis by (simp add: list_all_iff)
qed

lemma demo_pod_env:
  fixes name tenant n
  defines "spec \<equiv> demo_pod name tenant n"
  shows "bridged_env spec n' containerEnv = ''1''" "p \<in> set probe_roles \<Longrightarrow> bridged_env spec n' (fst p) = []"
proof -
  have e: "pod_env spec (bridged_net_env n') = [setting containerEnv ''1''] @ node_vars spec n'"
    by (simp add: pod_env_def node_vars_def spec_def demo_pod_def)
  have "containerEnv \<in> set role_vars" by (simp add: role_vars_def)
  then show "bridged_env spec n' containerEnv = ''1''"
    unfolding bridged_env_def e by (subst getenv_of_skip [OF node_vars_free]) (simp_all add: getenv_of_last)
  assume p: "p \<in> set probe_roles"
  then have "fst p \<in> set role_vars" by (auto simp: role_vars_def)
  moreover have "\<not> hasPrefix (setting containerEnv ''1'') (fst p @ ''='')"
    using p by (auto simp: probe_roles_def setting_def hasPrefix_def probe_env_defs containerEnv_def)
  ultimately show "bridged_env spec n' (fst p) = []"
    unfolding bridged_env_def e by (intro getenv_of_none) (simp add: node_vars_free)
qed




section \<open>Shutdown\<close>

lemma grows_signal_all [only_intros]: "grows (signal_all K sig st)"
  unfolding signal_all_def by (intro only_intros) simp

lemma made_signal_all: "made (signal_all K sig st) h = map (\<lambda>pid. Kill pid sig) (liveProcs st)"
proof -
  have "made (State_Monad.traverse_list (\<lambda>pid. os_ignore K (Kill pid sig)) ps) h = map (\<lambda>pid. Kill pid sig) ps" for ps h
  proof (induction ps arbitrary: h)
    case (Cons p ps)
    then show ?case
      using made_traverse_Cons [where P = "\<lambda>_. True" and f = "\<lambda>pid. os_ignore K (Kill pid sig)" and x = p and xs = ps and h = h]
      by (simp add: only_intros)
  qed simp
  then show ?thesis
    unfolding signal_all_def by (subst made_bind_grows) (auto intro!: only_intros)
qed

lemma grows_powerOff [only_intros]: "grows (powerOff K)"
  unfolding powerOff_def by (intro only_intros) simp_all

lemma made_powerOff:
  "\<exists>tail. made (powerOff K) h = [Sync, Reboot 0x4321fedc] @ tail \<and> set tail \<subseteq> {Pause}
     \<and> result (powerOff K) h = (if tail = [] then Ok () else Hang)"
  by (cases "is_ok (as_unit (K (h @ [(Sync, K h Sync)]) (Reboot 0x4321fedc)))")
     (auto simp: powerOff_def made_def events_def)

text \<open>The end of a boot: what is done for a node that is kept alive, and for one that is not.\<close>

definition live_end :: "node_state \<Rightarrow> call list" where
  "live_end st = [Prctl prAsterkubeAcpi 0 0 0 0, AwaitSignal] @ map (\<lambda>pid. Kill pid SIGTERM) (liveProcs st) @ [Sleep 3000000000]
     @ map (\<lambda>pid. Kill pid SIGKILL) (liveProcs st) @ [Sync]"

text \<open>At the end of the boot, a node that keeps processes waits for a signal, then asks
  every one of them to terminate, waits three seconds, kills every one of them and flushes the file
  systems; any other node skips this; both then power off as their last act, and the init process
  returns only if the machine has been powered off.\<close>

lemma finish_boot_orderly:
  "\<exists>tail. made (finish_boot K env st) h =
      (if stays_up env st then live_end st else []) @ [Sync, Reboot 0x4321fedc] @ tail
    \<and> set tail \<subseteq> {Pause} \<and> result (finish_boot K env st) h = (if tail = [] then Ok () else Hang)"
proof (cases "stays_up env st")
  case True
  have g: "grows (gracefulShutdown K st)" unfolding gracefulShutdown_def by (intro only_intros) simp_all
  have shut: "\<exists>h'. made (gracefulShutdown K st) h = map (\<lambda>pid. Kill pid SIGTERM) (liveProcs st) @ [Sleep 3000000000]
     @ map (\<lambda>pid. Kill pid SIGKILL) (liveProcs st) @ [Sync] @ made (powerOff K) h' \<and> result (gracefulShutdown K st) h = result (powerOff K) h'" for h
    unfolding gracefulShutdown_def
    by (intro exI conjI, (subst made_bind_grows, (intro only_intros; simp)+)+) (auto simp: made_signal_all case_prod_beta)
  let ?a = "Prctl prAsterkubeAcpi 0 0 0 0"
  let ?h = "h @ [(?a, K h ?a), (AwaitSignal, K (h @ [(?a, K h ?a)]) AwaitSignal)]"
  have "made (finish_boot K env st) h = [?a, AwaitSignal] @ made (gracefulShutdown K st) ?h"
      "result (finish_boot K env st) h = result (gracefulShutdown K st) ?h"
    using True g by (simp_all add: finish_boot_def serveForever_def armACPIShutdown_def made_bind_grows only_intros)
  then show ?thesis using True shut [of ?h] made_powerOff [of K] by (fastforce simp: live_end_def)
next
  case False
  then show ?thesis using made_powerOff [of K h] by (simp add: finish_boot_def)
qed

end
