(* ===== verification/Icmp.thy ===== *)
theory Icmp
  imports Polling
begin

text \<open>
  The network tests of \<open>probe_linux.go\<close> that pods run too: the internet checksum, the ICMP echo test
  and the loopback round trip. The result string of a test is an \<open>Ok\<close> value where it starts with
  \<open>ok\<close> and an error otherwise.
\<close>

unbundle bit_operations_syntax

section \<open>The internet checksum\<close>

fun sum16 :: "bytes \<Rightarrow> 32 word \<Rightarrow> 32 word" where
  "sum16 (a # b # rest) s = sum16 rest (s + (push_bit 8 (ucast a) OR ucast b))"
| "sum16 [a] s = s + push_bit 8 (ucast a)"
| "sum16 [] s = s"

text \<open>The carries are added until none is left: each turn makes the sum smaller.\<close>

lemma carry_decreases:
  fixes s :: "32 word"
  assumes "drop_bit 16 s \<noteq> 0"
  shows "unat ((s AND 0xffff) + drop_bit 16 s) < unat s"
    and "unat ((s AND 0xffff) + drop_bit 16 s) = unat s mod 65536 + unat s div 65536"
proof -
  have d: "unat (drop_bit 16 s) = unat s div 65536" by (simp add: drop_bit_eq_div unat_div)
  have m: "unat (s AND 0xffff) = unat s mod 65536"
  proof -
    have "s AND 0xffff = take_bit 16 s" by (simp add: take_bit_eq_mask mask_numeral)
    then show ?thesis by (simp add: take_bit_eq_mod unat_mod)
  qed
  have b: "unat s < 2 ^ 32"
  proof -
    have "unat s < 2 ^ LENGTH(32)" by (rule unsigned_less)
    then show ?thesis by simp
  qed
  have pos: "0 < unat s div 65536" using assms d unat_eq_zero [of "drop_bit 16 s"] by simp
  have small: "unat s mod 65536 + unat s div 65536 < 2 ^ 32" using b by simp
  show sum: "unat ((s AND 0xffff) + drop_bit 16 s) = unat s mod 65536 + unat s div 65536"
    using small by (simp add: unat_word_ariths d m)
  have "unat s = 65536 * (unat s div 65536) + unat s mod 65536" by simp
  then show "unat ((s AND 0xffff) + drop_bit 16 s) < unat s" unfolding sum using pos by linarith
qed

function fold_carry :: "32 word \<Rightarrow> 32 word" where
  "fold_carry s = (if drop_bit 16 s = 0 then s else fold_carry ((s AND 0xffff) + drop_bit 16 s))"
  by pat_completeness auto
termination by (relation "measure unat") (simp_all add: carry_decreases(1))

declare fold_carry.simps [simp del]

definition icmpChecksum :: "bytes \<Rightarrow> 16 word" where
  "icmpChecksum data = NOT (ucast (fold_carry (sum16 data 0)))"

text \<open>The checksum put into its field of an ICMP message.\<close>

definition put_checksum :: "bytes \<Rightarrow> bytes" where
  "put_checksum pkt = (let csum = icmpChecksum pkt in pkt[2 := ucast (drop_bit 8 csum), 3 := ucast (csum AND 0xff)])"

lemma length_put_checksum: "length (put_checksum pkt) = length pkt"
  by (simp add: put_checksum_def Let_def)

text \<open>The sum of the 16-bit words as a number.\<close>

fun word_total :: "bytes \<Rightarrow> nat" where
  "word_total (a # b # rest) = 256 * unat a + unat b + word_total rest"
| "word_total [a] = 256 * unat a"
| "word_total [] = 0"

lemma byte_below: "unat (a :: byte) < 256"
proof -
  have "unat a < 2 ^ LENGTH(8)" by (rule unsigned_less)
  then show ?thesis by simp
qed

lemma unat_byte_pair: "unat (push_bit 8 (ucast (a :: byte)) OR ucast (b :: byte) :: 32 word) = 256 * unat a + unat b"
proof -
  have "(push_bit 8 (ucast a) OR ucast b :: 32 word) = push_bit 8 (ucast a) + ucast b"
    by (rule disjunctive_add_eq_or [symmetric]) (rule bit_word_eqI, auto simp: bit_simps dest: bit_imp_le_length)
  moreover have "unat a < 256" "unat b < 256" by (rule byte_below)+
  ultimately show ?thesis by (simp add: push_bit_eq_mult unat_word_ariths unsigned_ucast_eq take_bit_nat_eq_self)
qed

lemma total_bound: "word_total data \<le> 65535 * ((length data + 1) div 2)"
proof (induction data rule: word_total.induct)
  case (1 a b rest)
  have "unat a < 256" "unat b < 256" by (rule byte_below)+
  then show ?case using 1 by simp
next
  case (2 a)
  have "unat a < 256" by (rule byte_below)
  then show ?case by simp
qed simp

lemma sum16_total: "unat s + word_total data < 2 ^ 32 \<Longrightarrow> unat (sum16 data s) = unat s + word_total data"
proof (induction data s rule: sum16.induct)
  case (1 a b rest s)
  have "unat (s + (push_bit 8 (ucast a) OR ucast b)) = unat s + (256 * unat a + unat b)"
    using 1(2) by (simp add: unat_word_ariths unat_byte_pair)
  then show ?case using 1 by simp
next
  case (2 a s)
  then show ?case using unat_byte_pair [of a 0] by (simp add: unat_word_ariths)
qed simp

lemma fold_carry_spec:
  "unat (fold_carry s) < 65536 \<and> unat (fold_carry s) mod 65535 = unat s mod 65535 \<and> (unat (fold_carry s) = 0 \<longleftrightarrow> unat s = 0)"
proof (induction s rule: fold_carry.induct)
  case (1 s)
  show ?case
  proof (cases "drop_bit 16 s = 0")
    case True
    then have "unat (s div 65536) = 0" by (simp add: drop_bit_eq_div)
    then have "unat s div 65536 = 0" by (simp only: unat_div) simp
    then show ?thesis using True by (simp add: fold_carry.simps [of s])
  next
    case False
    let ?n = "unat s"
    have f: "fold_carry s = fold_carry ((s AND 0xffff) + drop_bit 16 s)" using False by (simp add: fold_carry.simps [of s])
    have "?n = 65535 * (?n div 65536) + (?n mod 65536 + ?n div 65536)" by (simp add: algebra_simps) 
    then have "(?n mod 65536 + ?n div 65536) mod 65535 = ?n mod 65535" by (metis mod_mult_self4 add.commute)
    moreover have "?n mod 65536 + ?n div 65536 = 0 \<longleftrightarrow> ?n = 0" by (metis add_is_0 div_mult_mod_eq mult_is_0 mod_0 div_0)
    ultimately show ?thesis using 1 [OF False] unfolding f carry_decreases(2) [OF False] by simp
  qed
qed

text \<open>The reference: the complement of the sum modulo 65535, where a sum that is not zero counts as
  65535 rather than as zero.\<close>

definition rfc1071 :: "bytes \<Rightarrow> nat" where
  "rfc1071 data = 65535 - (if word_total data = 0 then 0 else if word_total data mod 65535 = 0 then 65535 else word_total data mod 65535)"

lemma icmpChecksum_rfc:
  assumes "length data \<le> 65536"
  shows "unat (icmpChecksum data) = rfc1071 data"
proof -
  let ?f = "unat (fold_carry (sum16 data 0))"
  have "65535 * ((length data + 1) div 2) \<le> 65535 * 32768" using assms by simp
  then have "unat (0 :: 32 word) + word_total data < 2 ^ 32" using total_bound [of data] by simp
  then have t: "unat (sum16 data 0) = word_total data" using sum16_total by fastforce
  have f: "?f < 65536" "?f mod 65535 = word_total data mod 65535" "?f = 0 \<longleftrightarrow> word_total data = 0"
    using fold_carry_spec [of "sum16 data 0"] by (simp_all add: t)
  have "?f = (if word_total data = 0 then 0 else if word_total data mod 65535 = 0 then 65535 else word_total data mod 65535)"
    using f by (cases "?f = 65535") auto
  moreover have "unat (NOT (w :: 16 word)) = 65535 - unat w" for w
  proof -
    have "NOT w = - 1 - w" by (simp add: not_eq_complement)
    then show ?thesis using unat_sub [of w "- 1"] by (simp add: unsigned_minus_1_eq_mask mask_eq_exp_minus_1)
  qed
  ultimately show ?thesis using f(1) by (simp add: icmpChecksum_def rfc1071_def unsigned_ucast_eq take_bit_nat_eq_self)
qed

text \<open>C39 (the checksum): the checksum that the code computes is that of RFC 1071, without overflow for any
  message that fits an IP packet; and a message with its checksum in place has the checksum 0, which is
  what a receiver tests.\<close>

theorem icmpChecksum_verifies:
  assumes "4 \<le> length pkt" "length pkt \<le> 65536" "pkt ! 2 = 0" "pkt ! 3 = 0"
  shows "unat (icmpChecksum pkt) = rfc1071 pkt \<and> icmpChecksum (put_checksum pkt) = 0"
proof -
  obtain a b rest where pkt: "pkt = a # b # 0 # 0 # rest"
    using assms by (cases pkt rule: word_total.cases; cases "drop 2 pkt" rule: word_total.cases) auto
  let ?c = "icmpChecksum pkt" and ?t = "word_total pkt"
  have c: "unat ?c = rfc1071 pkt" using icmpChecksum_rfc assms(2) by blast
  have "unat (ucast (drop_bit 8 ?c) :: byte) = unat ?c div 256" "unat (ucast (?c AND 0xff) :: byte) = unat ?c mod 256"
  proof -
    have l: "unat ?c < 2 ^ LENGTH(16)" by (rule unsigned_less)
    then show "unat (ucast (drop_bit 8 ?c) :: byte) = unat ?c div 256"
      by (simp add: drop_bit_eq_div unsigned_ucast_eq unat_div take_bit_nat_eq_self)
    have "?c AND 0xff = take_bit 8 ?c" by (simp add: take_bit_eq_mask mask_numeral)
    then show "unat (ucast (?c AND 0xff) :: byte) = unat ?c mod 256"
      by (simp add: unsigned_ucast_eq unat_mod take_bit_eq_mod)
  qed
  then have t: "word_total (put_checksum pkt) = ?t + unat ?c"
    unfolding put_checksum_def Let_def by (simp add: pkt numeral_3_eq_3 numeral_2_eq_2)
  have "(?t + unat ?c) mod 65535 = 0" "?t + unat ?c \<noteq> 0"
  proof -
    have r: "?t mod 65535 < 65535" by simp
    have "q * 65535 + m + (65535 - m) = 65535 * (q + 1)" if "m < 65535" for q m :: nat using that by simp
    from this [OF r, of "?t div 65535"] have "?t + (65535 - ?t mod 65535) = 65535 * (?t div 65535 + 1)"
      unfolding div_mult_mod_eq .
    then show "(?t + unat ?c) mod 65535 = 0" unfolding c rfc1071_def by (cases "?t mod 65535 = 0") (simp_all only: mod_mult_self1_is_0, simp_all)
    show "?t + unat ?c \<noteq> 0" unfolding c rfc1071_def using r by (auto simp: not_le)
  qed
  then have "unat (icmpChecksum (put_checksum pkt)) = 0"
    using icmpChecksum_rfc [of "put_checksum pkt"] assms(2) by (simp add: rfc1071_def t length_put_checksum)
  then show ?thesis using c by (simp add: unat_0_iff)
qed

theorem icmpChecksum_verifies_witness:
  "unat (icmpChecksum [8, 0, 0, 0, 0xBE, 0xEF, 0, 1, 0x61]) = rfc1071 [8, 0, 0, 0, 0xBE, 0xEF, 0, 1, 0x61]
   \<and> icmpChecksum (put_checksum [8, 0, 0, 0, 0xBE, 0xEF, 0, 1, 0x61]) = 0"
  using icmpChecksum_verifies [of "[8, 0, 0, 0, 0xBE, 0xEF, 0, 1, 0x61]"] by simp


section \<open>The echo test\<close>

definition IPPROTO_ICMP :: nat where "IPPROTO_ICMP = 1"
definition ident :: "16 word" where "ident = 0xBEEF"
definition echo_seq :: "16 word" where "echo_seq = 1"

definition string_octets :: "string \<Rightarrow> bytes" where
  "string_octets = map of_char"

definition echo_request :: bytes where
  "echo_request = put_checksum ([8, 0, 0, 0] @ be16 ident @ be16 echo_seq @ string_octets ''asterkube-ping'')"

text \<open>What the loop does with one datagram: it is skipped, accepted with its time to live and length, or
  the header length points beyond its end, where slicing panics.\<close>

definition match_echo :: "bytes \<Rightarrow> (byte \<times> nat) option res" where
  "match_echo buf =
     (if length buf < 28 then Ok None
      else let ihl = unat (buf ! 0 AND 0x0f) * 4 in
        if ihl > length buf then Panic
        else let icmp = drop ihl buf in
          if length icmp < 8 \<or> icmp ! 0 \<noteq> 0 then Ok None
          else if take 2 (drop 4 icmp) \<noteq> be16 ident then Ok None
          else Ok (Some (buf ! 8, length icmp)))"

definition no_echo :: goerr where "no_echo = Text ''no echo reply within 5s''"

fun echo_poll :: "nat \<Rightarrow> kernel \<Rightarrow> int \<Rightarrow> int \<Rightarrow> (byte \<times> nat) res io" where
  "echo_poll 0 K fd deadline = State_Monad.return Hang"
| "echo_poll (Suc fuel) K fd deadline =
     State_Monad.bind (os_now K) (\<lambda>now.
       if \<not> now < deadline then err_io no_echo
       else State_Monad.bind (os_bytes K (Recvfrom fd 1500)) (\<lambda>r. case r of
           Err e \<Rightarrow>
             if e = Errno EAGAIN
             then State_Monad.bind (os_ignore K (Sleep 100000000)) (\<lambda>_. echo_poll fuel K fd deadline)
             else err_io (Wrap ''recvfrom'' e)
         | Ok buf \<Rightarrow> (case match_echo buf of
               Ok got \<Rightarrow> (case got of Some a \<Rightarrow> ok_io a | None \<Rightarrow> echo_poll fuel K fd deadline)
             | Err e \<Rightarrow> err_io e
             | Panic \<Rightarrow> State_Monad.return Panic
             | Hang \<Rightarrow> State_Monad.return Hang)
         | _ \<Rightarrow> State_Monad.return Panic))"

definition echo_target :: "string \<Rightarrow> sockaddr" where
  "echo_target dst = Inet4 (case to4 (parseIP dst) of Some a \<Rightarrow> a | None \<Rightarrow> [0, 0, 0, 0]) 0"

definition echo_session :: "nat \<Rightarrow> kernel \<Rightarrow> string \<Rightarrow> int \<Rightarrow> (byte \<times> nat) res io" where
  "echo_session fuel K dst fd =
     State_Monad.bind (os_ignore K (SetNonblock fd)) (\<lambda>_.
     try_io (wrap_io ''sendto'' (os_unit K (Sendto fd echo_request (echo_target dst)))) (\<lambda>_.
     State_Monad.bind (os_now K) (\<lambda>now. echo_poll fuel K fd (now + 5000000000))))"

definition icmpPingTest :: "nat \<Rightarrow> kernel \<Rightarrow> string \<Rightarrow> (byte \<times> nat) res io" where
  "icmpPingTest fuel K dst =
     try_io (wrap_io ''socket'' (os_int K (Socket 2 3 IPPROTO_ICMP))) (\<lambda>fd.
     defer_io (os_ignore K (CloseFd fd)) (echo_session fuel K dst fd))"

interpretation echo_wait: poll_loop echo_poll match_echo no_echo "Wrap ''recvfrom''" 100000000
  by unfold_locales (simp_all add: match_echo_def Let_def)

lemmas only_echo_poll [only_intros] = echo_wait.only_loop

lemma grows_echo_session [only_intros]: "grows (echo_session fuel K dst fd)"
  unfolding echo_session_def by (auto intro!: only_intros)

lemma grows_icmpPingTest [only_intros]: "grows (icmpPingTest fuel K dst)"
  unfolding icmpPingTest_def by (auto intro!: only_intros)

text \<open>With a running clock the test returns, whatever arrives.\<close>

lemma icmpPingTest_returns:
  assumes "clocked K clock" "5000000000 < int fuel"
  shows "result (icmpPingTest fuel K dst) h \<noteq> Hang"
proof -
  have l: "result (State_Monad.bind (os_now K) (\<lambda>now. echo_poll fuel K fd (now + 5000000000))) h \<noteq> Hang" for fd h
    using assms clocked_Now [OF assms(1), of h "RInt (clock h)"] echo_wait.loop_returns [OF assms(1), of _ _ fuel]
    by (auto simp: clocked_now [OF assms(1)])
  have "result (echo_session fuel K dst fd) h \<noteq> Hang" for fd h
    unfolding echo_session_def result_bind by (rule try_returns [OF _ l]) (simp add: wrap_err_Hang)
  then show ?thesis unfolding icmpPingTest_def by (intro try_returns) (simp_all add: wrap_err_Hang)
qed

definition echo_reply :: "bytes \<Rightarrow> byte \<Rightarrow> nat \<Rightarrow> bool" where
  "echo_reply pkt ttl n \<longleftrightarrow> 28 \<le> length pkt \<and> (let icmp = drop (4 * unat (pkt ! 0 AND 0x0f)) pkt in
     8 \<le> length icmp \<and> icmp ! 0 = 0 \<and> take 2 (drop 4 icmp) = take 2 (drop 4 echo_request) \<and> n = length icmp \<and> ttl = pkt ! 8)"

lemma echo_request_fields:
  "icmpChecksum echo_request = 0" "echo_request ! 0 = 8" "take 2 (drop 4 echo_request) = be16 ident" "length echo_request = 22"
  by code_simp+

lemma match_echo_reply: "match_echo pkt = Ok (Some (ttl, n)) \<Longrightarrow> echo_reply pkt ttl n"
  by (auto simp: match_echo_def echo_reply_def echo_request_fields Let_def mult.commute split: if_splits)

lemma echo_session_sound:
  assumes "result (echo_session fuel K dst fd) h = Ok (ttl, n)"
  shows "Sendto fd echo_request (echo_target dst) \<in> set (made (echo_session fuel K dst fd) h)
    \<and> (\<exists>pkt. (Recvfrom fd 1500, RBytes pkt) \<in> set (events (echo_session fuel K dst fd) h) \<and> echo_reply pkt ttl n)"
proof -
  let ?nb = "os_ignore K (SetNonblock fd)" and ?to = "wrap_io ''sendto'' (os_unit K (Sendto fd echo_request (echo_target dst)))"
  let ?w = "State_Monad.bind (os_now K) (\<lambda>now. echo_poll fuel K fd (now + 5000000000))"
  let ?h = "after ?nb h"
  have g: "grows ?w" "grows ?to" by (intro only_intros; simp)+
  have ok: "result ?to ?h = Ok ()" "result ?w (after ?to ?h) = Ok (ttl, n)"
    using assms unfolding echo_session_def result_bind result_try_Ok by auto
  have ev: "events (echo_session fuel K dst fd) h = events ?nb h @ events ?to ?h @ events ?w (after ?to ?h)"
  proof -
    have "events (echo_session fuel K dst fd) h = events ?nb h @ events (try_io ?to (\<lambda>_. ?w)) ?h"
      unfolding echo_session_def by (rule events_bind_grows) (use g in \<open>auto intro!: only_intros\<close>)
    also have "events (try_io ?to (\<lambda>_. ?w)) ?h = events ?to ?h @ events ?w (after ?to ?h)"
      by (rule events_try_Ok [OF g(2,1) ok(1)])
    finally show ?thesis .
  qed
  let ?hn = "after (os_now K) (after ?to ?h)" and ?d = "result (os_now K) (after ?to ?h) + 5000000000"
  have w: "events ?w (after ?to ?h) = events (os_now K) (after ?to ?h) @ events (echo_poll fuel K fd ?d) ?hn"
    by (rule events_bind_grows) (intro only_intros; simp)+
  have "result (echo_poll fuel K fd ?d) ?hn = Ok (ttl, n)" using ok(2) unfolding result_bind .
  from echo_wait.loop_sound [OF this] show ?thesis
    unfolding made_def ev w using match_echo_reply by fastforce
qed

text \<open>When the echo test reports a reply, it has sent one echo request with a
  correct checksum to the address it was given, and received on the same socket an ICMP echo reply with
  the identifier of the request, whose time to live and length it reports; its last act is to close
  the socket.\<close>

lemma icmpPingTest_sound:
  assumes "result (icmpPingTest fuel K dst) h = Ok (ttl, n)"
  shows "\<exists>fd pkt. (Socket 2 3 IPPROTO_ICMP, RInt fd) \<in> set (events (icmpPingTest fuel K dst) h)
    \<and> Sendto fd echo_request (echo_target dst) \<in> set (made (icmpPingTest fuel K dst) h)
    \<and> echo_request ! 0 = 8 \<and> icmpChecksum echo_request = 0
    \<and> (Recvfrom fd 1500, RBytes pkt) \<in> set (events (icmpPingTest fuel K dst) h) \<and> echo_reply pkt ttl n
    \<and> last (made (icmpPingTest fuel K dst) h) = CloseFd fd"
proof -
  obtain fd r where fd: "K h (Socket 2 3 IPPROTO_ICMP) = RInt fd"
      "result (echo_session fuel K dst fd) (h @ [(Socket 2 3 IPPROTO_ICMP, RInt fd)]) = Ok (ttl, n)"
      "events (icmpPingTest fuel K dst) h = (Socket 2 3 IPPROTO_ICMP, RInt fd) #
         events (echo_session fuel K dst fd) (h @ [(Socket 2 3 IPPROTO_ICMP, RInt fd)]) @ [(CloseFd fd, r)]"
    using opened_closed [OF assms [unfolded icmpPingTest_def] grows_echo_session] unfolding icmpPingTest_def by blast
  then show ?thesis using echo_session_sound [OF fd(2)] echo_request_fields by (auto simp: made_def)
qed

text \<open>A packet whose header length points beyond its end makes the test panic.\<close>

lemma long_header_panics:
  "length pkt = 28 \<Longrightarrow> pkt ! 0 = 0x4F \<Longrightarrow> match_echo pkt = Panic"
  by (simp add: match_echo_def Let_def)


section \<open>The loopback round trip\<close>

definition loopback_payload :: string where "loopback_payload = ''asterkube-ping''"

definition loopbackRoundTrip :: "kernel \<Rightarrow> unit res io" where
  "loopbackRoundTrip K =
     try_io (wrap_io ''bind'' (os_int K (ListenOn ''udp'' [127, 0, 0, 1] 0))) (\<lambda>fd.
     defer_io (os_ignore K (CloseFd fd)) (
       State_Monad.bind (os K (Getsockname fd)) (\<lambda>self.
       try_io (wrap_io ''send'' (os_unit K (WriteTo fd loopback_payload (case self of RFrom s a \<Rightarrow> a | _ \<Rightarrow> Inet4 [127, 0, 0, 1] 0)))) (\<lambda>_.
       State_Monad.bind (os_now K) (\<lambda>now.
       State_Monad.bind (os_ignore K (SetDeadline fd (now + 2000000000))) (\<lambda>_.
       try_io (wrap_io ''receive'' (os_from K (ReadFrom fd (length loopback_payload)))) (\<lambda>(got, from).
       if got \<noteq> loopback_payload then err_io (Text ''payload mismatch'') else ok_io ())))))))"

lemma grows_loopbackRoundTrip [only_intros]: "grows (loopbackRoundTrip K)"
  unfolding loopbackRoundTrip_def by (auto intro!: only_intros)

end
