(* ===== verification/KernelProbes.thy ===== *)
theory KernelProbes
  imports SecurityProbes Icmp
begin

text \<open>
  The probes that report what the kernel supports: control groups and namespaces (\<open>probe_linux.go\<close>), the
  netfilter sockets (\<open>netfilter_probe_linux.go\<close>), interpreters of scripts (\<open>shebang_probe_linux.go\<close>),
  outbound connections (\<open>wan_linux.go\<close>) and the address of the API server (\<open>clusterip_probe_linux.go\<close>). The
  walk over a netlink datagram may not end: it has fuel, and running out of it is the result \<open>Hang\<close>.
\<close>

unbundle bit_operations_syntax

section \<open>Control groups\<close>

datatype enforcement = Enforced | NotEnforced | Inconclusive

definition probeBindPortEnv :: string where "probeBindPortEnv = ''ASTERKUBE_BIND_PORT''"
definition probeMemCgroupEnv :: string where "probeMemCgroupEnv = ''ASTERKUBE_MEM_CGROUP''"
definition probeMemMBEnv :: string where "probeMemMBEnv = ''ASTERKUBE_MEM_MB''"
definition probeCPUCgroupEnv :: string where "probeCPUCgroupEnv = ''ASTERKUBE_CPU_CGROUP''"
definition probeCPUMsEnv :: string where "probeCPUMsEnv = ''ASTERKUBE_CPU_MS''"

text \<open>The output of a child and whether it succeeded; a child that hangs is killed and waited for two
  seconds longer. What it had printed until then is only printed.\<close>

definition combinedOutputTimeout :: "kernel \<Rightarrow> proc_attr \<Rightarrow> int \<Rightarrow> (string \<times> bool) io" where
  "combinedOutputTimeout K a d =
     State_Monad.bind (os_as as_output K (RunOutput a d)) (\<lambda>r. case snd r of
         None \<Rightarrow> State_Monad.return (fst r)
       | Some pid \<Rightarrow>
           State_Monad.bind (os_ignore K (Kill pid SIGKILL)) (\<lambda>_.
           State_Monad.bind (os_ignore K (WaitFor pid 2000000000)) (\<lambda>_. State_Monad.return (fst r))))"

definition probe_child :: "string list \<Rightarrow> string list \<Rightarrow> proc_attr" where
  "probe_child environ vars = command [''/proc/self/exe''] (environ @ [setting probeChildEnv ''1''] @ vars) []"

definition runBurn :: "kernel \<Rightarrow> string list \<Rightarrow> string \<Rightarrow> int \<Rightarrow> int io" where
  "runBurn K environ cgroup ms =
     State_Monad.bind (combinedOutputTimeout K (probe_child environ [setting probeCPUCgroupEnv cgroup, setting probeCPUMsEnv (itoa ms)]) (seconds 10)) (\<lambda>r.
     State_Monad.return (if \<not> snd r then - 1 else case scan_number (trimSpace (fst r)) of Some work \<Rightarrow> work | None \<Rightarrow> - 1))"

text \<open>The quotient of Go on int64: the product may wrap, the division truncates.\<close>

definition ratio_pct :: "int \<Rightarrow> int \<Rightarrow> int" where
  "ratio_pct throttled base =
     (let p = sint (word_of_int (throttled * 100) :: 64 word) in if p \<ge> 0 then p div base else - ((- p) div base))"

definition cputest_cgroup :: string where "cputest_cgroup = ''/sys/fs/cgroup/asterkube.cputest''"
definition memtest_cgroup :: string where "memtest_cgroup = ''/sys/fs/cgroup/asterkube.memtest''"

definition inconclusive :: "'a res io \<Rightarrow> ('a \<Rightarrow> enforcement res io) \<Rightarrow> enforcement res io" where
  "inconclusive m f = attempt m Inconclusive f"

definition cpuEnforcementTest :: "kernel \<Rightarrow> string list \<Rightarrow> enforcement res io" where
  "cpuEnforcementTest K environ =
     inconclusive (os_unit K (WriteFile ''/sys/fs/cgroup/cgroup.subtree_control'' ''+cpu'' 0)) (\<lambda>_.
     inconclusive (os_unit K (Mkdir cputest_cgroup)) (\<lambda>_.
     defer_io (os_ignore K (Remove cputest_cgroup)) (
     inconclusive (os_unit K (WriteFile (cputest_cgroup @ ''/cpu.max'') ''10000 100000'' 0)) (\<lambda>_.
     State_Monad.bind (runBurn K environ ''none'' 1000) (\<lambda>base.
     State_Monad.bind (runBurn K environ cputest_cgroup 1000) (\<lambda>throttled.
     ok_io (if base \<le> 0 \<or> throttled < 0 then Inconclusive
            else if ratio_pct throttled base < 35 then Enforced else NotEnforced)))))))"

text \<open>The child of the CPU test: it counts rounds until the time is over.\<close>

fun burn_loop :: "nat \<Rightarrow> kernel \<Rightarrow> int \<Rightarrow> 64 word \<Rightarrow> 64 word res io" where
  "burn_loop 0 K deadline work = State_Monad.return Hang"
| "burn_loop (Suc fuel) K deadline work =
     State_Monad.bind (os_now K) (\<lambda>now.
     if now \<ge> deadline then ok_io work else burn_loop fuel K deadline (work + 1))"

definition join_cgroup :: "kernel \<Rightarrow> string \<Rightarrow> unit res io" where
  "join_cgroup K cgroup =
     State_Monad.bind (os_as id_of K Getpid) (\<lambda>pid. os_unit K (WriteFile (cgroup @ ''/cgroup.procs'') (itoa pid) 0))"

definition cpuBurn :: "nat \<Rightarrow> kernel \<Rightarrow> string \<Rightarrow> string \<Rightarrow> string res io" where
  "cpuBurn fuel K cgroup msStr =
     attempt (if cgroup \<noteq> ''none'' then join_cgroup K cgroup else ok_io ()) ''-1'' (\<lambda>_.
     State_Monad.bind (os_now K) (\<lambda>now.
     try_io (burn_loop fuel K (now + (case scan_number msStr of Some ms \<Rightarrow> ms | None \<Rightarrow> 1000) * 1000000) 0) (\<lambda>work.
     ok_io (nat_digits (unat work)))))"

definition memEnforcementTest :: "kernel \<Rightarrow> string list \<Rightarrow> enforcement res io" where
  "memEnforcementTest K environ =
     inconclusive (os_unit K (Mkdir memtest_cgroup)) (\<lambda>_.
     defer_io (os_ignore K (Remove memtest_cgroup)) (
     inconclusive (os_unit K (WriteFile (memtest_cgroup @ ''/memory.max'') (nat_digits (32 * 2 ^ 20)) 0)) (\<lambda>_.
     State_Monad.bind (combinedOutputTimeout K
         (probe_child environ [setting probeMemCgroupEnv memtest_cgroup, setting probeMemMBEnv ''128'']) (seconds 10)) (\<lambda>r.
     ok_io (if snd r then NotEnforced else Enforced)))))"

text \<open>The child of the memory test; touching the pages is not a call.\<close>

definition memHog :: "kernel \<Rightarrow> string \<Rightarrow> string \<Rightarrow> string res io" where
  "memHog K cgroup mb =
     attempt (join_cgroup K cgroup) ''join failed'' (\<lambda>_.
     let n = (case scan_number mb of Some n \<Rightarrow> n | None \<Rightarrow> 128) in
     if n < 0 then State_Monad.return Panic else ok_io (''survived allocating '' @ itoa n @ ''MiB''))"

definition cgroup_root :: string where "cgroup_root = ''/sys/fs/cgroup''"

text \<open>Whether the memory limit could be written and what was read back.\<close>

definition probeCgroupV2 :: "kernel \<Rightarrow> string option res io" where
  "probeCgroupV2 K =
     (let child = cgroup_root @ ''/asterkube.probe'' in
      attempt (os_data K (ReadFile (cgroup_root @ ''/cgroup.controllers''))) None (\<lambda>_.
      State_Monad.bind (os_ignore K (ReadFile (cgroup_root @ ''/cgroup.subtree_control''))) (\<lambda>_.
      attempt (os_unit K (Mkdir child)) None (\<lambda>_.
      State_Monad.bind (os_ignore K (WriteFile (cgroup_root @ ''/cgroup.subtree_control'') ''+memory'' 0)) (\<lambda>_.
      State_Monad.bind (os_ignore K (ReadDir child)) (\<lambda>_.
      State_Monad.bind (os_unit K (WriteFile (child @ ''/memory.max'') ''104857600'' 0)) (\<lambda>w.
      State_Monad.bind (if is_ok w
          then State_Monad.bind (readFileString K (child @ ''/memory.max'')) (\<lambda>got. State_Monad.return (Some (trimSpace got)))
          else State_Monad.return None) (\<lambda>got.
      State_Monad.bind (os_ignore K (Remove child)) (\<lambda>_. ok_io got)))))))))"


section \<open>Namespaces\<close>

definition namespaceKinds :: "(string \<times> mflags) list" where
  "namespaceKinds =
     [(''mount (CLONE_NEWNS)'', CLONE_NEWNS), (''uts (CLONE_NEWUTS)'', CLONE_NEWUTS), (''ipc (CLONE_NEWIPC)'', CLONE_NEWIPC),
      (''pid (CLONE_NEWPID)'', CLONE_NEWPID), (''net (CLONE_NEWNET)'', CLONE_NEWNET), (''user (CLONE_NEWUSER)'', CLONE_NEWUSER),
      (''cgroup (CLONE_NEWCGROUP)'', CLONE_NEWCGROUP)]"

definition testNamespace :: "kernel \<Rightarrow> string list \<Rightarrow> mflags \<Rightarrow> bool io" where
  "testNamespace K environ flag =
     State_Monad.bind (combinedOutputTimeout K ((probe_child environ [])\<lparr>pa_flags := flag\<rparr>) (seconds 10)) (\<lambda>r.
     State_Monad.return (snd r))"

definition probeNamespaces :: "kernel \<Rightarrow> string list \<Rightarrow> (string \<times> bool) list io" where
  "probeNamespaces K environ =
     State_Monad.bind (os_ignore K (ReadDir ''/proc/self/ns'')) (\<lambda>_.
     State_Monad.traverse_list (\<lambda>ns.
       State_Monad.bind (testNamespace K environ (snd ns)) (\<lambda>ok. State_Monad.return (fst ns, ok))) namespaceKinds)"

definition tryBindUDP :: "kernel \<Rightarrow> nat \<Rightarrow> string io" where
  "tryBindUDP K port =
     State_Monad.bind (os_int K (ListenOn ''udp'' [127, 0, 0, 1] port)) (\<lambda>r. case r of
         Ok fd \<Rightarrow> State_Monad.bind (os_ignore K (CloseFd fd)) (\<lambda>_. State_Monad.return (''bound 127.0.0.1:'' @ nat_digits port))
       | _ \<Rightarrow> State_Monad.return ''error: '')"

definition isolation_port :: nat where "isolation_port = 54321"

definition netnsIsolationTest :: "kernel \<Rightarrow> string list \<Rightarrow> enforcement res io" where
  "netnsIsolationTest K environ =
     inconclusive (os_int K (ListenOn ''udp'' [127, 0, 0, 1] isolation_port)) (\<lambda>held.
     defer_io (os_ignore K (CloseFd held)) (
     State_Monad.bind (combinedOutputTimeout K
         ((probe_child environ [setting probeBindPortEnv (nat_digits isolation_port)])\<lparr>pa_flags := CLONE_NEWNET\<rparr>) (seconds 10)) (\<lambda>r.
     ok_io (if \<not> snd r then Inconclusive
            else if hasPrefix (trimSpace (fst r)) ''bound'' then Enforced
            else if contains (trimSpace (fst r)) ''in use'' then NotEnforced else Inconclusive))))"

definition probeKernel :: "nat \<Rightarrow> kernel \<Rightarrow> string list \<Rightarrow> unit res io" where
  "probeKernel fuel K environ =
     State_Monad.bind (os_ignore K (ReadFile ''/proc/filesystems'')) (\<lambda>_.
     try_io (probeCgroupV2 K) (\<lambda>_.
     State_Monad.bind (probeNamespaces K environ) (\<lambda>_.
     ignore_io (loopbackRoundTrip K) (
     ignore_io (icmpPingTest fuel K ''127.0.0.1'') (
     ignore_io (icmpPingTest fuel K ''10.0.2.15'') (
     ignore_io (icmpPingTest fuel K ''10.0.2.2'') (
     try_io (netnsIsolationTest K environ) (\<lambda>_.
     try_io (memEnforcementTest K environ) (\<lambda>_.
     try_io (cpuEnforcementTest K environ) (\<lambda>_. ok_io ()))))))))))"



section \<open>Netfilter\<close>

definition netlinkNetfilter :: nat where "netlinkNetfilter = 12"
definition nfnlSubsysNftables :: "16 word" where "nfnlSubsysNftables = 10"
definition nftMsgGetTable :: "16 word" where "nftMsgGetTable = 1"
definition nftMsgGetGen :: "16 word" where "nftMsgGetGen = 16"

definition nlMsg :: "16 word \<Rightarrow> 16 word \<Rightarrow> 32 word \<Rightarrow> bytes \<Rightarrow> bytes" where
  "nlMsg msgType flags seq payload =
     (let l = 16 + length payload; b = replicate l 0;
          b = copy_range 0 4 (le32 (of_nat l)) b;
          b = copy_range 4 6 (le16 msgType) b;
          b = copy_range 6 8 (le16 flags) b;
          b = copy_range 8 12 (le32 seq) b;
          b = copy_range 12 16 (le32 0) b
      in copy_range 16 l payload b)"

definition nlTypeName :: "16 word \<Rightarrow> string" where
  "nlTypeName t = (if t = 2 then ''NLMSG_ERROR/ack'' else if t = 3 then ''NLMSG_DONE''
     else if t = (push_bit 8 10 OR 15) then ''NFT_MSG_NEWGEN'' else [])"

text \<open>The walk over the messages of a datagram of \<open>n\<close> bytes: the length and the type of each. The length is
  rounded up to a multiple of four in 32 bits.\<close>

definition nl_advance :: "32 word \<Rightarrow> nat" where
  "nl_advance l = unat ((l + 3) AND NOT 3)"

fun nl_walk :: "nat \<Rightarrow> bytes \<Rightarrow> nat \<Rightarrow> nat \<Rightarrow> (32 word \<times> 16 word) list res" where
  "nl_walk 0 buf n off = Hang"
| "nl_walk (Suc fuel) buf n off =
     (if \<not> off + 16 \<le> n then Ok []
      else let l = get_le32 (drop off buf); t = get_le16 (drop (off + 4) buf) in
        if l < 16 then Ok [(l, t)]
        else case nl_walk fuel buf n (off + nl_advance l) of Ok ms \<Rightarrow> Ok ((l, t) # ms) | r \<Rightarrow> r)"

definition reportNlReply :: "nat \<Rightarrow> kernel \<Rightarrow> int \<Rightarrow> (32 word \<times> 16 word) list res io" where
  "reportNlReply fuel K fd =
     State_Monad.bind (os_bytes K (Recvfrom fd 8192)) (\<lambda>r. case r of
         Ok d \<Rightarrow> State_Monad.return (nl_walk fuel (d @ replicate (8192 - length d) 0) (length d) 0)
       | _ \<Rightarrow> ok_io [])"

definition nf_request :: "16 word \<Rightarrow> 16 word \<Rightarrow> 32 word \<Rightarrow> bytes" where
  "nf_request msg flags seq = nlMsg (push_bit 8 nfnlSubsysNftables OR msg) flags seq [0, 0, 0, 0]"

definition probeNetfilter :: "nat \<Rightarrow> kernel \<Rightarrow> unit res io" where
  "probeNetfilter fuel K =
     attempt (os_int K (Socket 16 3 netlinkNetfilter)) () (\<lambda>fd.
     defer_io (os_ignore K (CloseFd fd)) (
     State_Monad.bind (os_ignore K (Setsockopt fd 1 20 3)) (\<lambda>_.
     attempt (os_unit K (Sendto fd (nf_request nftMsgGetGen (NLM_F_REQUEST OR NLM_F_ACK) 1) NetlinkAddr)) () (\<lambda>_.
     try_io (reportNlReply fuel K fd) (\<lambda>_.
     attempt (os_unit K (Sendto fd (nf_request nftMsgGetTable (NLM_F_REQUEST OR NLM_F_DUMP) 2) NetlinkAddr)) () (\<lambda>_.
     try_io (reportNlReply fuel K fd) (\<lambda>_. ok_io ())))))))"


section \<open>Scripts and connections\<close>

definition shebang_script :: string where "shebang_script = ''/tmp/sb-test.sh''"

definition probeShebang :: "kernel \<Rightarrow> string list \<Rightarrow> bool option res io" where
  "probeShebang K environ =
     attempt (os_data K Executable) None (\<lambda>self.
     State_Monad.bind (os_unit K (Symlink self ''/usr/bin/shebang-probe'')) (\<lambda>l.
     if \<not> is_ok l \<and> l \<noteq> Err (Errno EEXIST) then ok_io None
     else attempt (os_unit K (WriteFile shebang_script (''#!/usr/bin/shebang-probe'' @ nl) 493)) None (\<lambda>_.
       State_Monad.bind (run_child K ((command [''sb-short-argv0''] environ [])\<lparr>pa_path := shebang_script\<rparr>)) (\<lambda>r.
       ok_io (Some (contains (trimSpace (snd r)) shebang_script))))))"

definition http_request :: string where
  "http_request = ''GET / HTTP/1.0'' @ [CHR 0x0D, CHR 0x0A] @ ''Host: asterkube'' @ [CHR 0x0D, CHR 0x0A, CHR 0x0D, CHR 0x0A]"

definition slirp_host :: bytes where "slirp_host = [10, 0, 2, 2]"

text \<open>An exchange over a connection, at most \<open>limit\<close> bytes of the answer.\<close>

definition exchange :: "kernel \<Rightarrow> int \<Rightarrow> nat \<Rightarrow> string option io" where
  "exchange K conn limit =
     State_Monad.bind (os_now K) (\<lambda>now.
     State_Monad.bind (os_ignore K (SetDeadline conn (now + seconds 8))) (\<lambda>_.
     State_Monad.bind (os_unit K (WriteFd conn http_request)) (\<lambda>w.
     if \<not> is_ok w then State_Monad.return None
     else os_as (\<lambda>r. case r of RData s \<Rightarrow> Some (take limit s) | _ \<Rightarrow> Some []) K (ReadFd conn))))"

definition probeOutboundTLS :: "kernel \<Rightarrow> bool res io" where
  "probeOutboundTLS K =
     attempt (os_int K (Dial ''tcp'' slirp_host 18443)) False (\<lambda>conn.
     State_Monad.bind (os_unit K (Handshake conn)) (\<lambda>hs.
     if \<not> is_ok hs then State_Monad.bind (os_ignore K (CloseFd conn)) (\<lambda>_. ok_io False)
     else defer_io (os_ignore K (CloseFd conn)) (
       State_Monad.bind (exchange K conn 256) (\<lambda>got. ok_io (got \<noteq> None)))))"

definition outbound_session :: "kernel \<Rightarrow> bool res io" where
  "outbound_session K =
     attempt (os_int K (Dial ''tcp'' slirp_host 18080)) False (\<lambda>conn.
     defer_io (os_ignore K (CloseFd conn)) (
     State_Monad.bind (exchange K conn 512) (\<lambda>got. case got of
         None \<Rightarrow> ok_io False
       | Some buf \<Rightarrow> if buf = [] then ok_io False else probeOutboundTLS K)))"

text \<open>Whether connections with and without TLS work.\<close>

definition probeOutboundTCP :: "nat \<Rightarrow> kernel \<Rightarrow> bool \<Rightarrow> bool res io" where
  "probeOutboundTCP fuel K networkConfigured =
     attempt (nlOpen K) False (\<lambda>s.
     defer_io (nlClose K s) (
     attempt (linkIndexByName fuel K s ''eth0'') False (\<lambda>idx.
     if networkConfigured then outbound_session K
     else attempt (addAddrV4 fuel K (nl_bump s) idx (ipv4 10 0 2 15) 24) False (\<lambda>_.
       attempt (addDefaultRouteV4 fuel K (nl_bump (nl_bump s)) (ipv4 10 0 2 2) idx) False (\<lambda>_.
       outbound_session K)))))"

definition apiserverClusterIP :: "bytes \<times> nat" where
  "apiserverClusterIP = ([10, 96, 0, 1], 443)"

fun cluster_attempts :: "nat \<Rightarrow> kernel \<Rightarrow> bool option io" where
  "cluster_attempts 0 K = State_Monad.return None"
| "cluster_attempts (Suc n) K =
     State_Monad.bind (os_int K (Dial ''tcp'' (fst apiserverClusterIP) (snd apiserverClusterIP))) (\<lambda>r. case r of
         Ok conn \<Rightarrow>
           State_Monad.bind (os_now K) (\<lambda>now.
           State_Monad.bind (os_ignore K (SetDeadline conn (now + seconds 5))) (\<lambda>_.
           State_Monad.bind (os_unit K (Handshake conn)) (\<lambda>h.
           State_Monad.bind (os_ignore K (CloseFd conn)) (\<lambda>_. State_Monad.return (Some (is_ok h))))))
       | _ \<Rightarrow> State_Monad.bind (os_ignore K (Sleep 3000000000)) (\<lambda>_. cluster_attempts n K))"

text \<open>Whether the TLS handshake worked too, if the address could be reached.\<close>

definition probeNodeClusterIP :: "kernel \<Rightarrow> bool option io" where
  "probeNodeClusterIP K = cluster_attempts 12 K"



section \<open>Walking over a datagram\<close>

lemma nlMsg_frame:
  "nlMsg msgType flags seq payload = nl_frame \<lparr>nm_type = msgType, nm_flags = flags, nm_seq = seq, nm_pid = 0, nm_data = payload\<rparr>"
  by (simp add: nlMsg_def nl_frame_def nlmsgHdrLen_def Let_def)

lemma unat_and_not_3: "unat (a AND NOT 3 :: 32 word) = unat a div 4 * 4"
proof -
  have "Suc (Suc (n - 2)) = n" if "2 \<le> n" for n :: nat using that by simp
  then have "a AND NOT (mask 2) = push_bit 2 (drop_bit 2 a)"
    by (intro bit_word_eqI) (auto simp: bit_simps)
  then have "a AND NOT 3 = (a div 4) * 4" by (simp add: mask_eq_exp_minus_1 push_bit_eq_mult drop_bit_eq_div)
  moreover have "unat a div 4 * 4 < 2 ^ 32"
  proof -
    have "unat a < 2 ^ LENGTH(32)" by (rule unsigned_less)
    then show ?thesis by simp
  qed
  ultimately show ?thesis by (simp add: unat_word_ariths unat_div)
qed

lemma nl_advance_unat: "nl_advance l = (unat l + 3) mod 2 ^ 32 div 4 * 4"
  unfolding nl_advance_def unat_and_not_3 by (simp add: unat_word_ariths)

text \<open>A length wraps around when it is rounded up; then the walk does not move.\<close>

definition wrapping :: "32 word \<Rightarrow> bool" where
  "wrapping l \<longleftrightarrow> 2 ^ 32 \<le> unat l + 3"

lemma advance_wrapping: "wrapping l \<Longrightarrow> nl_advance l = 0"
proof -
  assume "wrapping l"
  moreover have "unat l < 2 ^ LENGTH(32)" by (rule unsigned_less)
  ultimately have "(unat l + 3) mod 2 ^ 32 < 4" by (simp add: wrapping_def mod_if) arith
  then show ?thesis by (simp add: nl_advance_unat)
qed

lemma advance_forward: "\<not> wrapping l \<Longrightarrow> unat l \<le> nl_advance l"
  by (simp add: wrapping_def nl_advance_unat)

lemma nl_walk_returns:
  assumes "\<And>off. off + 16 \<le> n \<Longrightarrow> \<not> wrapping (get_le32 (drop off buf))" "n < off + fuel" "0 < fuel"
  shows "\<exists>ms. nl_walk fuel buf n off = Ok ms"
  using assms(2,3)
proof (induction fuel arbitrary: off)
  case (Suc fuel)
  let ?l = "get_le32 (drop off buf)"
  show ?case
  proof (cases "off + 16 \<le> n \<and> \<not> ?l < 16")
    case True
    then have "16 \<le> unat ?l" by (simp add: word_less_nat_alt)
    then have "16 \<le> nl_advance ?l" using advance_forward [OF assms(1)] True le_trans by blast
    then obtain ms where "nl_walk fuel buf n (off + nl_advance ?l) = Ok ms"
      using Suc.IH [of "off + nl_advance ?l"] Suc.prems True by fastforce
    then show ?thesis using True by (simp add: Let_def)
  qed (auto simp: Let_def)
qed simp

text \<open>A datagram that starts with a length that wraps around keeps init in this loop forever.\<close>

lemma nl_walk_endless: "16 \<le> n \<Longrightarrow> wrapping (get_le32 buf) \<Longrightarrow> nl_walk fuel buf n 0 = Hang"
proof (induction fuel)
  case (Suc fuel)
  have "\<not> get_le32 buf < 16" using Suc.prems(2) by (simp add: wrapping_def word_less_nat_alt)
  then show ?case using Suc by (simp add: Let_def advance_wrapping)
qed simp

text \<open>The walk from the start of the message at \<open>pre\<close>.\<close>

lemma nl_walk_frames:
  assumes "\<forall>m \<in> set ms. frame_ok m" "length ms < fuel"
  shows "nl_walk fuel (pre @ concat (map nl_frame ms) @ pad) (length pre + length (concat (map nl_frame ms))) (length pre) =
    Ok (map (\<lambda>m. (of_nat (16 + length (nm_data m)), nm_type m)) ms)"
  using assms
proof (induction ms arbitrary: fuel pre)
  case Nil
  then show ?case by (cases fuel) simp_all
next
  case (Cons m ms)
  then obtain k where k: "fuel = Suc k" "length ms < k" by (cases fuel) auto
  let ?n = "16 + length (nm_data m)" and ?rest = "concat (map nl_frame ms) @ pad"
  have ok: "frame_ok m" using Cons.prems by simp
  have len: "unat (of_nat ?n :: 32 word) = ?n" by (rule unat_of_nat_len) (use ok in \<open>simp add: frame_ok_def\<close>)
  have l: "get_le32 (nl_frame m @ ?rest) = of_nat ?n" "get_le16 (drop 4 (nl_frame m @ ?rest)) = nm_type m"
    by (simp_all add: nl_frame_eq)
  have "4 dvd ?n" "?n + 3 < 2 ^ 32" using ok by (auto simp: frame_ok_def)
  then have adv: "nl_advance (of_nat ?n) = ?n" unfolding nl_advance_unat len by (auto elim!: dvdE)
  have big: "\<not> (of_nat ?n :: 32 word) < 16" unfolding word_less_nat_alt len by simp
  have IH: "nl_walk k ((pre @ nl_frame m) @ ?rest) (length (pre @ nl_frame m) + length (concat (map nl_frame ms))) (length (pre @ nl_frame m)) =
      Ok (map (\<lambda>m. (of_nat (16 + length (nm_data m)), nm_type m)) ms)"
    by (rule Cons.IH) (use Cons.prems k in auto)
  show ?case using IH l big adv unfolding k by (simp add: Let_def add.assoc)
qed


text \<open>The walk over a datagram of well-formed messages, as they are framed for the
  requests too, reports the length and the type of each message, in their order.\<close>

lemma netfilter_walk_reads:
  assumes "\<forall>m \<in> set ms. frame_ok m"
  shows "nl_walk (length ms + 1) (concat (map nl_frame ms) @ pad) (length (concat (map nl_frame ms))) 0 =
    Ok (map (\<lambda>m. (of_nat (16 + length (nm_data m)), nm_type m)) ms)"
  using nl_walk_frames [OF assms, of "length ms + 1" "[]" pad] by simp





section \<open>Control groups are removed\<close>

text \<open>Directories made less directories removed.\<close>

definition dir_change :: "call \<times> reply \<Rightarrow> int" where
  "dir_change e = (case fst e of Mkdir p \<Rightarrow> if as_unit (snd e) = Ok () then 1 else 0 | Remove p \<Rightarrow> - 1 | _ \<Rightarrow> 0)"

definition no_dir :: "call \<Rightarrow> bool" where
  "no_dir c \<longleftrightarrow> (case c of Mkdir p \<Rightarrow> False | Remove p \<Rightarrow> False | _ \<Rightarrow> True)"

lemmas level_dirs = preorder_level [of dir_change]

lemma dirs_os: "no_dir c \<Longrightarrow> keeps (level dir_change) (os_as f K c)" "no_dir c \<Longrightarrow> keeps (level dir_change) (os_ignore K c)"
proof -
  assume "no_dir c"
  then have "dir_change (c, r) = 0" for r by (cases c) (simp_all add: no_dir_def dir_change_def)
  then show "keeps (level dir_change) (os_as f K c)" "keeps (level dir_change) (os_ignore K c)" by (intro keeps_os; simp add: level_def)+
qed

lemmas dirs_rules = keeps_structure [OF level_dirs] keeps_attempt [OF level_dirs] keeps_if [of _ "level dir_change"]
  keeps_res [of "level dir_change"] keeps_option [of "level dir_change"] dirs_os

lemma dirs_output: "keeps (level dir_change) (combinedOutputTimeout K a d)"
  unfolding combinedOutputTimeout_def by (intro dirs_rules; simp add: no_dir_def)


text \<open>A child that cannot even be started counts as one that the limit has killed.\<close>

lemma unstartable_counts_as_enforced:
  assumes "\<And>h a d. K h (RunOutput a d) = RErr ENOENT" "\<And>h p. K h (Mkdir p) = RUnit" "\<And>h p s m. K h (WriteFile p s m) = RUnit"
  shows "result (memEnforcementTest K environ) h = Ok Enforced"
  by (simp add: memEnforcementTest_def inconclusive_def attempt_def combinedOutputTimeout_def as_output_def assms)

end
