(* ===== verification/PodContainer.thy ===== *)
theory PodContainer
  imports Bridges Icmp
begin

text \<open>
  What runs inside a pod: \<open>runContainer\<close> of \<open>node.go\<close> with the tests of the pod's network, and the
  roles of \<open>service_linux.go\<close> and \<open>masq_linux.go\<close> that it dispatches to. The environment of the process
  is the function \<open>env\<close>. A test prints its outcome; here an outcome is a value, and \<open>logged\<close> goes on after
  it. The goroutines of a service backend run under the scheduler parameter \<open>par\<close>.
\<close>

section \<open>Services in a pod\<close>

definition pod_addr :: "string \<Rightarrow> bytes" where
  "pod_addr podIP = (case parseIP podIP of Some a \<Rightarrow> a | None \<Rightarrow> [])"

definition tcp_job :: "int \<Rightarrow> job" where
  "tcp_job ln K = logged (defer_io (os_ignore K (CloseFd ln)) (serviceBackendTCP K ln)) (\<lambda>_. ok_io None)"

definition udp_job :: "nat \<Rightarrow> string \<Rightarrow> int \<Rightarrow> job" where
  "udp_job fuel podIP port K = try_io (serviceBackendUDPEndpoint fuel K podIP port) (\<lambda>served. ok_io (Some (served > 0)))"

definition serviceBackend :: "nat \<Rightarrow> scheduler \<Rightarrow> kernel \<Rightarrow> getenv \<Rightarrow> string \<Rightarrow> unit res io" where
  "serviceBackend fuel par K env podIP =
     State_Monad.bind (os_int K (ListenOn ''tcp'' (pod_addr podIP) (nat (backendListenPort env + 1)))) (\<lambda>r.
     par ((case r of Ok ln \<Rightarrow> [tcp_job ln] | _ \<Rightarrow> []) @ map (udp_job fuel podIP) (udpEndpointPorts env)) K)"

definition containerServiceTest :: "nat \<Rightarrow> scheduler \<Rightarrow> kernel \<Rightarrow> getenv \<Rightarrow> string \<Rightarrow> unit res io" where
  "containerServiceTest fuel par K env podIP =
     (let role = env svcRoleEnv in
      if role = ''backend'' then serviceBackend fuel par K env podIP
      else if role = ''client'' then logged (serviceClient K env) (\<lambda>_. logged (serviceClientTCP K env) ok_io)
      else if role = ''kpbackend'' then logged (kpBackend fuel K env podIP) ok_io
      else if role = ''kpclient'' then logged (kpClient K env) ok_io
      else err_io (Text ''unknown role''))"

definition containerMasqTest :: "kernel \<Rightarrow> getenv \<Rightarrow> string \<Rightarrow> unit res io" where
  "containerMasqTest K env podIP =
     (if env masqRoleEnv = ''server'' then logged (masqServer K env podIP) ok_io
      else if env masqRoleEnv = ''client'' then logged (masqClient K env) ok_io
      else err_io (Text ''unknown role''))"


section \<open>Pods and their peers\<close>

definition bridgeUDPPort :: nat where "bridgeUDPPort = 9998"

text \<open>\<open>bytes.Compare(a, b) < 0\<close>\<close>

fun bytes_less :: "bytes \<Rightarrow> bytes \<Rightarrow> bool" where
  "bytes_less (a # as) (b # bs) = (a < b \<or> a = b \<and> bytes_less as bs)"
| "bytes_less [] (b # bs) = True"
| "bytes_less as [] = False"

text \<open>Up to \<open>n\<close> echo tests, two seconds apart.\<close>

fun ping_retry :: "nat \<Rightarrow> nat \<Rightarrow> kernel \<Rightarrow> string \<Rightarrow> (byte \<times> nat) res io" where
  "ping_retry 0 fuel K dst = err_io (Text [])"
| "ping_retry (Suc n) fuel K dst = State_Monad.bind (icmpPingTest fuel K dst) (\<lambda>r. case r of
       Err e \<Rightarrow> if n = 0 then err_io e
               else State_Monad.bind (os_ignore K (Sleep 2000000000)) (\<lambda>_. ping_retry n fuel K dst)
     | _ \<Rightarrow> State_Monad.return r)"

definition podUDPReceive :: "kernel \<Rightarrow> int \<Rightarrow> string res io" where
  "podUDPReceive K conn =
     State_Monad.bind (set_deadline K conn 12000000000) (\<lambda>_.
     try_io (wrap_io ''receive'' (os_from K (ReadFrom conn 128))) (\<lambda>(msg, from). ok_io msg))"

text \<open>The remaining attempts, and whether one has succeeded so far.\<close>

fun udp_sends :: "nat \<Rightarrow> kernel \<Rightarrow> bytes \<Rightarrow> bool \<Rightarrow> bool io" where
  "udp_sends 0 K peer sent = State_Monad.return sent"
| "udp_sends (Suc n) K peer sent =
     State_Monad.bind (os_int K (Dial ''udp'' peer bridgeUDPPort)) (\<lambda>r.
     State_Monad.bind (case r of
         Ok conn \<Rightarrow>
           State_Monad.bind (os_unit K (WriteFd conn ''bridged-hello'')) (\<lambda>w.
           State_Monad.bind (os_ignore K (CloseFd conn)) (\<lambda>_. State_Monad.return (sent \<or> is_ok w)))
       | _ \<Rightarrow> State_Monad.return sent) (\<lambda>sent'.
     State_Monad.bind (if n = 0 then State_Monad.return () else os_ignore K (Sleep 1000000000)) (\<lambda>_.
     udp_sends n K peer sent')))"

definition podUDPSend :: "kernel \<Rightarrow> bytes \<Rightarrow> unit res io" where
  "podUDPSend K peer =
     State_Monad.bind (udp_sends 10 K peer False) (\<lambda>sent. if sent then ok_io () else err_io (Text ''failed to send''))"

definition containerPeerTest :: "nat \<Rightarrow> kernel \<Rightarrow> string \<Rightarrow> string \<Rightarrow> unit res io" where
  "containerPeerTest fuel K podIP peerIP = (case (to4 (parseIP podIP), to4 (parseIP peerIP)) of
       (Some me, Some peer) \<Rightarrow>
         if bytes_less me peer
         then State_Monad.bind (os_int K (ListenOn ''udp'' me bridgeUDPPort)) (\<lambda>c. case c of
             Ok conn \<Rightarrow>
               defer_io (os_ignore K (CloseFd conn)) (
                 logged (ping_retry 3 fuel K peerIP) (\<lambda>_. logged (podUDPReceive K conn) ok_io))
           | _ \<Rightarrow> logged (ping_retry 3 fuel K peerIP) ok_io)
         else logged (ping_retry 3 fuel K peerIP) (\<lambda>_. logged (podUDPSend K peer) ok_io)
     | _ \<Rightarrow> err_io (Text ''parse addresses''))"

definition containerCrossPingTest :: "nat \<Rightarrow> kernel \<Rightarrow> string \<Rightarrow> (byte \<times> nat) res io" where
  "containerCrossPingTest fuel K crossIP = ping_retry 6 fuel K crossIP"


section \<open>The container\<close>

text \<open>\<open>fmt.Sscanf(s, "%d", &n)\<close>, which leaves \<open>n\<close> alone when there is no number.\<close>

definition scan_token :: "string \<Rightarrow> string" where
  "scan_token s = (case dropWhile (\<lambda>c. c = CHR '' '' \<or> c = CHR 0x09) s of
       [] \<Rightarrow> []
     | c # t \<Rightarrow> if c = CHR ''+'' \<or> c = CHR ''-'' then c # takeWhile is_digit t else takeWhile is_digit (c # t))"

definition scan_int :: "string \<Rightarrow> int \<Rightarrow> int" where
  "scan_int s d = (case atoi (scan_token s) of Some n \<Rightarrow> n | None \<Rightarrow> d)"

definition wait_byte :: "kernel \<Rightarrow> int \<Rightarrow> unit io" where
  "wait_byte K fd = State_Monad.bind (os_ignore K (ReadFd fd)) (\<lambda>_. os_ignore K (CloseFd fd))"

text \<open>The default route over the host's end of the veth, then an echo test of that end.\<close>

definition gateway_test :: "nat \<Rightarrow> kernel \<Rightarrow> nlSocket \<Rightarrow> int \<Rightarrow> string \<Rightarrow> (unit \<Rightarrow> 'a res io) \<Rightarrow> 'a res io" where
  "gateway_test fuel K s idx gw rest =
     (if gw = [] then rest ()
      else logged (try_io (addDefaultRouteV4 fuel K s (parseIP gw) idx) (\<lambda>_. defaultRouteGateway fuel K (nl_bump s))) (\<lambda>_.
        logged (icmpPingTest fuel K gw) rest))"

definition unless_empty :: "string \<Rightarrow> (string \<Rightarrow> 'b res io) \<Rightarrow> (unit \<Rightarrow> 'a res io) \<Rightarrow> 'a res io" where
  "unless_empty v test rest = (if v = [] then rest () else logged (test v) rest)"

text \<open>Listen, tell the node, and wait for its datagram.\<close>

definition await_host :: "kernel \<Rightarrow> string \<Rightarrow> string res io" where
  "await_host K podIP =
     try_io (wrap_io ''bind'' (os_int K (ListenOn ''udp'' (pod_addr podIP) vethUDPPort))) (\<lambda>conn.
     defer_io (os_ignore K (CloseFd conn)) (
       State_Monad.bind (os_ignore K (WriteFd 4 [CHR 0x01])) (\<lambda>_.
       State_Monad.bind (os_ignore K (CloseFd 4)) (\<lambda>_.
       State_Monad.bind (set_deadline K conn 5000000000) (\<lambda>_.
       try_io (wrap_io ''no host datagram'' (os_from K (ReadFrom conn 128))) (\<lambda>(msg, from). ok_io msg))))))"

definition veth_tests :: "nat \<Rightarrow> scheduler \<Rightarrow> kernel \<Rightarrow> getenv \<Rightarrow> string \<Rightarrow> nlSocket \<Rightarrow> int \<Rightarrow> string res io" where
  "veth_tests fuel par K env podIP s idx =
     gateway_test fuel K s idx (env hostIPEnv) (\<lambda>_.
     unless_empty (env peerIPEnv) (containerPeerTest fuel K podIP) (\<lambda>_.
     unless_empty (env svcRoleEnv) (\<lambda>_. containerServiceTest fuel par K env podIP) (\<lambda>_.
     unless_empty (env crossPingEnv) (containerCrossPingTest fuel K) (\<lambda>_.
     unless_empty (env masqRoleEnv) (\<lambda>_. containerMasqTest K env podIP) (\<lambda>_.
     await_host K podIP)))))"

definition containerVethTest :: "nat \<Rightarrow> scheduler \<Rightarrow> kernel \<Rightarrow> getenv \<Rightarrow> string \<Rightarrow> string res io" where
  "containerVethTest fuel par K env podIP =
     State_Monad.bind (wait_byte K 5) (\<lambda>_.
     try_io (wrap_io ''open netlink'' (nlOpen K)) (\<lambda>s.
     defer_io (nlClose K s) (
       try_io (wrap_io ''find eth0'' (linkIndexByName fuel K s ''eth0'')) (\<lambda>idx.
       try_io (wrap_io ''assign'' (addAddrV4 fuel K (nl_bump s) idx (parseIP podIP) (scan_int (env vethPrefxEnv) 24))) (\<lambda>_.
       veth_tests fuel par K env podIP (nl_bump (nl_bump s)) idx)))))"

text \<open>The checksum that the workload of an ordinary pod computes.\<close>

definition containerWorkload :: "64 word" where
  "containerWorkload = fold (\<lambda>i acc. acc * 1664525 + 1013904223 + of_nat i) [0..<5000000] 0"

definition set_hostname :: "kernel \<Rightarrow> getenv \<Rightarrow> unit io" where
  "set_hostname K env =
     (if env podHostnameEnv = [] then State_Monad.return () else os_ignore K (Sethostname (env podHostnameEnv)))"

definition container_body :: "nat \<Rightarrow> scheduler \<Rightarrow> kernel \<Rightarrow> getenv \<Rightarrow> unit res io" where
  "container_body fuel par K env =
     logged (loopbackRoundTrip K) (\<lambda>_.
     unless_empty (env podIPEnv) (containerVethTest fuel par K env) (\<lambda>_.
     unless_empty (env tenantProbeIPEnv) (tenantConnectProbe K) ok_io))"

definition runContainer :: "nat \<Rightarrow> scheduler \<Rightarrow> kernel \<Rightarrow> getenv \<Rightarrow> unit res io" where
  "runContainer fuel par K env =
     State_Monad.bind (wait_byte K 3) (\<lambda>_.
     State_Monad.bind (containerSetTenant K env) (\<lambda>_.
     State_Monad.bind (set_hostname K env) (\<lambda>_.
     State_Monad.bind (os_ignore K GetHostname) (\<lambda>_.
     State_Monad.bind (os_ignore K Getpid) (\<lambda>_.
     container_body fuel par K env)))))"

section \<open>Histories only grow\<close>

lemma grows_clients [only_intros]:
  "grows (serviceClient K env)" "grows (serviceClientTCP K env)" "grows (kpClient K env)" "grows (masqClient K env)"
proof -
  have t: "grows (tcp_exchange K a p m)" for a p m
    unfolding tcp_exchange_def set_deadline_def by (auto intro!: only_intros)
  have "grows (kp_sends sends K a p n got)" for sends a p n got
    by (induction n arbitrary: got) (auto simp: kpClientOnce_def intro!: only_intros t split: res.splits)
  then show "grows (kpClient K env)" unfolding kpClient_def by (auto intro!: only_intros split: option.splits)
  show "grows (serviceClient K env)" unfolding serviceClient_def by (auto intro!: only_intros split: option.splits simp del: client_sends.simps)
  show "grows (serviceClientTCP K env)" unfolding serviceClientTCP_def by (auto intro!: only_intros t split: option.splits)
  show "grows (masqClient K env)" unfolding masqClient_def masq_exchange_def set_deadline_def
    by (auto intro!: only_intros split: option.splits)
qed

lemma grows_backends [only_intros]:
  "grows (serviceBackendTCP K ln)" "grows (serviceBackendUDPEndpoint fuel K podIP port)" "grows (kpBackend fuel K env podIP)"
  "grows (masqServer K env podIP)"
proof -
  show "grows (serviceBackendTCP K ln)" unfolding serviceBackendTCP_def set_deadline_def by (auto intro!: only_intros)
  have "grows (udp_serve fuel K fd served)" for fd served
    by (induction fuel arbitrary: served) (auto simp: set_deadline_def intro!: only_intros split: res.splits)
  then show "grows (serviceBackendUDPEndpoint fuel K podIP port)"
    unfolding serviceBackendUDPEndpoint_def by (auto intro!: only_intros split: res.splits)
  have "grows (kp_serve fuel K podIP ln served)" for ln served
    by (induction fuel arbitrary: served) (auto simp: set_deadline_def intro!: only_intros split: res.splits)
  then show "grows (kpBackend fuel K env podIP)"
    unfolding kpBackend_def set_deadline_def by (auto intro!: only_intros)
  show "grows (masqServer K env podIP)" unfolding masqServer_def set_deadline_def by (auto intro!: only_intros)
qed

lemma grows_ping_retry [only_intros]: "grows (ping_retry n fuel K dst)"
  by (induction n) (auto intro!: only_intros split: res.splits)

lemma grows_peers [only_intros]:
  "grows (containerPeerTest fuel K podIP peerIP)" "grows (containerMasqTest K env podIP)" "grows (await_host K podIP)"
proof -
  have u: "grows (udp_sends n K peer sent)" for n peer sent
    by (induction n arbitrary: sent) (auto intro!: only_intros split: res.splits)
  show "grows (containerPeerTest fuel K podIP peerIP)"
    unfolding containerPeerTest_def podUDPReceive_def podUDPSend_def set_deadline_def
    by (auto intro!: only_intros u split: option.splits res.splits simp del: udp_sends.simps)
  show "grows (containerMasqTest K env podIP)" unfolding containerMasqTest_def by (auto intro!: only_intros)
  show "grows (await_host K podIP)" unfolding await_host_def set_deadline_def by (auto intro!: only_intros)
qed

lemma grows_unless_empty [only_intros]:
  "(\<And>v. grows (test v)) \<Longrightarrow> (\<And>u. grows (rest u)) \<Longrightarrow> grows (unless_empty v test rest)"
  unfolding unless_empty_def by (intro only_intros) auto

lemma grows_concurrent:
  assumes "concurrent par" "\<And>j K. j \<in> set jobs \<Longrightarrow> grows (j K)"
  shows "grows (par jobs K)"
  unfolding only_def using assms unfolding concurrent_def by (metis UNIV_I)

lemma grows_serviceBackend [only_intros]:
  assumes "concurrent par"
  shows "grows (serviceBackend fuel par K env podIP)"
  unfolding serviceBackend_def
  by (intro only_bind only_os_as grows_concurrent [OF assms])
     (auto simp: tcp_job_def udp_job_def intro!: only_intros split: res.splits)

lemma quiet_route [only_intros]:
  "only quiet (addDefaultRouteV4 fuel K s gw idx)" "only quiet (defaultRouteGateway fuel K s)"
  unfolding addDefaultRouteV4_def defaultRouteGateway_def nl_transact_def recvAck_def nl_dump_def
  by (auto intro!: only_intros split: option.splits)

lemma grows_netlink [only_intros]:
  "grows (nlOpen K)" "grows (nlClose K s)" "grows (linkIndexByName fuel K s name)" "grows (addAddrV4 fuel K s idx a p)"
  "grows (addDefaultRouteV4 fuel K s gw idx)" "grows (defaultRouteGateway fuel K s)"
  by (rule grows_quiet, rule only_intros)+

lemma grows_container_body:
  assumes "concurrent par"
  shows "grows (container_body fuel par K env)"
proof -
  have svc: "grows (containerServiceTest fuel par K env podIP)" for podIP
    unfolding containerServiceTest_def Let_def by (intro only_intros grows_serviceBackend [OF assms])
  have "grows (veth_tests fuel par K env podIP s idx)" for podIP s idx
    unfolding veth_tests_def gateway_test_def containerCrossPingTest_def by (intro only_intros svc)
  then have "grows (containerVethTest fuel par K env podIP)" for podIP
    unfolding containerVethTest_def wait_byte_def by (intro only_intros) simp_all
  moreover have "grows (tenantConnectProbe K target)" for target
    unfolding tenantConnectProbe_def by (auto intro!: only_intros split: res.splits)
  ultimately show ?thesis unfolding container_body_def by (intro only_intros)
qed

section \<open>Roles of a pair of pods\<close>

lemma bytes_less_total: "length xs = length ys \<Longrightarrow> xs \<noteq> ys \<Longrightarrow> bytes_less xs ys \<longleftrightarrow> \<not> bytes_less ys xs"
  by (induction xs ys rule: list_induct2) auto

definition is_listen :: "call \<Rightarrow> bool" where
  "is_listen c = (case c of ListenOn net a p \<Rightarrow> True | _ \<Rightarrow> False)"

lemma is_listen_simps [simp]:
  "is_listen (ListenOn net a p)" "\<not> is_listen (CloseFd fd)" "\<not> is_listen (Sleep d)" "\<not> is_listen Now" "\<not> is_listen (Dial net a p)"
  "\<not> is_listen (WriteFd fd s)" "\<not> is_listen (ReadFrom fd n)" "\<not> is_listen (SetDeadline fd tm)" "\<not> is_listen (Socket domain kind proto)"
  "\<not> is_listen (Sendto fd b to)" "\<not> is_listen (Recvfrom fd n)" "\<not> is_listen (SetNonblock fd)"
  by (simp_all add: is_listen_def)

lemma unbound_steps:
  "only (\<lambda>c. \<not> is_listen c) (ping_retry n fuel K dst)" "only (\<lambda>c. \<not> is_listen c) (podUDPReceive K conn)"
  "only (\<lambda>c. \<not> is_listen c) (podUDPSend K peer)"
proof -
  have "only (\<lambda>c. \<not> is_listen c) (icmpPingTest fuel K dst)"
    unfolding icmpPingTest_def echo_session_def by (auto intro!: only_intros)
  then show "only (\<lambda>c. \<not> is_listen c) (ping_retry n fuel K dst)"
    by (induction n) (auto intro!: only_intros split: res.splits)
  show "only (\<lambda>c. \<not> is_listen c) (podUDPReceive K conn)"
    unfolding podUDPReceive_def set_deadline_def by (auto intro!: only_intros)
  have "only (\<lambda>c. \<not> is_listen c) (udp_sends n K peer sent)" for n sent
    by (induction n arbitrary: sent) (auto intro!: only_intros split: res.splits)
  then show "only (\<lambda>c. \<not> is_listen c) (podUDPSend K peer)"
    unfolding podUDPSend_def by (auto intro!: only_intros)
qed

lemma peer_test_binds:
  assumes "to4 (parseIP podIP) = Some me" "to4 (parseIP peerIP) = Some peer"
  shows "if bytes_less me peer
    then \<exists>cs. made (containerPeerTest fuel K podIP peerIP) h = ListenOn ''udp'' me bridgeUDPPort # cs
    else list_all (\<lambda>c. \<not> is_listen c) (made (containerPeerTest fuel K podIP peerIP) h)"
proof (cases "bytes_less me peer")
  case True
  let ?k = "\<lambda>c. case c of
             Ok conn \<Rightarrow> defer_io (os_ignore K (CloseFd conn)) (logged (ping_retry 3 fuel K peerIP) (\<lambda>_. logged (podUDPReceive K conn) ok_io))
           | _ \<Rightarrow> logged (ping_retry 3 fuel K peerIP) ok_io"
  have g: "grows (?k c)" for c
    unfolding podUDPReceive_def set_deadline_def by (auto intro!: only_intros split: res.splits simp del: ping_retry.simps)
  have "made (containerPeerTest fuel K podIP peerIP) h = made (State_Monad.bind (os_int K (ListenOn ''udp'' me bridgeUDPPort)) ?k) h"
    by (simp add: containerPeerTest_def assms True)
  then show ?thesis using True g by (simp add: made_bind_grows only_intros)
next
  case False
  have "only (\<lambda>c. \<not> is_listen c) (containerPeerTest fuel K podIP peerIP)"
    unfolding containerPeerTest_def by (simp add: assms False) (intro only_intros unbound_steps)
  then show ?thesis using False only_made by (fastforce simp: list_all_iff)
qed

text \<open>Of two bridged pods with different addresses that test each other, exactly
  one binds the port of the test, the one with the lower address, and it does so before anything
  else, so that no datagram of the other is lost.\<close>

lemma peer_roles:
  assumes "to4 (parseIP a) = Some x" "to4 (parseIP b) = Some y" "x \<noteq> y"
  shows "(\<exists>cs. made (containerPeerTest fuel K a b) h = ListenOn ''udp'' x bridgeUDPPort # cs
        \<and> list_all (\<lambda>c. \<not> is_listen c) (made (containerPeerTest fuel K' b a) h'))
    \<noteq> (\<exists>cs. made (containerPeerTest fuel K' b a) h' = ListenOn ''udp'' y bridgeUDPPort # cs
        \<and> list_all (\<lambda>c. \<not> is_listen c) (made (containerPeerTest fuel K a b) h))"
proof -
  have "bytes_less x y \<longleftrightarrow> \<not> bytes_less y x"
    using assms to4_length by (intro bytes_less_total) metis+
  then show ?thesis
    using peer_test_binds [OF assms(1,2), of fuel K h] peer_test_binds [OF assms(2,1), of fuel K' h'] by (auto split: if_splits)
qed


section \<open>Nothing runs outside its control group\<close>

definition self_label :: "getenv \<Rightarrow> call list" where
  "self_label env = (case atoi (env podTenantEnv) of
       Some n \<Rightarrow> given (n > 0) [Prctl prAsterkubeSetTenant n 0 0 0]
     | None \<Rightarrow> [])"

lemma containerSetTenant_run [simp]:
  "made (containerSetTenant K env) h = self_label env" "grows (containerSetTenant K env)"
proof -
  show g: "grows (containerSetTenant K env)"
    unfolding containerSetTenant_def prctlSetTenant_def by (auto intro!: only_intros split: option.splits)
  show "made (containerSetTenant K env) h = self_label env"
    by (cases "atoi (env podTenantEnv)")
       (simp_all add: containerSetTenant_def prctlSetTenant_def self_label_def given_def made_bind_grows only_intros)
qed

lemma runContainer_made:
  assumes "concurrent par"
  shows "\<exists>cs. made (runContainer fuel par K env) h = [ReadFd 3, CloseFd 3] @ self_label env @ cs"
proof -
  have w: "grows (wait_byte K 3)" "made (wait_byte K 3) h = [ReadFd 3, CloseFd 3]" for h
    unfolding wait_byte_def by (auto simp: made_bind_grows only_intros intro!: only_intros)
  let ?rest = "State_Monad.bind (set_hostname K env) (\<lambda>_. State_Monad.bind (os_ignore K GetHostname) (\<lambda>_.
     State_Monad.bind (os_ignore K Getpid) (\<lambda>_. container_body fuel par K env)))"
  have g: "grows ?rest"
    unfolding set_hostname_def by (intro only_intros grows_container_body [OF assms]) simp_all
  have "made (runContainer fuel par K env) h =
      made (wait_byte K 3) h @ made (State_Monad.bind (containerSetTenant K env) (\<lambda>_. ?rest)) (after (wait_byte K 3) h)"
    unfolding runContainer_def by (intro made_bind_grows w(1) only_bind g) (auto intro!: only_intros)
  also have "made (State_Monad.bind (containerSetTenant K env) (\<lambda>_. ?rest)) (after (wait_byte K 3) h) =
      self_label env @ made ?rest (after (containerSetTenant K env) (after (wait_byte K 3) h))"
    using g by (simp add: made_bind_grows)
  finally show ?thesis by (simp add: w(2))
qed

text \<open>A run of the node and of the container side by side: \<open>Inl\<close> marks a call of the node, \<open>Inr\<close> one of the
  container. The pipe between them: the read that the container starts with does not return before
  the node has written.\<close>

definition pipe_blocks :: "(call + call) list \<Rightarrow> bool" where
  "pipe_blocks tr \<longleftrightarrow> (\<forall>before after. tr = before @ Inr (ReadFd 3) # after \<and> list_all isl before \<longrightarrow>
     (\<exists>fd s. Inl (WriteFd fd s) \<in> set before))"

lemma two_sides:
  "interleaving xss tr \<Longrightarrow> xss = [map Inl xs, map Inr ys] \<Longrightarrow>
   filter isl tr = map Inl xs \<and> filter (\<lambda>e. \<not> isl e) tr = map Inr ys"
proof (induction arbitrary: xs ys rule: interleaving.induct)
  case (Step i xss x xs' tr)
  then consider "i = 0" | "i = 1" by fastforce
  then show ?case
  proof cases
    case 1
    then obtain z zs where "xs = z # zs" "x = Inl z" "xs' = map Inl zs" using Step.hyps(2) Step.prems by auto
    then show ?thesis using Step.IH [of zs ys] Step.prems 1 by simp
  next
    case 2
    then obtain z zs where "ys = z # zs" "x = Inr z" "xs' = map Inr zs" using Step.hyps(2) Step.prems by auto
    then show ?thesis using Step.IH [of xs zs] Step.prems 2 by simp
  qed
qed (auto simp: list_all_iff)

lemma before_first:
  assumes "A @ w # B = zs @ rest" "w' \<in> set zs" "\<forall>a \<in> set A. \<not> P a" "P w'"
  shows "set A \<subseteq> set zs"
proof (cases "length A \<le> length zs")
  case True
  then have "A = take (length A) zs" using assms(1) by (metis append_eq_append_conv_if)
  then show ?thesis by (metis set_take_subset)
next
  case False
  then have "zs = take (length zs) A" using assms(1) by (metis append_eq_append_conv_if nat_le_linear)
  then have "w' \<in> set A" using assms(2) by (metis in_set_takeD)
  then show ?thesis using assms(3,4) by blast
qed

lemma first_right: "\<exists>ls c' rest. es @ [Inr c] = ls @ Inr c' # rest \<and> list_all isl ls"
proof (induction es)
  case Nil
  then show ?case by (intro exI [of _ "[]"] exI [of _ c]) simp
next
  case (Cons e es)
  show ?case
  proof (cases e)
    case (Inl l)
    from Cons obtain ls c' rest where "es @ [Inr c] = ls @ Inr c' # rest" "list_all isl ls" by blast
    then show ?thesis using Inl by (intro exI [of _ "Inl l # ls"] exI [of _ c'] exI [of _ rest]) simp
  next
    case (Inr r)
    then show ?thesis by (intro exI [of _ "[]"] exI [of _ r] exI [of _ "es @ [Inr c]"]) simp
  qed
qed

text \<open>C11 (confined from the first instruction): however the calls of the node that launches a pod and of
  the pod's container interleave, every call of the container comes after the limits were set and its
  process was moved into its control group; and the container labels itself with its tenant before
  it does anything else.\<close>

theorem pod_confined:
  assumes "concurrent par" "result (startPodContainer K spec netEnv) h = Ok (Some ph)"
    and "interleaving [map Inl (made (startPodContainer K spec netEnv) h), map Inr (made (runContainer fuel par K' env) h')] tr"
    and "pipe_blocks tr"
  shows "(\<forall>before c later. tr = before @ Inr c # later \<longrightarrow>
      Inl ` set (limit_calls spec @ [WriteFile (pod_cgroup spec @ ''/cgroup.procs'') (itoa (h_pid ph)) 0]) \<subseteq> set before)
    \<and> (\<exists>cs. made (runContainer fuel par K' env) h' = [ReadFd 3, CloseFd 3] @ self_label env @ cs)"
proof (intro conjI allI impI)
  fix before c later assume tr: "tr = before @ Inr c # later"
  let ?node = "made (startPodContainer K spec netEnv) h" and ?pod = "made (runContainer fuel par K' env) h'"
  let ?join = "WriteFile (pod_cgroup spec @ ''/cgroup.procs'') (itoa (h_pid ph)) 0"
  obtain syncR syncW extra where node: "?node = (Mkdir (pod_cgroup spec) # limit_calls spec @ MakePipe # replicate (veth_pipes spec) MakePipe @
      [StartProcess (pod_process spec netEnv (syncR # extra)), CloseFd syncR] @ map CloseFd extra @ [?join]) @
      WriteFd syncW [CHR 0x01] # [CloseFd syncW]" (is "_ = ?A @ _")
    using startPodContainer_outcome [of K spec netEnv h] assms(2) by (auto simp: launched_def release_calls_def)
  obtain cs where pod: "?pod = ReadFd 3 # cs" using runContainer_made [OF assms(1)] by fastforce
  note sides = two_sides [OF assms(3) refl]
  from first_right [of before c] obtain b1 c1 b2 where first: "before @ [Inr c] = b1 @ Inr c1 # b2" "list_all isl b1"
    by (elim exE conjE)
  have "tr = (before @ [Inr c]) @ later" by (simp add: tr)
  then have tr1: "tr = b1 @ Inr c1 # b2 @ later" unfolding first(1) by simp
  then have "filter (\<lambda>e. \<not> isl e) tr = Inr c1 # filter (\<lambda>e. \<not> isl e) (b2 @ later)" using first(2) by (simp add: list_all_iff)
  then have "c1 = ReadFd 3" using sides pod by simp
  then obtain fd s where w: "Inl (WriteFd fd s) \<in> set b1" using assms(4) tr1 first(2) unfolding pipe_blocks_def by blast
  have b1: "set b1 \<subseteq> set before" using first(1) by (cases b2 rule: rev_cases) auto
  have "map Inl ?node = filter isl b1 @ filter isl (b2 @ later)" using sides by (simp add: tr1)
  then have split: "map Inl ?A @ Inl (WriteFd syncW [CHR 0x01]) # [Inl (CloseFd syncW)] = filter isl b1 @ filter isl (b2 @ later)"
    unfolding node by simp
  have none: "\<forall>a \<in> set (map Inl ?A). \<not> (\<exists>fd s. a = Inl (WriteFd fd s))"
    by (auto simp: limit_calls_def given_def)
  have "Inl (WriteFd fd s) \<in> set (filter isl b1)" using w by simp
  from before_first [OF split this none] have "set (map Inl ?A) \<subseteq> set (filter isl b1)" by blast
  then show "Inl ` set (limit_calls spec @ [?join]) \<subseteq> set before" using b1 by auto
qed (rule runContainer_made [OF assms(1)])

text \<open>A pod of the demonstration whose node runs to the end before the container is scheduled.\<close>

definition launching :: kernel where
  "launching h c = (case c of MakePipe \<Rightarrow> RInts 8 9 | _ \<Rightarrow> RInt 7)"

definition plain_pod :: podSpec where
  "plain_pod = pod0\<lparr>Name := ''demo'', Command := [''/usr/bin/kubelet''], Resources := \<lparr>MemoryMaxMiB = 64, CPUMaxPercent = 0\<rparr>\<rparr>"

lemma launching_starts:
  "\<exists>ph. result (startPodContainer launching plain_pod []) [] = Ok (Some ph) \<and> h_pid ph = 7"
  by (simp add: startPodContainer_def pod_limits_def after_pipe_def start_with_pipes_def start_and_release_def close_all_def
      plain_pod_def pod0_def launching_def)

lemma pipe_blocks_sequential:
  assumes "WriteFd fd s \<in> set node"
  shows "pipe_blocks (map Inl node @ map Inr pod)"
  unfolding pipe_blocks_def
proof (intro allI impI, elim conjE)
  fix before after assume eq: "map Inl node @ map Inr pod = before @ Inr (ReadFd 3) # after"
  have "set (map Inl node) \<subseteq> set before"
    using eq by (subst (asm) append_eq_append_conv2) (auto simp: append_eq_Cons_conv map_eq_append_conv)
  then show "\<exists>fd s. Inl (WriteFd fd s) \<in> set before" using assms by auto
qed

theorem pod_confined_witness:
  "Inl (WriteFile ''/sys/fs/cgroup/demo/cgroup.procs'' (itoa 7) 0) \<in>
     set (map Inl (made (startPodContainer launching plain_pod []) []) :: (call + call) list)
   \<and> (\<exists>cs. made (runContainer 1 one_by_one launching (\<lambda>_. [])) [] = [ReadFd 3, CloseFd 3] @ self_label (\<lambda>_. []) @ cs)"
proof -
  let ?node = "made (startPodContainer launching plain_pod []) []" and ?pod = "made (runContainer 1 one_by_one launching (\<lambda>_. [])) []"
  obtain ph where ph: "result (startPodContainer launching plain_pod []) [] = Ok (Some ph)" "h_pid ph = 7"
    using launching_starts by blast
  have w: "\<exists>fd. WriteFd fd [CHR 0x01] \<in> set ?node"
    using startPodContainer_outcome [of launching plain_pod "[]" "[]"] ph(1) by (auto simp: launched_def release_calls_def)
  then have b: "pipe_blocks (map Inl ?node @ map Inr ?pod)" using pipe_blocks_sequential by blast
  have i: "interleaving [map Inl ?node, map Inr ?pod] (map Inl ?node @ map Inr ?pod)"
    using interleaving_concat [of "[map Inl ?node, map Inr ?pod]"] by simp
  note c = pod_confined [OF concurrent_one_by_one ph(1) i b]
  obtain cs where cs: "?pod = ReadFd 3 # cs" using c by fastforce
  have "Inl ` set (limit_calls plain_pod @ [WriteFile (pod_cgroup plain_pod @ ''/cgroup.procs'') (itoa (h_pid ph)) 0])
      \<subseteq> set (map Inl ?node :: (call + call) list)"
    using c [THEN conjunct1, rule_format, of "map Inl ?node" "ReadFd 3" "map Inr cs"] cs by simp
  then show ?thesis using c ph(2) by (auto simp: pod_cgroup_def plain_pod_def)
qed

end
