(* ===== verification/Boot.thy ===== *)
theory Boot
  imports Init KernelProbes PodContainer
begin

text \<open>
  The boot sequence \<open>runAsInit\<close> of \<open>main.go\<close>, which composes the components in the order of the source: the
  mounts, the network, the probes, the container runtime, the node agent, the join and the end of the
  boot; and the self test of the OCI runtime (\<open>oci_selftest_linux.go\<close>). The renewal of the lease runs
  beside the boot and is modelled apart (\<open>renew_round\<close>). \<open>main_program\<close> is the whole of \<open>main\<close>: the dispatch of
  the theory \<open>Init\<close> and the program of each role.

  The section on ownership follows the processes that the node keeps through the whole boot: at its end
  only processes that this boot has started are signalled. The last sections show that the programs the
  binary starts from itself take the roles they are meant for and that parents read what children print.
\<close>

section \<open>The self test of the runtime\<close>

definition octest_dir :: string where "octest_dir = ''/run/octest-bundle''"
definition octest_rootfs :: string where "octest_rootfs = octest_dir @ ''/rootfs''"
definition octest_root :: string where "octest_root = ''/run/octest''"

definition octest_config :: string where
  "octest_config = join_with nl
     [''{'',
      ''  '' @ field_of ''ociVersion'' (quoted ''1.2.0'') @ '','',
      ''  '' @ field_of ''process'' ''{'',
      ''    '' @ field_of ''args'' (json_list [''/init'']) @ '','',
      ''    '' @ field_of ''env'' (json_list [''ASTERKUBE_RUNC_PAYLOAD=1'', ''PATH=/'']) @ '','',
      ''    '' @ field_of ''cwd'' (quoted ''/''),
      ''  },'',
      ''  '' @ field_of ''root'' (''{ '' @ field_of ''path'' (quoted ''rootfs'') @ '' }'') @ '','',
      ''  '' @ field_of ''hostname'' (quoted ''octest'') @ '','',
      ''  '' @ field_of ''mounts'' ''['',
      ''    { '' @ field_of ''destination'' (quoted ''/proc'') @ '', '' @ field_of ''type'' (quoted ''proc'') @ '', '' @
        field_of ''source'' (quoted ''proc'') @ '', '' @
        field_of ''options'' (''['' @ join_with '','' (map quoted [''nosuid'', ''noexec'', ''nodev'']) @ '']'') @ '' }'',
      ''  ],'',
      ''  '' @ field_of ''linux'' ''{'',
      ''    '' @ field_of ''namespaces'' ''['',
      ''      '' @ join_with '', '' (map (\<lambda>t. ''{ '' @ field_of ''type'' (quoted t) @ '' }'') [''pid'', ''mount'', ''uts'', ''ipc'']),
      ''    ],'',
      ''    '' @ field_of ''cgroupsPath'' (quoted ''/asterkube-octest''),
      ''  }'',
      ''}'']"

definition octest_command :: "string list \<Rightarrow> string list" where
  "octest_command cmd = [''--root'', octest_root] @ cmd @ [''octest'']"

text \<open>The four commands; the codes of the last two are ignored.\<close>

definition octest_run :: "rt_env \<Rightarrow> kernel \<Rightarrow> unit res io" where
  "octest_run E K =
     try_io (runOCIRuntime E K (octest_command [''create'', ''--bundle'', octest_dir, ''--pid-file'', octest_dir @ ''/pid''])) (\<lambda>rc.
     if rc \<noteq> 0 then ok_io ()
     else try_io (runOCIRuntime E K (octest_command [''start''])) (\<lambda>rc.
       if rc \<noteq> 0 then ok_io ()
       else State_Monad.bind (os_ignore K (Sleep (seconds 1))) (\<lambda>_.
         try_io (runOCIRuntime E K (octest_command [''state''])) (\<lambda>_.
         try_io (runOCIRuntime E K (octest_command [''delete'', ''--force''])) (\<lambda>_. ok_io ())))))"

definition ociSelfTest :: "rt_env \<Rightarrow> kernel \<Rightarrow> unit res io" where
  "ociSelfTest E K =
     attempt (os_unit K (MkdirAll (octest_rootfs @ ''/proc''))) () (\<lambda>_.
     State_Monad.bind (os_data K Executable) (\<lambda>self.
     let exe = (case self of Ok p \<Rightarrow> p | _ \<Rightarrow> ''/proc/self/exe'') in
     attempt (os_data K (ReadFile exe)) () (\<lambda>data.
     attempt (os_unit K (WriteFile (octest_rootfs @ ''/init'') data 493)) () (\<lambda>_.
     attempt (os_unit K (WriteFile (octest_dir @ ''/config.json'') octest_config 420)) () (\<lambda>_.
     octest_run E K)))))"


section \<open>Boot\<close>

definition join_cluster :: "nat \<Rightarrow> crypto \<Rightarrow> kernel \<Rightarrow> getenv \<Rightarrow> string list \<Rightarrow> bool \<Rightarrow> node_state \<Rightarrow> node_state res io" where
  "join_cluster fuel X K env environ networkConfigured st =
     State_Monad.bind (findJoinBundle K) (\<lambda>found. case found of
         Some dir \<Rightarrow> joinFromBundle fuel K environ networkConfigured dir st
       | None \<Rightarrow>
           if bootArgsConfigured env then bootArgsJoin fuel X K env environ networkConfigured st else ok_io st)"

text \<open>The substrate of the containers: an image without libc tests its own runtime and its static
  containerd, any other image the usual daemons.\<close>

definition runtime_demos :: "nat \<Rightarrow> rt_env \<Rightarrow> kernel \<Rightarrow> getenv \<Rightarrow> string list \<Rightarrow> bool \<Rightarrow> node_state \<Rightarrow> node_state res io" where
  "runtime_demos fuel E K env environ networkConfigured st =
     State_Monad.bind (pureGoMode K) (\<lambda>pure.
     if pure then try_io (ociSelfTest E K) (\<lambda>_. zeroCContainerdTest K (env ''ASTERKUBE_PERSIST'' \<noteq> []) environ st)
     else runContainerRuntimeTests fuel K networkConfigured st)"

definition security_probes :: "kernel \<Rightarrow> string list \<Rightarrow> unit res io" where
  "security_probes K environ =
     State_Monad.bind (runSeccompProbe K environ) (\<lambda>_.
     State_Monad.bind (runMacProbe K environ) (\<lambda>_.
     State_Monad.bind (runFileMacProbe K environ) (\<lambda>_.
     State_Monad.bind (runSocketMacProbe K environ) (\<lambda>_.
     State_Monad.bind (runUsernsProbe K environ) (\<lambda>_.
     State_Monad.bind (runRootlessProbe K environ) (\<lambda>_.
     State_Monad.bind (runUsermapProbe K environ) (\<lambda>_.
     try_io (runVolumeProbe K environ) (\<lambda>_.
     try_io (runSandboxNetnsProbe K environ) (\<lambda>_. ok_io ())))))))))"

text \<open>The boot from the state in which no process is kept to the state that decides its end. The flag
  \<open>networkConfigured\<close> is set exactly when there is a lease.\<close>

definition bring_up :: "nat \<Rightarrow> scheduler \<Rightarrow> crypto \<Rightarrow> rt_env \<Rightarrow> kernel \<Rightarrow> getenv \<Rightarrow> string list \<Rightarrow> node_state res io" where
  "bring_up fuel par X E K env environ =
     State_Monad.bind (mountAll K defaultMounts) (\<lambda>_.
     State_Monad.bind (mountFstab K) (\<lambda>_.
     State_Monad.bind (installMountApplet K) (\<lambda>_.
     try_io (dhcpFirst fuel K ''eth0'') (\<lambda>lease.
     try_io (probeKernel fuel K environ) (\<lambda>_.
     try_io (probeNetfilter fuel K) (\<lambda>_.
     try_io (probeShebang K environ) (\<lambda>_.
     try_io (runtime_demos fuel E K env environ (lease \<noteq> None) \<lparr>clusterJoined = False, liveProcs = []\<rparr>) (\<lambda>st.
     try_io (security_probes K environ) (\<lambda>_.
     try_io (runNodeAgent fuel par K) (\<lambda>_.
     try_io (probeOutboundTCP fuel K (lease \<noteq> None)) (\<lambda>_.
     join_cluster fuel X K env environ (lease \<noteq> None) st)))))))))))"

definition runAsInit :: "nat \<Rightarrow> scheduler \<Rightarrow> crypto \<Rightarrow> rt_env \<Rightarrow> kernel \<Rightarrow> getenv \<Rightarrow> string list \<Rightarrow> unit res io" where
  "runAsInit fuel par X E K env environ =
     try_io (bring_up fuel par X E K env environ) (finish_boot K env)"



section \<open>The program\<close>

text \<open>A role whose program only prints, or returns normally, exits with 0. What a probe child prints is read
  by its parent. A port that is given by name is not resolved.\<close>

definition print_out :: "kernel \<Rightarrow> string \<Rightarrow> int res io" where
  "print_out K s = State_Monad.bind (os_ignore K (WriteFd 1 s)) (\<lambda>_. ok_io 0)"

definition bind_port :: "kernel \<Rightarrow> string \<Rightarrow> string io" where
  "bind_port K port = (case atoi port of
       Some p \<Rightarrow> if 0 \<le> p \<and> p < 2 ^ 16 then tryBindUDP K (nat p) else State_Monad.return ''error: ''
     | None \<Rightarrow> State_Monad.return ''error: '')"

definition probe_child_main :: "nat \<Rightarrow> kernel \<Rightarrow> getenv \<Rightarrow> int res io" where
  "probe_child_main fuel K env =
     (if env probeBindPortEnv \<noteq> [] then State_Monad.bind (bind_port K (env probeBindPortEnv)) (print_out K)
      else if env probeMemCgroupEnv \<noteq> [] then try_io (memHog K (env probeMemCgroupEnv) (env probeMemMBEnv)) (print_out K)
      else if env probeCPUCgroupEnv \<noteq> [] then try_io (cpuBurn fuel K (env probeCPUCgroupEnv) (env probeCPUMsEnv)) (print_out K)
      else State_Monad.bind (os_ignore K Getpid) (\<lambda>_. ignore_io (loopbackRoundTrip K) (ok_io 0)))"

definition euid_report :: "int \<Rightarrow> string" where
  "euid_report n = ''euid='' @ itoa n @ nl"

definition probe_role_main :: "kernel \<Rightarrow> getenv \<Rightarrow> string list \<Rightarrow> string \<Rightarrow> string \<Rightarrow> int res io" where
  "probe_role_main K env environ var mode =
     (if var = seccompProbeEnv then seccompProbeChild K mode
      else if var = macProbeEnv then (if mode = ''main'' then macProbeMain K environ else macProbePeer K)
      else if var = fileMacProbeEnv then (if mode = ''main'' then fileMacProbeMain K environ else fileMacProbePeer K env)
      else if var = socketMacProbeEnv then (if mode = ''main'' then socketMacProbeMain K environ else socketMacProbePeer K)
      else if var = usernsProbeEnv then usernsProbeChild K env
      else if var = rootlessProbeEnv then (if mode = ''unpriv'' then rootlessProbeUnpriv K environ else rootlessProbeUserns K)
      else if var = usermapProbeEnv then (if mode = ''unpriv'' then usermapProbeUnpriv K environ else usermapProbeChild K)
      else if var = suidReportEnv then
        State_Monad.bind (os_as id_of K Geteuid) (\<lambda>euid. print_out K (euid_report euid))
      else if mode = ''hold'' then sandboxProbeHold K else sandboxProbeJoin K env)"

definition shebang_report :: "string list \<Rightarrow> string" where
  "shebang_report argv = ''shebang-probe argv: ['' @ join_with '' '' argv @ '']'' @ nl"

text \<open>The kubelet of this build only prints two lines.\<close>

definition run_role :: "nat \<Rightarrow> scheduler \<Rightarrow> crypto \<Rightarrow> rt_env \<Rightarrow> kernel \<Rightarrow> string list \<Rightarrow> getenv \<Rightarrow> string list \<Rightarrow> role \<Rightarrow> int res io" where
  "run_role fuel par X E K argv env environ r = (case r of
       RuncInit root cid bdir \<Rightarrow> runcInit K root cid bdir
     | OciRuntimeCli args \<Rightarrow> runOCIRuntime E K args
     | MountApplet args \<Rightarrow> State_Monad.bind (runMount K args) ok_io
     | UmountApplet args \<Rightarrow> State_Monad.bind (runUmount K args) ok_io
     | ShebangProbe \<Rightarrow> print_out K (shebang_report argv)
     | Probe var mode \<Rightarrow> probe_role_main K env environ var mode
     | Container \<Rightarrow> try_io (runContainer fuel par K env) (\<lambda>_. ok_io 0)
     | RuncPayload \<Rightarrow> State_Monad.bind (os_ignore K GetHostname) (\<lambda>_. State_Monad.bind (os_ignore K Getpid) (\<lambda>_. ok_io 0))
     | ProbeChild \<Rightarrow> probe_child_main fuel K env
     | Kubelet \<Rightarrow> ok_io 0
     | InitProcess \<Rightarrow> try_io (runAsInit fuel par X E K env environ) (\<lambda>_. ok_io 0))"

definition main_program ::
  "nat \<Rightarrow> scheduler \<Rightarrow> crypto \<Rightarrow> rt_env \<Rightarrow> kernel \<Rightarrow> string list \<Rightarrow> string list \<Rightarrow> int \<Rightarrow> int res io" where
  "main_program fuel par X E K argv environ pid = (case main_role argv (getenv_of environ) pid of
       Ok r \<Rightarrow> run_role fuel par X E K argv (getenv_of environ) environ r
     | Err e \<Rightarrow> State_Monad.return (Err e)
     | Panic \<Rightarrow> State_Monad.return Panic
     | Hang \<Rightarrow> State_Monad.return Hang)"


section \<open>Operations extend the history\<close>

lemma grows_cases [only_intros]:
  "(\<And>a. only P (f a)) \<Longrightarrow> (\<And>e. only P (g e)) \<Longrightarrow> only P m \<Longrightarrow> only P n \<Longrightarrow>
     only P (case r of Ok a \<Rightarrow> f a | Err e \<Rightarrow> g e | Panic \<Rightarrow> m | Hang \<Rightarrow> n)"
  by (cases r) simp_all

lemma grows_ignore [only_intros]: "only P m \<Longrightarrow> only P n \<Longrightarrow> only P (ignore_io m n)"
  unfolding ignore_io_def by (intro only_intros)

lemma grows_runtime_paths [only_intros]: "grows (pureGoMode K)" "grows (path_exists K p)"
proof -
  have "grows (none_exists K ps)" for ps
  proof (induction ps)
    case (Cons p ps)
    then show ?case by (auto intro!: only_intros split: reply.splits)
  qed (simp add: only_intros)
  then show "grows (pureGoMode K)" unfolding pureGoMode_def .
qed (simp add: path_exists_def only_intros)

lemma grows_probe_steps [only_intros]:
  "grows (self_exe K)" "grows (run_child K a)" "grows (run_self K envs)" "grows (start_piped K a)" "grows (read_line K fd)"
  "grows (netnsLink K)" "grows (userNsLink K)" "grows (run_unprivileged K envs)" "grows (joined_sandbox K self environ pid stdout)"
  unfolding self_exe_def run_child_def run_self_def start_piped_def read_line_def netnsLink_def userNsLink_def read_link_def
    run_unprivileged_def joined_sandbox_def Let_def
  by (auto intro!: only_intros split: option.splits)

lemma grows_volumes [only_intros]: "grows (runVolumeProbe K environ)"
  unfolding runVolumeProbe_def volume_bins_def copyExe_def execAsUnprivReportEuid_def Let_def
  by (auto intro!: only_intros)

lemma grows_sandbox [only_intros]: "grows (runSandboxNetnsProbe K environ)"
  unfolding runSandboxNetnsProbe_def by (auto intro!: only_intros split: option.splits)

lemma grows_security_probes [only_intros]: "grows (security_probes K environ)"
  unfolding security_probes_def runSeccompProbe_def runMacProbe_def runFileMacProbe_def runSocketMacProbe_def runUsernsProbe_def
    runRootlessProbe_def runUsermapProbe_def
  by (intro only_intros)


lemma grows_pods [only_intros]: "grows (loadPodManifests K dir)" "grows (runPod fuel K spec)" "grows (run_plain fuel K specs)"
proof -
  show "grows (loadPodManifests K dir)"
    unfolding loadPodManifests_def load_one_def by (auto intro!: only_intros)
  have "grows (createVethPeerNetns fuel K s hn pn pid)" for s hn pn pid
    by (rule grows_quiet) (auto simp: createVethPeerNetns_def nl_transact_def recvAck_def intro!: only_intros)
  then have "grows (hostSetupVeth fuel K spec n pid)" for spec n pid
    unfolding hostSetupVeth_def by (intro only_intros)
  moreover have "grows (signalVethCreated K ph)" for ph
    unfolding signalVethCreated_def by (auto intro!: only_intros split: option.splits)
  ultimately show p: "grows (runPod fuel K spec)" for spec
    unfolding runPod_def by (auto intro!: only_intros split: option.splits)
  show "grows (run_plain fuel K specs)" by (induction specs) (auto intro!: only_intros p)
qed

lemma grows_runNodeAgent:
  assumes "concurrent par"
  shows "grows (runNodeAgent fuel par K)"
proof -
  have "grows (runBridgedPods fuel par K specs)" for specs
    unfolding runBridgedPods_def by (intro only_intros grows_group_body [OF assms])
  then show ?thesis unfolding runNodeAgent_def Let_def by (intro only_intros)
qed

lemma grows_probeOutboundTCP [only_intros]: "grows (probeOutboundTCP fuel K configured)"
proof -
  have e: "grows (exchange K conn n)" for conn n unfolding exchange_def by (intro only_intros) simp_all
  have "grows (probeOutboundTLS K)" unfolding probeOutboundTLS_def by (intro only_intros e) simp_all
  then have "grows (outbound_session K)" unfolding outbound_session_def by (auto intro!: only_intros e split: option.splits)
  then show ?thesis unfolding probeOutboundTCP_def by (intro only_intros)
qed

lemma grows_join_steps [only_intros]:
  "grows (findJoinBundle K)" "grows (parseEnvFile K p)" "grows (configureEth0BestEffort fuel K configured)"
  "grows (node_ip_alias fuel K a)" "grows (installClusterHosts K src)" "grows (bundle_resolv K dir)" "grows (setupCNI K src)"
  "grows (writeBootstrapKubeconfig X K env path apiserver token)" "grows (run_daemons fuel K environ args st)"
proof -
  have b: "grows (isJoinBundle K d)" for d unfolding isJoinBundle_def by (intro only_intros)
  have "grows (find_mounted K ds)" for ds by (induction ds) (auto intro!: only_intros b)
  moreover have "grows (probe_devices K ds)" for ds by (induction ds) (auto intro!: only_intros b)
  ultimately show "grows (findJoinBundle K)"
    unfolding findJoinBundle_def by (auto intro!: only_intros split: option.splits simp del: find_mounted.simps probe_devices.simps)
  show "grows (parseEnvFile K p)" "grows (configureEth0BestEffort fuel K configured)" "grows (node_ip_alias fuel K a)"
    "grows (bundle_resolv K dir)" "grows (run_daemons fuel K environ args st)"
    unfolding parseEnvFile_def configureEth0BestEffort_def node_ip_alias_def bundle_resolv_def run_daemons_def
    by (auto intro!: only_intros split: option.splits)
  show "grows (installClusterHosts K src)" "grows (setupCNI K src)" by (rule settles_grows, rule settles_intros)+
  show "grows (writeBootstrapKubeconfig X K env path apiserver token)"
    unfolding writeBootstrapKubeconfig_def fetchAndVerifyClusterCA_def Let_def by (auto intro!: only_intros)
qed



section \<open>The node keeps only what it started\<close>

definition owns :: "node_state \<Rightarrow> hist \<Rightarrow> bool" where
  "owns st h \<longleftrightarrow> set (liveProcs st) \<subseteq> started h"

definition owned :: "node_state res \<Rightarrow> hist \<Rightarrow> bool" where
  "owned r h \<longleftrightarrow> (case r of Ok st \<Rightarrow> owns st h | _ \<Rightarrow> True)"

text \<open>A fact about the history that later calls cannot undo, carried through an operation to what holds
  of its outcome.\<close>

locale carried =
  fixes held :: "hist \<Rightarrow> bool"
    and outcome :: "'a res \<Rightarrow> hist \<Rightarrow> bool"
  assumes held_append: "held h \<Longrightarrow> held (h @ ev)"
    and outcome_fails: "outcome (Err e) h" "outcome Panic h" "outcome Hang h"
begin

lemma held_grows: "grows m \<Longrightarrow> held h \<Longrightarrow> held (after m h)"
  using after_events [of "\<lambda>_. True" m h] held_append by metis

lemma carried_bind:
  "held h \<Longrightarrow> grows m \<Longrightarrow> (\<And>a h'. held h' \<Longrightarrow> ends h' (f a) outcome) \<Longrightarrow> ends h (State_Monad.bind m f) outcome"
  using held_grows [of m h] unfolding ends_def result_bind by simp

lemma carried_try:
  assumes "held h" "grows m" "\<And>a h'. held h' \<Longrightarrow> ends h' (f a) outcome"
  shows "ends h (try_io m f) outcome"
  unfolding try_io_def
proof (rule carried_bind [OF assms(1,2)])
  show "held h' \<Longrightarrow> ends h' (case r of Ok a \<Rightarrow> f a | Err e \<Rightarrow> State_Monad.return (Err e) | Panic \<Rightarrow> State_Monad.return Panic
      | Hang \<Rightarrow> State_Monad.return Hang) outcome" for r h'
    using assms(3) outcome_fails by (cases r) (simp_all add: ends_def)
qed

lemma carried_attempt:
  assumes "held h" "grows m" "\<And>h'. held h' \<Longrightarrow> outcome (Ok d) h'" "\<And>a h'. held h' \<Longrightarrow> ends h' (f a) outcome"
  shows "ends h (attempt m d f) outcome"
  unfolding attempt_def
proof (rule carried_bind [OF assms(1,2)])
  show "held h' \<Longrightarrow> ends h' (case r of Ok a \<Rightarrow> f a | Err e \<Rightarrow> ok_io d | Panic \<Rightarrow> State_Monad.return Panic
      | Hang \<Rightarrow> State_Monad.return Hang) outcome" for r h'
    using assms(3,4) outcome_fails by (cases r) (simp_all add: ends_def)
qed

lemma carried_logged:
  assumes "held h" "grows m" "\<And>u h'. held h' \<Longrightarrow> ends h' (f u) outcome"
  shows "ends h (logged m f) outcome"
  unfolding logged_def by (rule carried_bind [OF assms(1,2)], rule carried_try) (simp_all add: assms(3) only_intros)

end

interpretation kept: carried "owns st" owned for st
  using started_mono by unfold_locales (auto simp: owns_def owned_def)

interpretation unkept: carried "\<lambda>_. True" owned
  by unfold_locales (simp_all add: owned_def)

lemma owned_ok: "owns st h \<Longrightarrow> ends h (ok_io st) owned" "owns st h \<Longrightarrow> owned (Ok st) h"
  by (simp_all add: ends_def owned_def)

lemma owned_cases: "(case r of Ok a \<Rightarrow> ends h (f a) owned | Err e \<Rightarrow> owned (Err e) h | Panic \<Rightarrow> owned Panic h | Hang \<Rightarrow> owned Hang h)
    \<longleftrightarrow> (case r of Ok a \<Rightarrow> ends h (f a) owned | _ \<Rightarrow> True)"
  by (cases r) (simp_all add: owned_def)

text \<open>The operations that add processes: the two kinds of runtime tests and the join.\<close>

lemma owned_runtime_tests:
  assumes "clocked K clock" "26 \<le> fuel" "owns st h"
  shows "ends h (runContainerRuntimeTests fuel K configured st) owned"
  by (rule ends_mono [OF runtime_tests_ends [OF assms(1,2)]]) (use assms(3) in \<open>auto simp: accounted_def owned_def owns_def\<close>)

lemma owned_zeroc:
  assumes "owns st h"
  shows "ends h (zeroCContainerdTest K persist environ st) owned"
proof -
  let ?d = "\<lambda>k. if persist then State_Monad.return () else kill_and_wait K k"
  let ?s = "\<lambda>k. zeroc_session K persist (join_env environ) k st"
  have start: "ends h' (attempt (os_int K (StartProcess a)) st (\<lambda>k. defer_io (?d k) (?s k))) owned" if o: "owns st h'" for h' a
  proof (rule ends_start)
    fix k
    let ?h = "h' @ [(StartProcess a, RInt k)]"
    have g: "grows (defer_io (?d k) (?s k))"
      by (intro only_intros settles_grows [OF zeroc_session_result(1)]) (simp add: kill_and_wait_def only_intros)
    have "owns (keepAlive k st) ?h"
      using o started_mono [of h'] by (auto simp: owns_def keepAlive_def started_snoc)
    then have "owns (keepAlive k st) (after (defer_io (?d k) (?s k)) ?h)" by (rule kept.held_grows [OF g])
    moreover have "result (defer_io (?d k) (?s k)) ?h = result (?s k) ?h" by simp
    ultimately show "ends ?h (defer_io (?d k) (?s k)) owned"
      using zeroc_session_result(2) [of K persist "join_env environ" k st ?h]
      by (auto simp: ends_def owned_def owns_def keepAlive_def split: if_splits)
  qed (use o kept.held_append in \<open>auto intro!: owned_ok\<close>)
  show ?thesis
    unfolding zeroCContainerdTest_def
    by (intro start ends_if kept.carried_bind [of st] kept.carried_attempt [of st _ "os_int K (OpenFile containerd_log create_flags)"])
       (simp_all add: assms owned_ok only_intros settles_grows settles_intros)
qed


lemma owned_run_daemons:
  assumes "clocked K clock" "26 \<le> fuel" "owns st h"
  shows "ends h (run_daemons fuel K environ args st) owned"
proof -
  let ?m = "run_daemons fuel K environ args st"
  have ev: "after ?m h = h @ events ?m h" by (rule after_events [OF grows_join_steps(9)])
  obtain st' where r: "result ?m h = Ok st'"
      "st' = st \<or> (\<exists>a cd. (StartProcess a, RInt cd) \<in> set (events ?m h) \<and> joined environ args st (events ?m h) cd st')"
    using run_daemons_outcome [OF assms(1,2), of environ args st h] by blast
  then show ?thesis
    using assms(3) unfolding ends_def owned_def ev by (auto simp: owns_def started_def joined_def; blast)
qed

lemma owned_join_cluster:
  assumes "clocked K clock" "26 \<le> fuel" "owns st h"
  shows "ends h (join_cluster fuel X K env environ configured st) owned"
proof -
  note daemons = owned_run_daemons [OF assms(1,2)]
  have "ends h' (joinFromBundle fuel K environ configured dir st) owned" if "owns st h'" for h' dir
    unfolding joinFromBundle_def
    by (intro daemons kept.carried_bind [of st] kept.carried_try [of st] kept.carried_logged [of st]) (simp_all add: that only_intros)
  moreover have "ends h' (bootArgsJoin fuel X K env environ configured st) owned" if "owns st h'" for h'
    unfolding bootArgsJoin_def Let_def
    by (intro daemons ends_if kept.carried_try [of st] kept.carried_logged [of st] kept.carried_attempt [of st]) (simp_all add: that owned_ok only_intros)
  ultimately show ?thesis
    unfolding join_cluster_def
    by (intro kept.carried_bind [OF assms(3)]) (auto simp: owned_ok only_intros split: option.splits)
qed

lemma ends_bind_any: "(\<And>a h'. ends h' (f a) Q) \<Longrightarrow> ends h (State_Monad.bind m f) Q"
  unfolding ends_def result_bind by blast

lemma owned_try_any: "(\<And>a h'. ends h' (f a) owned) \<Longrightarrow> ends h (try_io m f) owned"
  by (rule ends_try, rule endsI) (simp only: owned_cases, auto simp: unkept.outcome_fails split: res.splits)

lemma owned_bring_up:
  assumes "clocked K clock" "26 \<le> fuel" "concurrent par"
  shows "ends h (bring_up fuel par X E K env environ) owned"
proof -
  let ?st = "\<lparr>clusterJoined = False, liveProcs = []\<rparr>"
  have none: "owns ?st h'" for h' by (simp add: owns_def)
  have demos: "ends h' (runtime_demos fuel E K env environ configured ?st) owned" for h' configured
    unfolding runtime_demos_def
    by (intro ends_bind_any ends_if owned_try_any owned_zeroc owned_runtime_tests [OF assms(1,2)] none)
  have rest: "ends h' (try_io (security_probes K environ) (\<lambda>_. try_io (runNodeAgent fuel par K) (\<lambda>_.
      try_io (probeOutboundTCP fuel K configured) (\<lambda>_. join_cluster fuel X K env environ configured st)))) owned"
    if "owns st h'" for h' st configured
    by (intro owned_join_cluster [OF assms(1,2)] kept.carried_try [of st] grows_runNodeAgent [OF assms(3)])
       (simp_all add: that only_intros)
  have from_demos: "ends h' (try_io (runtime_demos fuel E K env environ configured ?st) (\<lambda>st. try_io (security_probes K environ) (\<lambda>_.
      try_io (runNodeAgent fuel par K) (\<lambda>_. try_io (probeOutboundTCP fuel K configured) (\<lambda>_.
      join_cluster fuel X K env environ configured st))))) owned" for h' configured
    by (rule ends_try, rule ends_mono [OF demos]) (auto simp: owned_def [of "Ok _"] owned_cases rest split: res.splits)
  show ?thesis
    unfolding bring_up_def
    by (rule ends_bind_any, rule ends_bind_any, rule ends_bind_any, rule owned_try_any, rule owned_try_any, rule owned_try_any,
        rule owned_try_any, rule from_demos)
qed


definition signalled :: "call list \<Rightarrow> int set" where
  "signalled cs = {pid. \<exists>sig. Kill pid sig \<in> set cs}"

lemma finish_boot_signals: "only (\<lambda>c. signalled [c] \<subseteq> set (liveProcs st)) (finish_boot K env st)"
proof -
  have t: "set ps \<subseteq> A \<Longrightarrow> only (\<lambda>c. signalled [c] \<subseteq> A) (State_Monad.traverse_list (\<lambda>pid. os_ignore K (Kill pid sig)) ps)" for ps A sig
    by (induction ps) (auto intro!: only_intros simp: signalled_def)
  have "only (\<lambda>c. signalled [c] \<subseteq> set (liveProcs st)) (signal_all K sig st)" for sig
    unfolding signal_all_def by (rule only_bind [OF t]) (auto intro!: only_intros)
  then show ?thesis
    unfolding finish_boot_def serveForever_def armACPIShutdown_def gracefulShutdown_def powerOff_def
    by (intro only_intros) (simp_all add: signalled_def)
qed

text \<open>C6 (whom the init signals): with a running clock, and whatever the order in which the pods run, every
  process that the init signals after the node has been brought up was started by this boot. A node
  that could not be brought up signals nobody.\<close>

theorem boot_signals_own:
  assumes "clocked K clock" "26 \<le> fuel" "concurrent par"
  shows "\<exists>rest. after (runAsInit fuel par X E K env environ) h = after (bring_up fuel par X E K env environ) h @ rest
    \<and> signalled (calls rest) \<subseteq> started (after (bring_up fuel par X E K env environ) h)"
proof (cases "result (bring_up fuel par X E K env environ) h")
  case (Ok st)
  let ?h = "after (bring_up fuel par X E K env environ) h"
  have "owns st ?h" using owned_bring_up [OF assms, of h X E env environ] Ok by (simp add: ends_def owned_def)
  moreover have "signalled (made (finish_boot K env st) ?h) \<subseteq> set (liveProcs st)"
    using only_made [OF finish_boot_signals] by (fastforce simp: signalled_def list_all_iff)
  moreover have "after (runAsInit fuel par X E K env environ) h = after (finish_boot K env st) ?h"
    using Ok by (cases "run_state (bring_up fuel par X E K env environ) h") (simp add: runAsInit_def run_try_io)
  ultimately show ?thesis
    using after_events [OF finish_boot_signals, of K env st ?h] by (auto simp: owns_def made_def)
qed (cases "run_state (bring_up fuel par X E K env environ) h"; simp add: runAsInit_def run_try_io signalled_def)+


theorem boot_signals_own_witness:
  "\<forall>X E env. \<exists>rest. after (runAsInit 26 one_by_one X E registering env []) [] = after (bring_up 26 one_by_one X E registering env []) [] @ rest
    \<and> signalled (calls rest) \<subseteq> started (after (bring_up 26 one_by_one X E registering env []) [])"
  using boot_signals_own [OF clocked_registering _ concurrent_one_by_one, of 26] by simp


section \<open>The container of the self test\<close>

definition octest_spec :: ociSpec where
  "octest_spec =
     \<lparr>sp_OCIVersion = ''1.2.0'',
      sp_Process = Some \<lparr>pr_Terminal = False, pr_Cwd = ''/'', pr_Env = [''ASTERKUBE_RUNC_PAYLOAD=1'', ''PATH=/''], pr_Args = [''/init'']\<rparr>,
      sp_Root = Some \<lparr>rt_Path = ''rootfs'', rt_Readonly = False\<rparr>, sp_Hostname = ''octest'',
      sp_Mounts = [\<lparr>mo_Destination = ''/proc'', mo_Type = ''proc'', mo_Source = ''proc'', mo_Options = [''nosuid'', ''noexec'', ''nodev'']\<rparr>],
      sp_Linux = Some \<lparr>li_Namespaces = map (\<lambda>t. \<lparr>ns_Type = t, ns_Path = []\<rparr>) [''pid'', ''mount'', ''uts'', ''ipc''], li_Resources = None,
        li_CgroupsPath = ''/asterkube-octest''\<rparr>\<rparr>"

lemma octest_decoded: "json_unmarshal dec_spec octest_config spec0 = Ok octest_spec"
  by code_simp

lemma octest_role: "main_role [''/init''] (getenv_of [''ASTERKUBE_RUNC_PAYLOAD=1'', ''PATH=/'']) 1 = Ok RuncPayload"
  by code_simp




section \<open>Re-executed probes\<close>

lemma find_unique:
  assumes "p \<in> set xs" "P p" "\<And>q. q \<in> set xs \<Longrightarrow> P q \<Longrightarrow> q = p"
  shows "find P xs = Some p"
proof (cases "find P xs")
  case None
  then show ?thesis using assms(1,2) by (simp add: find_None_iff)
next
  case (Some q)
  then have "q \<in> set xs" "P q" by (auto simp: find_Some_iff)
  then show ?thesis using assms(3) Some by simp
qed

lemma probe_vars:
  "distinct (map fst probe_roles)" "list_all (\<lambda>p. CHR ''='' \<notin> set (fst p)) probe_roles" "list_all (\<lambda>p. \<not> selects (\<lambda>_. []) p) probe_roles"
  by code_simp+

definition applets :: "string set" where
  "applets = {''runc'', ''asterkube-runc'', ''mount'', ''umount'', ''shebang-probe''}"

definition no_role_var :: "string \<Rightarrow> bool" where
  "no_role_var e \<longleftrightarrow> (\<forall>q \<in> set probe_roles. \<not> hasPrefix e (fst q @ ''=''))"

lemma reexec_env:
  assumes p: "p \<in> set probe_roles" and extra: "list_all no_role_var extra"
  shows "getenv_of (environ @ [setting (fst p) x] @ extra) (fst p) = x"
    and "q \<in> set probe_roles \<Longrightarrow> fst q \<noteq> fst p \<Longrightarrow> getenv_of (environ @ [setting (fst p) x] @ extra) (fst q) = getenv_of environ (fst q)"
proof -
  have skip: "list_all (\<lambda>e. \<not> hasPrefix e (fst q @ ''='')) extra" if "q \<in> set probe_roles" for q
    using extra that by (auto simp: no_role_var_def list_all_iff)
  have "getenv_of ((environ @ [setting (fst p) x]) @ extra) (fst p) = getenv_of (environ @ [setting (fst p) x]) (fst p)"
    by (rule getenv_of_skip [OF skip [OF p]])
  also have "\<dots> = x" by (rule getenv_of_last) simp_all
  finally show "getenv_of (environ @ [setting (fst p) x] @ extra) (fst p) = x" by simp
  assume q: "q \<in> set probe_roles" "fst q \<noteq> fst p"
  have "list_all (\<lambda>e. \<not> hasPrefix e (fst q @ ''='')) ([setting (fst p) x] @ extra)"
    using skip [OF q(1)] setting_prefix [of "fst p" "fst q" x] probe_vars(2) p q by (auto simp: list_all_iff)
  then show "getenv_of (environ @ [setting (fst p) x] @ extra) (fst q) = getenv_of environ (fst q)" by (rule getenv_of_skip)
qed

text \<open>C10 (probes find their roles): a process that re-executes the binary for a probe, with one role variable added
  to an environment in which no other role variable is set, gets exactly the program of that role and
  mode, whatever its process id; a program that re-executes itself for the other mode of the same
  variable gets that mode, since the last setting wins.\<close>

theorem probe_children_run:
  assumes p: "p \<in> set probe_roles" and x: "selects (\<lambda>_. x) p" and extra: "list_all no_role_var extra"
    and alone: "\<forall>q \<in> set probe_roles. fst q \<noteq> fst p \<longrightarrow> getenv_of environ (fst q) = []"
    and self: "path_base self \<notin> applets"
  shows "main_program fuel par X E K [self] (environ @ [setting (fst p) x] @ extra) pid =
    probe_role_main K (getenv_of (environ @ [setting (fst p) x] @ extra)) (environ @ [setting (fst p) x] @ extra) (fst p) x"
proof -
  let ?e = "getenv_of (environ @ [setting (fst p) x] @ extra)"
  have ep: "?e (fst p) = x" by (rule reexec_env [OF p extra])
  have "find (selects ?e) probe_roles = Some p"
  proof (rule find_unique [OF p])
    show "selects ?e p" using x unfolding selects_def ep .
    fix q assume q: "q \<in> set probe_roles" "selects ?e q"
    have "?e (fst q) \<noteq> []" using q probe_vars(3) by (auto simp: selects_def list_all_iff split: option.splits)
    then have "fst q = fst p" using reexec_env(2) [OF p extra q(1), of environ x] alone q(1) by auto
    then show "q = p" using probe_vars(1) p q(1) by (auto simp: distinct_map inj_on_def)
  qed
  then have "main_role [self] ?e pid = Ok (Probe (fst p) x)"
    using self ep by (simp add: main_role_def env_role_def Let_def applets_def)
  then show ?thesis by (simp add: main_program_def run_role_def)
qed

text \<open>The peer of the test of file accesses: the second setting of the variable wins over the first.\<close>

theorem probe_children_run_witness:
  "\<forall>fuel par X E K. main_program fuel par X E K [''/sbin/init'']
      ([''PATH=/bin'', setting fileMacProbeEnv ''main''] @ [setting fileMacProbeEnv ''peer''] @ [setting fileMacPathEnv secretPath]) 7 =
    probe_role_main K (getenv_of ([''PATH=/bin'', setting fileMacProbeEnv ''main''] @ [setting fileMacProbeEnv ''peer''] @ [setting fileMacPathEnv secretPath]))
      ([''PATH=/bin'', setting fileMacProbeEnv ''main''] @ [setting fileMacProbeEnv ''peer''] @ [setting fileMacPathEnv secretPath])
      fileMacProbeEnv ''peer''"
proof -
  let ?p = "(fileMacProbeEnv, Some [''main'', ''peer''])"
  have "?p \<in> set probe_roles" by (simp add: probe_roles_def)
  moreover have "selects (\<lambda>_. ''peer'') ?p" by (simp add: selects_def)
  moreover have "list_all no_role_var [setting fileMacPathEnv secretPath]" by code_simp
  moreover have "\<forall>q \<in> set probe_roles. fst q \<noteq> fst ?p \<longrightarrow> getenv_of [''PATH=/bin'', setting fileMacProbeEnv ''main''] (fst q) = []"
    by code_simp
  moreover have "path_base ''/sbin/init'' \<notin> applets" by code_simp
  ultimately show ?thesis using probe_children_run [of ?p "''peer''" _ "[''PATH=/bin'', setting fileMacProbeEnv ''main'']"]
    unfolding fst_conv by blast
qed



section \<open>What a child prints is what its parent reads\<close>

lemma digit_listed: "is_digit c \<longleftrightarrow> c \<in> set ''0123456789''"
proof
  assume "is_digit c"
  then have "(of_char c :: nat) \<in> set [48..<58]" unfolding is_digit_def set_upt atLeastLessThan_iff by linarith
  then have "char_of (of_char c :: nat) \<in> char_of ` set [48..<58 :: nat]" by blast
  moreover have "char_of ` set [48..<58 :: nat] = set ''0123456789''" by code_simp
  ultimately show "c \<in> set ''0123456789''" by (simp only: char_of_char)
next
  have "list_all is_digit ''0123456789''" by code_simp
  then show "c \<in> set ''0123456789'' \<Longrightarrow> is_digit c" by (auto simp: list_all_iff)
qed

lemma digit_no_space: "is_digit c \<Longrightarrow> \<not> is_space c"
  by (auto simp: digit_listed is_space_def)

lemma nat_digits_first:
  obtains c cs where "nat_digits n = c # cs" "is_digit c" "list_all is_digit cs"
  using nat_digits_all [of n] nat_digits_nonempty [of n] by (cases "nat_digits n") auto

lemma scan_number_itoa:
  assumes "- (2 ^ 63) \<le> n" "n < 2 ^ 63"
  shows "scan_number (itoa n) = Some n"
proof -
  have all: "takeWhile (\<lambda>c. c \<in> set ''0123456789'') ds = ds" if "list_all is_digit ds" for ds
    using that by (simp add: takeWhile_eq_all_conv digit_listed list_all_iff)
  have "atoi (itoa n) = Some n" by (rule atoi_itoa [OF assms])
  moreover obtain c cs where d: "nat_digits (nat \<bar>n\<bar>) = c # cs" "is_digit c" "list_all is_digit cs" by (rule nat_digits_first)
  moreover have "c \<notin> {CHR ''+'', CHR ''-''}" using nat_digits_sign_free [of c "nat \<bar>n\<bar>"] d(1) by auto
  ultimately show ?thesis
    using all [of "c # cs"] digit_no_space [OF d(2)]
    by (cases "n < 0") (simp_all add: scan_number_def itoa_def trimLeftSpace_def Let_def is_space_def)
qed

text \<open>The effective user that a setuid program reports is the one that the volume probe reads.\<close>

lemma euid_report_read:
  assumes "- (2 ^ 63) \<le> n" "n < 2 ^ 63"
  shows "scan_euid (trimSpace (euid_report n)) = Some n"
proof -
  let ?s = "''euid='' @ itoa n"
  have end_digit: "\<exists>cs c. nat_digits k = cs @ [c] \<and> is_digit c" for k
    using nat_digits_all [of k] nat_digits_nonempty [of k] by (cases "nat_digits k" rule: rev_cases) auto
  obtain cs c where "itoa n = cs @ [c]" "is_digit c"
    using end_digit [of "nat (- n)"] end_digit [of "nat n"] by (auto simp: itoa_def) (metis append_Cons)+
  then have "trimSpace (euid_report n) = ?s"
    using digit_no_space [of c] by (simp add: euid_report_def trimSpace_def nl_def is_space_def)
  then show ?thesis using scan_number_itoa [OF assms] hasPrefix_append [of "''euid=''" "itoa n"] by (simp add: scan_euid_def)
qed


end
