(* ===== verification/Simulation.thy ===== *)
theory Simulation
  imports Triples
begin

text \<open>
  Refinement of a protocol. A protocol is a relation \<open>path s ev s'\<close>: the calls and replies \<open>ev\<close> take a
  participant from the state \<open>s\<close> to \<open>s'\<close>. \<open>follows path s m Q\<close> says that whatever the kernel replies, the
  calls of the operation \<open>m\<close> are such a path from \<open>s\<close>, and that its end and the result of \<open>m\<close> satisfy
  \<open>Q\<close>. The locale \<open>protocol\<close> is what the rules need of the relation: paths compose.
\<close>

definition follows :: "('s \<Rightarrow> hist \<Rightarrow> 's \<Rightarrow> bool) \<Rightarrow> 's \<Rightarrow> 'a io \<Rightarrow> ('a \<Rightarrow> 's \<Rightarrow> bool) \<Rightarrow> bool" where
  "follows path s m Q \<longleftrightarrow> (\<forall>h. \<exists>ev s'. after m h = h @ ev \<and> path s ev s' \<and> Q (result m h) s')"

lemma follows_mono: "follows path s m Q \<Longrightarrow> (\<And>a s'. Q a s' \<Longrightarrow> R a s') \<Longrightarrow> follows path s m R"
  unfolding follows_def by meson

lemma follows_events:
  "follows path s m Q \<Longrightarrow> \<exists>s'. path s (events m h) s' \<and> Q (result m h) s'"
  unfolding follows_def by (metis events_append)

lemma follows_if: "(b \<Longrightarrow> follows path s m Q) \<Longrightarrow> (\<not> b \<Longrightarrow> follows path s n Q) \<Longrightarrow> follows path s (if b then m else n) Q"
  by simp

lemma follows_os:
  assumes "\<And>r. \<exists>s'. path s [(c, r)] s' \<and> Q (f r) s'"
  shows "follows path s (os_as f K c) Q"
  unfolding follows_def using assms by simp

lemma follows_os_ignore: "(\<And>r. \<exists>s'. path s [(c, r)] s' \<and> Q () s') \<Longrightarrow> follows path s (os_ignore K c) Q"
  unfolding os_ignore_def by (rule follows_os)

lemma follows_now: "(\<And>r n. \<exists>s'. path s [(Now, r)] s' \<and> Q n s') \<Longrightarrow> follows path s (os_now K) Q"
  unfolding os_now_def by (rule follows_os)

lemma follows_wrap: "follows path s m (\<lambda>r. Q (wrap_err x r)) \<Longrightarrow> follows path s (wrap_io x m) Q"
  unfolding follows_def by (simp add: case_prod_beta)

locale protocol =
  fixes path :: "'s \<Rightarrow> hist \<Rightarrow> 's \<Rightarrow> bool"
  assumes path_nil: "path s [] s"
    and path_append: "path s ev s' \<Longrightarrow> path s' ev' s'' \<Longrightarrow> path s (ev @ ev') s''"
begin

lemma follows_return: "Q a s \<Longrightarrow> follows path s (State_Monad.return a) Q"
  unfolding follows_def using path_nil by auto

lemma follows_ok: "Q (Ok a) s \<Longrightarrow> follows path s (ok_io a) Q"
  unfolding ok_io_def by (rule follows_return)

lemma follows_err: "Q (Err e) s \<Longrightarrow> follows path s (err_io e) Q"
  unfolding err_io_def by (rule follows_return)

lemma follows_bind:
  assumes "follows path s m R" "\<And>a s'. R a s' \<Longrightarrow> follows path s' (f a) Q"
  shows "follows path s (State_Monad.bind m f) Q"
  unfolding follows_def
proof
  fix h
  obtain ev s' where m: "after m h = h @ ev" "path s ev s'" "R (result m h) s'"
    using assms(1) unfolding follows_def by blast
  obtain ev' s'' where f: "after (f (result m h)) (h @ ev) = (h @ ev) @ ev'" "path s' ev' s''"
      "Q (result (f (result m h)) (h @ ev)) s''"
    using assms(2) [OF m(3)] unfolding follows_def by blast
  show "\<exists>ev s'. after (State_Monad.bind m f) h = h @ ev \<and> path s ev s' \<and> Q (result (State_Monad.bind m f) h) s'"
    unfolding result_bind m(1) using path_append [OF m(2) f(2)] f(1,3) by auto
qed

lemma follows_try:
  assumes "follows path s m R" "\<And>a s'. R (Ok a) s' \<Longrightarrow> follows path s' (f a) Q"
    and "\<And>e s'. R (Err e) s' \<Longrightarrow> Q (Err e) s'" "\<And>s'. R Panic s' \<Longrightarrow> Q Panic s'" "\<And>s'. R Hang s' \<Longrightarrow> Q Hang s'"
  shows "follows path s (try_io m f) Q"
  unfolding try_io_def
proof (rule follows_bind [OF assms(1)])
  show "R r s' \<Longrightarrow> follows path s' (case r of Ok a \<Rightarrow> f a | Err e \<Rightarrow> State_Monad.return (Err e)
      | Panic \<Rightarrow> State_Monad.return Panic | Hang \<Rightarrow> State_Monad.return Hang) Q" for r s'
    using assms(2-5) by (cases r) (auto intro: follows_return)
qed

text \<open>Spontaneous steps before an operation.\<close>

lemma follows_before: "path s [] s' \<Longrightarrow> follows path s' m Q \<Longrightarrow> follows path s m Q"
  unfolding follows_def by (metis append_Nil path_append)

text \<open>Calls that the protocol does not speak of.\<close>

lemma path_stutter: "(\<And>e. e \<in> set ev \<Longrightarrow> path s [e] s) \<Longrightarrow> path s ev s"
proof (induction ev)
  case (Cons e ev)
  then have "path s ([e] @ ev) s" by (intro path_append) auto
  then show ?case by simp
qed (simp add: path_nil)

lemma follows_stutter:
  assumes "only P m" "\<And>c r. P c \<Longrightarrow> path s [(c, r)] s" "\<And>a. Q a s"
  shows "follows path s m Q"
  unfolding follows_def
proof
  fix h
  obtain ev where ev: "after m h = h @ ev" "\<forall>c \<in> set (calls ev). P c" by (rule onlyE [OF assms(1)])
  have "path s ev s"
  proof (rule path_stutter)
    show "e \<in> set ev \<Longrightarrow> path s [e] s" for e using ev(2) assms(2) [of "fst e" "snd e"] by (auto simp: calls_def)
  qed
  then show "\<exists>ev s'. after m h = h @ ev \<and> path s ev s' \<and> Q (result m h) s'" using ev(1) assms(3) by blast
qed

lemma follows_defer:
  assumes "follows path s m Q" "\<And>r s'. Q r s' \<Longrightarrow> follows path s' f (\<lambda>_. Q r)"
  shows "follows path s (defer_io f m) Q"
  unfolding defer_io_def
proof (rule follows_bind [OF assms(1)])
  show "Q r s' \<Longrightarrow> follows path s' (case r of Hang \<Rightarrow> State_Monad.return Hang
      | _ \<Rightarrow> State_Monad.bind f (\<lambda>_. State_Monad.return r)) Q" for r s'
    using assms(2) by (cases r) (auto intro!: follows_return intro: follows_bind)
qed

end

end
