(* ===== verification/DhcpClient.thy ===== *)
theory DhcpClient
  imports Dhcp Simulation
begin

text \<open>
  The contract of the DHCP client. RFC 2131, section 4.4, describes a client by its states and by the
  datagrams and timers that lead from one to the other; the step relation \<open>dhcp_step\<close> is that machine as
  far as this client implements it, with the two points in which it departs from the document written
  out as steps of their own (\<open>lost\<close> and \<open>keep\<close>). The events of the machine are the calls of the program
  and the replies of the kernel: a datagram may only be sent when a step sends it, and an answer that is
  awaited is never ignored. The run of \<open>dhcpFirst\<close> followed by any number of rounds of \<open>dhcpRenewLoop\<close> is
  a path of the machine from \<open>INIT\<close>.
\<close>

section \<open>The abstract machine\<close>

datatype phase =
    INIT
  | SELECTING "32 word" nat
  | OFFERED "32 word" dhcpLease
  | REQUESTING "32 word" dhcpLease
  | BOUND
  | RENEWING "32 word option"
  | REBINDING "32 word option"

text \<open>The client is in a phase, holds a lease or not, and has slept for \<open>waited\<close> nanoseconds since its
  timer was last set. A lease is fresh until its first renewal has been tried, which is at once.\<close>

record client =
  ph :: phase
  held :: "dhcpLease option"
  waited :: int
  fresh :: bool

definition start_client :: client where
  "start_client = \<lparr>ph = INIT, held = None, waited = 0, fresh = False\<rparr>"

definition bound_client :: "dhcpLease \<Rightarrow> bool \<Rightarrow> client" where
  "bound_client l new = \<lparr>ph = BOUND, held = Some l, waited = 0, fresh = new\<rparr>"

text \<open>The transaction and the message type that a phase waits for, and the lease that an event brings.\<close>

fun awaits :: "phase \<Rightarrow> (32 word \<times> byte) option" where
  "awaits (SELECTING x n) = Some (x, dhcpOffer)"
| "awaits (REQUESTING x offer) = Some (x, dhcpAck)"
| "awaits (RENEWING (Some x)) = Some (x, dhcpAck)"
| "awaits (REBINDING (Some x)) = Some (x, dhcpAck)"
| "awaits p = None"

definition answer :: "phase \<Rightarrow> call \<times> reply \<Rightarrow> dhcpLease option" where
  "answer p e = (case (awaits p, e) of
       (Some (x, want), (Recvfrom fd n, RBytes pkt)) \<Rightarrow> match_reply x want pkt
     | _ \<Rightarrow> None)"

definition answered :: "client \<Rightarrow> dhcpLease \<Rightarrow> client" where
  "answered s l = (case ph s of
       SELECTING x n \<Rightarrow> s\<lparr>ph := OFFERED x l\<rparr>
     | REQUESTING x offer \<Rightarrow> bound_client (merge_offer offer l) (held s = None)
     | _ \<Rightarrow> (case held s of Some old \<Rightarrow> bound_client (carry_forward old l) False | None \<Rightarrow> s))"

definition on_wire :: "call \<Rightarrow> bool" where
  "on_wire c \<longleftrightarrow> (case c of Sendto fd p (Inet4 a port) \<Rightarrow> True | _ \<Rightarrow> False)"

definition is_sleep :: "call \<Rightarrow> bool" where
  "is_sleep c \<longleftrightarrow> (case c of Sleep d \<Rightarrow> True | _ \<Rightarrow> False)"

definition silent :: "client \<Rightarrow> call \<times> reply \<Rightarrow> bool" where
  "silent s e \<longleftrightarrow> answer (ph s) e = None \<and> \<not> on_wire (fst e) \<and> \<not> is_sleep (fst e)"

text \<open>The timers of a lease: from bound to renewing, and from renewing to rebinding.\<close>

definition timer1 :: "string \<Rightarrow> dhcpLease \<Rightarrow> int" where
  "timer1 env l = sint (fst (renew_times env (l_leaseSec l)))"

definition timer2 :: "string \<Rightarrow> dhcpLease \<Rightarrow> int" where
  "timer2 env l = sint (snd (renew_times env (l_leaseSec l)) - fst (renew_times env (l_leaseSec l)))"

abbreviation acquiring :: "phase \<Rightarrow> bool" where
  "acquiring p \<equiv> p \<noteq> BOUND \<and> (\<forall>w. p \<noteq> RENEWING w) \<and> (\<forall>w. p \<noteq> REBINDING w)"

abbreviation renewal :: "bytes \<Rightarrow> dhcpLease \<Rightarrow> 32 word \<Rightarrow> bool \<Rightarrow> int \<Rightarrow> call" where
  "renewal mac l x rebind fd \<equiv> Sendto fd (buildDHCP dhcpRequest mac x (l_ip l) None None rebind) (renew_dst l rebind)"

text \<open>
  \<open>lost\<close>: after one failed rebinding the client starts over, although the lease may run for another
  eighth of its time. \<open>keep\<close>: when that fails too, it goes on with the lease that it holds, although
  that may have run out; RFC 2131 has the client stop using the address.
\<close>

inductive dhcp_step :: "string \<Rightarrow> bytes \<Rightarrow> client \<Rightarrow> hist \<Rightarrow> client \<Rightarrow> bool" for env mac where
  other: "silent s e \<Longrightarrow> dhcp_step env mac s [e] s"
| sleep: "dhcp_step env mac s [(Sleep d, r)] (s\<lparr>waited := waited s + max 0 d\<rparr>)"
| reply: "answer (ph s) e = Some l \<Longrightarrow> dhcp_step env mac s [e] (answered s l)"
| discover: "ph s = INIT \<Longrightarrow>
    dhcp_step env mac s [(Sendto fd (discover_packet mac x) dhcp_bcast, r)] (s\<lparr>ph := SELECTING x 1\<rparr>)"
| again: "ph s = SELECTING x n \<Longrightarrow> n < 3 \<Longrightarrow>
    dhcp_step env mac s [(Sendto fd (discover_packet mac x) dhcp_bcast, r)] (s\<lparr>ph := SELECTING x (Suc n)\<rparr>)"
| request: "ph s = OFFERED x offer \<Longrightarrow>
    dhcp_step env mac s [(Sendto fd (request_packet mac x offer) dhcp_bcast, r)] (s\<lparr>ph := REQUESTING x offer\<rparr>)"
| t1: "ph s = BOUND \<Longrightarrow> held s = Some l \<Longrightarrow> fresh s \<or> timer1 env l \<le> waited s \<Longrightarrow>
    dhcp_step env mac s [] (s\<lparr>ph := RENEWING None, waited := 0\<rparr>)"
| renew: "ph s = RENEWING None \<Longrightarrow> held s = Some l \<Longrightarrow>
    dhcp_step env mac s [(renewal mac l x False fd, r)] (s\<lparr>ph := RENEWING (Some x)\<rparr>)"
| t2: "ph s = RENEWING w \<Longrightarrow> held s = Some l \<Longrightarrow> fresh s \<or> timer2 env l \<le> waited s \<Longrightarrow>
    dhcp_step env mac s [] (s\<lparr>ph := REBINDING None, waited := 0\<rparr>)"
| rebind: "ph s = REBINDING None \<Longrightarrow> held s = Some l \<Longrightarrow>
    dhcp_step env mac s [(renewal mac l x True fd, r)] (s\<lparr>ph := REBINDING (Some x)\<rparr>)"
| untested: "ph s = REBINDING w \<Longrightarrow> fresh s \<Longrightarrow>
    dhcp_step env mac s [] (s\<lparr>ph := BOUND, waited := 0, fresh := False\<rparr>)"
| lost: "ph s = REBINDING w \<Longrightarrow> \<not> fresh s \<Longrightarrow> dhcp_step env mac s [] (s\<lparr>ph := INIT, waited := 0\<rparr>)"
| keep: "acquiring (ph s) \<Longrightarrow> held s \<noteq> None \<Longrightarrow> 30000000000 \<le> waited s \<Longrightarrow>
    dhcp_step env mac s [] (s\<lparr>ph := BOUND, waited := 0\<rparr>)"

inductive dhcp_path :: "string \<Rightarrow> bytes \<Rightarrow> client \<Rightarrow> hist \<Rightarrow> client \<Rightarrow> bool" for env mac where
  rest: "dhcp_path env mac s [] s"
| go: "dhcp_step env mac s ev s' \<Longrightarrow> dhcp_path env mac s' ev' s'' \<Longrightarrow> dhcp_path env mac s (ev @ ev') s''"

interpretation dhcp: protocol "dhcp_path env mac" for env mac
proof
  show "dhcp_path env mac s [] s" for s by (rule dhcp_path.rest)
  show "dhcp_path env mac s ev s' \<Longrightarrow> dhcp_path env mac s' ev' s'' \<Longrightarrow> dhcp_path env mac s (ev @ ev') s''" for s ev s' ev' s''
    by (induction rule: dhcp_path.induct) (auto intro: dhcp_path.intros)
qed

lemma dhcp_path_step: "dhcp_step env mac s ev s' \<Longrightarrow> dhcp_path env mac s ev s'"
  using dhcp_path.go [OF _ dhcp_path.rest] by fastforce

lemmas dhcp_paths = dhcp_step.intros [THEN dhcp_path_step]


section \<open>Every operation follows the machine\<close>

definition quiet_call :: "call \<Rightarrow> bool" where
  "quiet_call c \<longleftrightarrow> \<not> on_wire c \<and> \<not> is_sleep c \<and> (case c of Recvfrom fd n \<Rightarrow> False | _ \<Rightarrow> True)"

lemma answer_quiet: "quiet_call c \<Longrightarrow> answer p (c, r) = None"
  by (auto simp: answer_def quiet_call_def split: option.splits call.splits)

lemma path_quiet: "quiet_call c \<Longrightarrow> dhcp_path env mac s [(c, r)] s"
  by (rule dhcp_paths(1)) (simp add: silent_def answer_quiet, simp add: quiet_call_def)

lemma quiet_call_simps [simp]:
  "quiet_call (Socket a b c)" "quiet_call (SetNonblock fd)" "quiet_call (Setsockopt fd m n v)" "quiet_call (Bind fd addr)"
  "quiet_call (CloseFd fd)" "quiet_call Now" "quiet_call (Sendto fd p NetlinkAddr)" "quiet_call (WriteFile f d m)"
  by (simp_all add: quiet_call_def on_wire_def is_sleep_def)

text \<open>While nothing is awaited, receiving is silent too.\<close>

lemma path_idle:
  assumes "awaits (ph s) = None" "\<not> on_wire c" "\<not> is_sleep c"
  shows "dhcp_path env mac s [(c, r)] s"
  by (rule dhcp_paths(1)) (use assms in \<open>simp add: silent_def answer_def\<close>)

lemma follows_idle:
  assumes "only (\<lambda>c. \<not> on_wire c \<and> \<not> is_sleep c) m" "awaits (ph s) = None" "\<And>a. Q a s"
  shows "follows (dhcp_path env mac) s m Q"
  using assms(1) by (rule dhcp.follows_stutter) (auto intro: path_idle assms)

text \<open>Only time has passed.\<close>

definition later :: "client \<Rightarrow> client \<Rightarrow> bool" where
  "later s s' \<longleftrightarrow> waited s \<le> waited s' \<and> s' = s\<lparr>waited := waited s'\<rparr>"

lemma later_refl [simp]: "later s s"
  by (simp add: later_def)

lemma later_trans: "later s s' \<Longrightarrow> later s' s'' \<Longrightarrow> later s s''"
  by (cases s; cases s'; cases s'') (simp add: later_def)

lemma later_fields: "later s s' \<Longrightarrow> ph s' = ph s \<and> held s' = held s \<and> fresh s' = fresh s \<and> waited s \<le> waited s'"
  by (cases s; cases s') (simp add: later_def)

definition replied :: "client \<Rightarrow> dhcpLease res \<Rightarrow> client \<Rightarrow> bool" where
  "replied s r s' \<longleftrightarrow> (case r of Ok l \<Rightarrow> \<exists>s1. later s s1 \<and> s' = answered s1 l | _ \<Rightarrow> later s s')"

lemma replied_later: "replied s1 r s' \<Longrightarrow> later s s1 \<Longrightarrow> replied s r s'"
  unfolding replied_def by (cases r) (auto dest: later_trans)

text \<open>One datagram: the awaited answer, or nothing.\<close>

definition heard :: "client \<Rightarrow> 32 word \<Rightarrow> byte \<Rightarrow> bytes res \<Rightarrow> client" where
  "heard s xid want r = (case r of Ok pkt \<Rightarrow> (case match_reply xid want pkt of Some l \<Rightarrow> answered s l | None \<Rightarrow> s) | _ \<Rightarrow> s)"

lemma receive_follows:
  assumes "awaits (ph s) = Some (xid, want)"
  shows "follows (dhcp_path env mac) s (os_bytes K (Recvfrom fd n)) (\<lambda>r s1. s1 = heard s xid want r)"
proof (rule follows_os)
  fix r
  have a: "answer (ph s) (Recvfrom fd n, r) = (case r of RBytes pkt \<Rightarrow> match_reply xid want pkt | _ \<Rightarrow> None)"
    using assms by (simp add: answer_def split: reply.splits)
  have "dhcp_path env mac s [(Recvfrom fd n, r)] (heard s xid want (as_bytes r))"
  proof (cases "answer (ph s) (Recvfrom fd n, r)")
    case None
    then have "heard s xid want (as_bytes r) = s" using a by (cases r) (auto simp: heard_def)
    then show ?thesis using None dhcp_paths(1) [of s] by (simp add: silent_def on_wire_def is_sleep_def)
  next
    case (Some l)
    then have "heard s xid want (as_bytes r) = answered s l" using a by (cases r) (auto simp: heard_def split: option.splits)
    then show ?thesis using dhcp_paths(3) [OF Some] by simp
  qed
  then show "\<exists>s'. dhcp_path env mac s [(Recvfrom fd n, r)] s' \<and> s' = heard s xid want (as_bytes r)" by blast
qed

lemma nap_follows: "follows (dhcp_path env mac) s (os_ignore K (Sleep d)) (\<lambda>_ s1. later s s1)"
  by (rule follows_os_ignore, rule exI, rule conjI, rule dhcp_paths(2)) (simp add: later_def)

lemma now_follows: "follows (dhcp_path env mac) s (os_now K) (\<lambda>_ s1. s1 = s)"
  by (rule follows_now) (auto intro: path_quiet)

lemma recv_poll_follows:
  "awaits (ph s) = Some (xid, want) \<Longrightarrow>
     follows (dhcp_path env mac) s (recv_poll fuel K fd xid want deadline) (replied s)"
proof (induction fuel arbitrary: s)
  case 0
  then show ?case by (auto simp: replied_def intro!: dhcp.follows_return)
next
  case (Suc fuel)
  have loop: "follows (dhcp_path env mac) s1 (recv_poll fuel K fd xid want deadline) (replied s)" if "later s s1" for s1
  proof (rule follows_mono)
    show "follows (dhcp_path env mac) s1 (recv_poll fuel K fd xid want deadline) (replied s1)"
      using later_fields [OF that] Suc.prems by (intro Suc.IH) simp
  qed (use that replied_later in blast)
  have "follows (dhcp_path env mac) s1 (case r of
           Err e \<Rightarrow> if e = Errno EAGAIN
             then State_Monad.bind (os_ignore K (Sleep 50000000)) (\<lambda>_. recv_poll fuel K fd xid want deadline) else err_io e
         | Ok pkt \<Rightarrow> (case match_reply xid want pkt of Some lease \<Rightarrow> ok_io lease | None \<Rightarrow> recv_poll fuel K fd xid want deadline)
         | _ \<Rightarrow> State_Monad.return Panic) (replied s)" if r: "s1 = heard s xid want r" for r s1
  proof (cases r)
    case (Ok pkt)
    then show ?thesis using r loop [OF later_refl]
      by (auto intro!: dhcp.follows_ok exI [of _ s] simp: heard_def replied_def split: option.splits)
  next
    case (Err e)
    then show ?thesis using r
      by (auto intro!: dhcp.follows_err dhcp.follows_bind [OF nap_follows] loop simp: heard_def replied_def)
  qed (use r in \<open>auto intro!: dhcp.follows_return simp: heard_def replied_def\<close>)
  then have "follows (dhcp_path env mac) s (if \<not> now < deadline then err_io (dhcp_timeout want)
       else State_Monad.bind (os_bytes K (Recvfrom fd 1500)) (\<lambda>r. case r of
           Err e \<Rightarrow> if e = Errno EAGAIN
             then State_Monad.bind (os_ignore K (Sleep 50000000)) (\<lambda>_. recv_poll fuel K fd xid want deadline) else err_io e
         | Ok pkt \<Rightarrow> (case match_reply xid want pkt of Some lease \<Rightarrow> ok_io lease | None \<Rightarrow> recv_poll fuel K fd xid want deadline)
         | _ \<Rightarrow> State_Monad.return Panic)) (replied s)" for now
    by (intro follows_if dhcp.follows_err dhcp.follows_bind [OF receive_follows [OF Suc.prems]]) (simp_all add: replied_def)
  then show ?case unfolding recv_poll.simps by (auto intro: dhcp.follows_bind [OF now_follows])
qed

lemma recvDHCP_follows:
  "awaits (ph s) = Some (xid, want) \<Longrightarrow> follows (dhcp_path env mac) s (recvDHCP fuel K fd xid want timeout) (replied s)"
  unfolding recvDHCP_def by (rule dhcp.follows_bind [OF now_follows]) (auto intro: recv_poll_follows)



text \<open>Opening and closing the socket are no steps.\<close>

lemma follows_quiet: "quiet_call c \<Longrightarrow> (\<And>a. Q a s) \<Longrightarrow> follows (dhcp_path env mac) s (os_as f K c) Q"
  by (rule follows_os) (auto intro: path_quiet)

lemma follows_quiet_bind:
  "quiet_call c \<Longrightarrow> (\<And>a. follows (dhcp_path env mac) s (f a) Q) \<Longrightarrow>
     follows (dhcp_path env mac) s (State_Monad.bind (os_ignore K c) f) Q"
  by (rule dhcp.follows_bind [where R = "\<lambda>_ s'. s' = s"]) (auto simp: os_ignore_def intro: follows_quiet)

lemma follows_quiet_try:
  assumes "quiet_call c" "\<And>a. follows (dhcp_path env mac) s (f a) Q" "\<And>e. Q (Err e) s" "Q Panic s" "Q Hang s"
  shows "follows (dhcp_path env mac) s (try_io (wrap_io x (os_as g K c)) f) Q"
  by (rule dhcp.follows_try [where R = "\<lambda>_ s'. s' = s"], rule follows_wrap, rule follows_quiet) (use assms in auto)

lemma with_dhcp_socket_follows:
  assumes "\<And>fd. follows (dhcp_path env mac) s (body fd) Q" "\<And>e. Q (Err e) s" "Q Panic s" "Q Hang s"
  shows "follows (dhcp_path env mac) s (with_dhcp_socket K body) Q"
  unfolding with_dhcp_socket_def os_ignore_def
  by (intro follows_quiet_try dhcp.follows_defer follows_quiet follows_quiet_bind [unfolded os_ignore_def] assms) simp_all

text \<open>Sending and then waiting for the answer.\<close>

lemma exchange_follows:
  assumes "\<And>r. dhcp_path env mac s [(c, r)] s1" "awaits (ph s1) = Some (xid, want)"
    and "\<And>l s2. later s1 s2 \<Longrightarrow> follows (dhcp_path env mac) (answered s2 l) (f l) Q"
    and "\<And>e s2. later s1 s2 \<Longrightarrow> Q (Err e) s2" "\<And>s2. later s1 s2 \<Longrightarrow> Q Panic s2" "\<And>s2. later s1 s2 \<Longrightarrow> Q Hang s2"
  shows "follows (dhcp_path env mac) s (try_io (wrap_io x (os_unit K c)) (\<lambda>_. try_io (recvDHCP fuel K fd xid want t) f)) Q"
proof (rule dhcp.follows_try [where R = "\<lambda>_ s'. s' = s1"], rule follows_wrap, rule follows_os)
  show "\<exists>s'. dhcp_path env mac s [(c, r)] s' \<and> s' = s1" for r using assms(1) by blast
  show "follows (dhcp_path env mac) s' (try_io (recvDHCP fuel K fd xid want t) f) Q" if "s' = s1" for s'
    unfolding that by (rule dhcp.follows_try [OF recvDHCP_follows [OF assms(2)]]) (auto simp: replied_def intro: assms(3-6))
qed (auto intro: assms(4-6))

definition renewed :: "client \<Rightarrow> dhcpLease res \<Rightarrow> client \<Rightarrow> bool" where
  "renewed s r s' \<longleftrightarrow> (case r of
       Ok l \<Rightarrow> s' = bound_client l False
     | _ \<Rightarrow> held s' = held s \<and> fresh s' = fresh s \<and> waited s \<le> waited s'
             \<and> (if ph s = RENEWING None then \<exists>x. ph s' = RENEWING x else \<exists>x. ph s' = REBINDING x))"

lemma dhcpRenew_follows:
  assumes "ph s = (if rebinds then REBINDING None else RENEWING None)" "held s = Some l"
  shows "follows (dhcp_path env mac) s (dhcpRenew fuel K mac l rebinds) (renewed s)"
proof -
  have kept: "renewed s (Err e) s" "renewed s Panic s" "renewed s Hang s" for e
    using assms(1) by (auto simp: renewed_def)
  have asked: "follows (dhcp_path env mac) s
      (try_io (wrap_io ''send REQUEST'' (os_unit K (renewal mac l x rebinds fd))) (\<lambda>_.
       try_io (recvDHCP fuel K fd x dhcpAck 4000000000) (\<lambda>ack. ok_io (carry_forward l ack)))) (renewed s)" for x fd
  proof -
    let ?s1 = "s\<lparr>ph := if rebinds then REBINDING (Some x) else RENEWING (Some x)\<rparr>"
    have fail: "renewed s (Err e) s2" "renewed s Panic s2" "renewed s Hang s2" if "later ?s1 s2" for s2 e
      using later_fields [OF that] assms(1) by (auto simp: renewed_def)
    have "follows (dhcp_path env mac) (answered s2 ack) (ok_io (carry_forward l ack)) (renewed s)" if "later ?s1 s2" for s2 ack
      using later_fields [OF that] assms(2)
      by (intro dhcp.follows_ok) (auto simp: renewed_def answered_def split: if_splits)
    then show ?thesis
      using fail assms dhcp_paths(8) [of s l env mac fd x] dhcp_paths(10) [of s l env mac fd x]
      by (intro exchange_follows [of _ _ _ _ ?s1]) (auto split: if_splits)
  qed
  have "follows (dhcp_path env mac) s (State_Monad.bind (os_now K) (\<lambda>now. let x = word_of_int now in
       try_io (wrap_io ''send REQUEST'' (os_unit K (renewal mac l x rebinds fd))) (\<lambda>_.
       try_io (recvDHCP fuel K fd x dhcpAck 4000000000) (\<lambda>ack. ok_io (carry_forward l ack))))) (renewed s)" for fd
    unfolding Let_def by (rule dhcp.follows_bind [OF now_follows]) (auto intro: asked)
  then show ?thesis unfolding dhcpRenew_def using kept by (rule with_dhcp_socket_follows)
qed



text \<open>The client still looks for a lease; what it holds is untouched.\<close>

definition searching :: "client \<Rightarrow> client \<Rightarrow> bool" where
  "searching s s' \<longleftrightarrow> held s' = held s \<and> fresh s' = fresh s \<and> waited s \<le> waited s' \<and> acquiring (ph s')"

lemma searching_later: "searching s s1 \<Longrightarrow> later s1 s2 \<Longrightarrow> searching s s2"
  using later_fields [of s1 s2] by (auto simp: searching_def)

definition selected :: "client \<Rightarrow> 32 word \<Rightarrow> dhcpLease option res \<Rightarrow> client \<Rightarrow> bool" where
  "selected s x r s' \<longleftrightarrow> searching s s' \<and> (case r of Ok (Some offer) \<Rightarrow> ph s' = OFFERED x offer | _ \<Rightarrow> True)"

lemma discover_path:
  assumes "ph s = INIT \<and> Suc n \<le> 3 \<or> (\<exists>k. ph s = SELECTING x k \<and> k + Suc n \<le> 3)"
  obtains k where "k + n \<le> 3"
    "\<And>r. dhcp_path env mac s [(Sendto fd (discover_packet mac x) dhcp_bcast, r)] (s\<lparr>ph := SELECTING x k\<rparr>)"
proof (cases "ph s = INIT")
  case True
  show thesis by (rule that [of 1]) (use True assms in \<open>auto intro: dhcp_paths(4) [of s, unfolded One_nat_def]\<close>)
next
  case False
  then obtain k where k: "ph s = SELECTING x k" "k + Suc n \<le> 3" using assms by auto
  show thesis by (rule that [of "Suc k"]) (use k in \<open>auto intro: dhcp_paths(5)\<close>)
qed

lemma discover_follows:
  assumes "searching s0 s" "ph s = INIT \<and> n \<le> 3 \<or> (\<exists>k. ph s = SELECTING x k \<and> k + n \<le> 3)"
  shows "follows (dhcp_path env mac) s (discover fuel n K fd mac x) (selected s0 x)"
  using assms
proof (induction n arbitrary: s)
  case 0
  then show ?case by (auto intro!: dhcp.follows_ok simp: selected_def)
next
  case (Suc n)
  obtain k where k: "k + n \<le> 3" "\<And>r. dhcp_path env mac s [(Sendto fd (discover_packet mac x) dhcp_bcast, r)] (s\<lparr>ph := SELECTING x k\<rparr>)"
    using discover_path [OF Suc.prems(2)] by blast
  let ?s1 = "s\<lparr>ph := SELECTING x k\<rparr>"
  have s1: "searching s0 ?s1" using Suc.prems(1) by (simp add: searching_def)
  have "follows (dhcp_path env mac) ?s1 (State_Monad.bind (recvDHCP fuel K fd x dhcpOffer 2000000000) (\<lambda>r. case r of
         Ok offer \<Rightarrow> ok_io (Some offer)
       | Err e \<Rightarrow> discover fuel n K fd mac x
       | Panic \<Rightarrow> State_Monad.return Panic
       | Hang \<Rightarrow> State_Monad.return Hang)) (selected s0 x)"
  proof (rule dhcp.follows_bind [OF recvDHCP_follows])
    fix r s2 assume r: "replied ?s1 r s2"
    show "follows (dhcp_path env mac) s2 (case r of
         Ok offer \<Rightarrow> ok_io (Some offer)
       | Err e \<Rightarrow> discover fuel n K fd mac x
       | Panic \<Rightarrow> State_Monad.return Panic
       | Hang \<Rightarrow> State_Monad.return Hang) (selected s0 x)"
    proof (cases r)
      case (Ok offer)
      then obtain s3 where "later ?s1 s3" "s2 = answered s3 offer" using r by (auto simp: replied_def)
      then show ?thesis using later_fields [of ?s1 s3] s1 Ok
        by (auto intro!: dhcp.follows_ok simp: selected_def searching_def answered_def)
    next
      case (Err e)
      then have l: "later ?s1 s2" using r by (simp add: replied_def)
      then have "ph s2 = SELECTING x k" using later_fields [OF l] by simp
      then show ?thesis using Err Suc.IH [OF searching_later [OF s1 l]] k(1) by simp
    qed (use r searching_later [OF s1] in \<open>auto intro!: dhcp.follows_return simp: replied_def selected_def\<close>)
  qed simp
  moreover have fail: "selected s0 x (Err e) ?s1" "selected s0 x Panic ?s1" "selected s0 x Hang ?s1" for e
    using s1 by (simp_all add: selected_def)
  ultimately show ?case unfolding discover.simps
    by (intro dhcp.follows_try [where R = "\<lambda>_ s'. s' = ?s1"] follows_wrap follows_os) (auto intro: k(2))
qed

definition acquired :: "client \<Rightarrow> dhcpLease res \<Rightarrow> client \<Rightarrow> bool" where
  "acquired s r s' \<longleftrightarrow> (case r of Ok l \<Rightarrow> s' = bound_client l (held s = None) | _ \<Rightarrow> searching s s')"

lemma try_wrap: "try_io (wrap_io x m) f = State_Monad.bind m (\<lambda>r. case wrap_err x r of
    Ok a \<Rightarrow> f a | Err e \<Rightarrow> State_Monad.return (Err e) | Panic \<Rightarrow> State_Monad.return Panic | Hang \<Rightarrow> State_Monad.return Hang)"
  by (simp add: try_io_def wrap_io_def)

lemma dhcpAcquire_follows:
  assumes "ph s = INIT"
  shows "follows (dhcp_path env mac) s (dhcpAcquire fuel K mac x timeout) (acquired s)"
  unfolding dhcpAcquire_def
proof (rule with_dhcp_socket_follows)
  have i: "searching s s" using assms by (simp add: searching_def)
  show "acquired s (Err e) s" "acquired s Panic s" "acquired s Hang s" for e using i by (simp_all add: acquired_def)
  have ask: "follows (dhcp_path env mac) s1
      (try_io (wrap_io ''send REQUEST'' (os_unit K (Sendto fd (request_packet mac x offer) dhcp_bcast))) (\<lambda>_.
       try_io (wrap_io ''no DHCPACK'' (recvDHCP fuel K fd x dhcpAck 4000000000)) (\<lambda>ack. ok_io (merge_offer offer ack)))) (acquired s)"
    if s1: "searching s s1" "ph s1 = OFFERED x offer" for s1 offer fd
  proof (rule dhcp.follows_try [where R = "\<lambda>_ s'. s' = s1\<lparr>ph := REQUESTING x offer\<rparr>"], rule follows_wrap, rule follows_os)
    let ?s2 = "s1\<lparr>ph := REQUESTING x offer\<rparr>"
    have s2: "searching s ?s2" using s1 by (simp add: searching_def)
    show "\<exists>s'. dhcp_path env mac s1 [(Sendto fd (request_packet mac x offer) dhcp_bcast, r)] s' \<and> s' = ?s2" for r
      using dhcp_paths(6) [OF s1(2)] by blast
    show "s' = ?s2 \<Longrightarrow> acquired s (Err e) s'" "s' = ?s2 \<Longrightarrow> acquired s Panic s'" "s' = ?s2 \<Longrightarrow> acquired s Hang s'" for s' e
      using s2 by (simp_all add: acquired_def)
    show "follows (dhcp_path env mac) s'
        (try_io (wrap_io ''no DHCPACK'' (recvDHCP fuel K fd x dhcpAck 4000000000)) (\<lambda>ack. ok_io (merge_offer offer ack))) (acquired s)"
      if "s' = ?s2" for s'
      unfolding that try_wrap
    proof (rule dhcp.follows_bind [OF recvDHCP_follows])
      fix r s3 assume r: "replied ?s2 r s3"
      show "follows (dhcp_path env mac) s3 (case wrap_err ''no DHCPACK'' r of Ok ack \<Rightarrow> ok_io (merge_offer offer ack)
          | Err e \<Rightarrow> State_Monad.return (Err e) | Panic \<Rightarrow> State_Monad.return Panic | Hang \<Rightarrow> State_Monad.return Hang) (acquired s)"
      proof (cases r)
        case (Ok ack)
        then obtain s4 where "later ?s2 s4" "s3 = answered s4 ack" using r by (auto simp: replied_def)
        then show ?thesis using later_fields [of ?s2 s4] s2 Ok
          by (auto intro!: dhcp.follows_ok simp: acquired_def searching_def answered_def)
      qed (use r searching_later [OF s2] in \<open>auto intro!: dhcp.follows_return simp: replied_def acquired_def\<close>)
    qed simp
  qed
  show "follows (dhcp_path env mac) s (try_io (discover fuel 3 K fd mac x) (\<lambda>got. case got of
           None \<Rightarrow> err_io (Text ''no DHCPOFFER'')
         | Some offer \<Rightarrow>
             try_io (wrap_io ''send REQUEST'' (os_unit K (Sendto fd (request_packet mac x offer) dhcp_bcast))) (\<lambda>_.
             try_io (wrap_io ''no DHCPACK'' (recvDHCP fuel K fd x dhcpAck 4000000000)) (\<lambda>ack.
             ok_io (merge_offer offer ack))))) (acquired s)" for fd
    by (rule dhcp.follows_try [OF discover_follows [OF i]])
       (auto simp: assms selected_def acquired_def intro!: ask dhcp.follows_err split: option.splits)
qed



text \<open>The calls that configure the node: they are local, so no step of the machine while nothing is awaited.\<close>

definition local_call :: "call \<Rightarrow> bool" where
  "local_call c \<longleftrightarrow> (case c of
       Socket a b d \<Rightarrow> True | Bind fd addr \<Rightarrow> True | CloseFd fd \<Rightarrow> True | Getsockname fd \<Rightarrow> True | Recvfrom fd n \<Rightarrow> True
     | WriteFile f d m \<Rightarrow> True | Sendto fd p NetlinkAddr \<Rightarrow> True | Now \<Rightarrow> True | _ \<Rightarrow> False)"

lemma local_call_simps [simp]:
  "local_call (Socket a b d)" "local_call (Bind fd addr)" "local_call (CloseFd fd)" "local_call (Getsockname fd)"
  "local_call (Recvfrom fd n)" "local_call (WriteFile f s m)" "local_call (Sendto fd p NetlinkAddr)" "local_call Now"
  by (simp_all add: local_call_def)

lemma local_recv_loop [only_intros]: "only local_call (recv_loop fuel K fd cap scan)"
  by (rule only_mono [OF only_recv_loop]) simp

lemma local_netlink [only_intros]:
  "only local_call (nlOpen K)" "only local_call (nlClose K s)" "only local_call (addAddrV4 fuel K s idx a p)"
  "only local_call (addDefaultRouteV4 fuel K s gw idx)" "only local_call (linkByName fuel K s name)"
  "only local_call (writeResolvConf K dns)"
  unfolding nlOpen_def nlClose_def addAddrV4_def addDefaultRouteV4_def linkByName_def nl_transact_def recvAck_def nl_dump_def nl_send_def
    writeResolvConf_def
  by (auto intro!: only_intros split: option.splits res.splits)

lemma local_applyLeaseDelta [only_intros]: "only local_call (applyLeaseDelta fuel K idx lease)"
  unfolding applyLeaseDelta_def Let_def by (auto intro!: only_intros split: res.splits)

lemma local_dhcp_link: "only local_call (dhcp_link fuel K iface)"
  unfolding dhcp_link_def by (auto intro!: only_intros split: res.splits)

lemma follows_local:
  assumes "only local_call m" "awaits (ph s) = None" "\<And>a. Q a s"
  shows "follows (dhcp_path env mac) s m Q"
proof (rule follows_idle)
  show "only (\<lambda>c. \<not> on_wire c \<and> \<not> is_sleep c) m"
    using assms(1) by (rule only_mono) (auto simp: local_call_def on_wire_def is_sleep_def split: call.splits sockaddr.splits)
qed (use assms in auto)

lemma bound_client_simps [simp]:
  "ph (bound_client l b) = BOUND" "held (bound_client l b) = Some l" "fresh (bound_client l b) = b" "waited (bound_client l b) = 0"
  by (simp_all add: bound_client_def)

lemma is_bound_client: "ph s = BOUND \<Longrightarrow> held s = Some l \<Longrightarrow> fresh s = b \<Longrightarrow> waited s = 0 \<Longrightarrow> s = bound_client l b"
  by (cases s) (simp add: bound_client_def)


section \<open>The rounds of the client\<close>

lemma follows_or_else:
  assumes "follows (dhcp_path env mac) s m R" "\<And>a s'. R (Ok a) s' \<Longrightarrow> follows (dhcp_path env mac) s' (f a) Q"
    and "\<And>e s'. R (Err e) s' \<Longrightarrow> follows (dhcp_path env mac) s' n Q" "\<And>s'. R Panic s' \<Longrightarrow> Q Panic s'" "\<And>s'. R Hang s' \<Longrightarrow> Q Hang s'"
  shows "follows (dhcp_path env mac) s (or_else m f n) Q"
  unfolding or_else_def
proof (rule dhcp.follows_bind [OF assms(1)])
  show "R r s' \<Longrightarrow> follows (dhcp_path env mac) s' (case r of Ok a \<Rightarrow> f a | Err e \<Rightarrow> n
      | Panic \<Rightarrow> State_Monad.return Panic | Hang \<Rightarrow> State_Monad.return Hang) Q" for r s'
    using assms(2-5) by (cases r) (auto intro: dhcp.follows_return)
qed

lemma follows_sleep:
  "follows (dhcp_path env mac) (s\<lparr>waited := waited s + max 0 d\<rparr>) (f ()) Q \<Longrightarrow>
     follows (dhcp_path env mac) s (State_Monad.bind (os_ignore K (Sleep d)) f) Q"
  by (rule dhcp.follows_bind [where R = "\<lambda>_ s'. s' = s\<lparr>waited := waited s + max 0 d\<rparr>"], rule follows_os_ignore)
     (auto intro: dhcp_paths(2))

definition settled :: "dhcpLease res \<Rightarrow> client \<Rightarrow> bool" where
  "settled r s \<longleftrightarrow> (case r of Ok l \<Rightarrow> s = bound_client l False | _ \<Rightarrow> True)"

lemma settled_fails [simp]: "settled (Err e) s" "settled Panic s" "settled Hang s"
  by (simp_all add: settled_def)

lemma adopt_follows: "follows (dhcp_path env mac) (bound_client l False) (adopt fuel K idx l) settled"
  unfolding adopt_def
  by (rule dhcp.follows_try [where R = "\<lambda>_ s'. s' = bound_client l False"], rule follows_local)
     (auto intro!: only_intros dhcp.follows_ok simp: settled_def)

text \<open>The stages of a round, each what follows when the one before it has failed.\<close>

abbreviation back_off :: "kernel \<Rightarrow> dhcpLease \<Rightarrow> dhcpLease res io" where
  "back_off K l \<equiv> State_Monad.bind (os_ignore K (Sleep 30000000000)) (\<lambda>_. ok_io l)"

abbreviation afresh :: "nat \<Rightarrow> kernel \<Rightarrow> bytes \<Rightarrow> int \<Rightarrow> dhcpLease \<Rightarrow> dhcpLease res io" where
  "afresh fuel K mac idx l \<equiv> State_Monad.bind (os_now K) (\<lambda>now.
     or_else (dhcpAcquire fuel K mac (word_of_int now) 4000000000) (adopt fuel K idx) (back_off K l))"

abbreviation rebinding :: "nat \<Rightarrow> kernel \<Rightarrow> bytes \<Rightarrow> int \<Rightarrow> int \<Rightarrow> dhcpLease \<Rightarrow> dhcpLease res io" where
  "rebinding fuel K mac idx d l \<equiv> State_Monad.bind (os_ignore K (Sleep d)) (\<lambda>_.
     or_else (dhcpRenew fuel K mac l True) (adopt fuel K idx) (afresh fuel K mac idx l))"

lemma back_off_follows:
  assumes "acquiring (ph s)" "held s = Some l" "\<not> fresh s" "0 \<le> waited s"
  shows "follows (dhcp_path env mac) s (back_off K l) settled"
proof (rule follows_sleep, rule dhcp.follows_before)
  let ?s = "s\<lparr>waited := waited s + max 0 30000000000\<rparr>"
  show "dhcp_path env mac ?s [] (?s\<lparr>ph := BOUND, waited := 0\<rparr>)" by (rule dhcp_paths(13)) (use assms in auto)
  show "follows (dhcp_path env mac) (?s\<lparr>ph := BOUND, waited := 0\<rparr>) (ok_io l) settled"
    using assms by (intro dhcp.follows_ok) (auto simp: settled_def intro!: is_bound_client)
qed

lemma afresh_follows:
  assumes "ph s = REBINDING x" "held s = Some l" "\<not> fresh s"
  shows "follows (dhcp_path env mac) s (afresh fuel K mac idx l) settled"
proof (rule dhcp.follows_before)
  let ?s = "s\<lparr>ph := INIT, waited := 0\<rparr>"
  show "dhcp_path env mac s [] ?s" by (rule dhcp_paths(12)) (use assms in auto)
  have "follows (dhcp_path env mac) ?s (or_else (dhcpAcquire fuel K mac y 4000000000) (adopt fuel K idx) (back_off K l)) settled" for y
    by (rule follows_or_else [OF dhcpAcquire_follows])
       (use assms in \<open>auto simp: acquired_def searching_def intro: adopt_follows back_off_follows\<close>)
  then show "follows (dhcp_path env mac) ?s (afresh fuel K mac idx l) settled"
    by (intro dhcp.follows_bind [OF now_follows]) auto
qed

lemma rebinding_follows:
  assumes "ph s = RENEWING x" "held s = Some l" "\<not> fresh s" "0 \<le> waited s" "timer2 env l \<le> d"
  shows "follows (dhcp_path env mac) s (rebinding fuel K mac idx d l) settled"
proof (rule follows_sleep, rule dhcp.follows_before)
  let ?s = "s\<lparr>waited := waited s + max 0 d\<rparr>"
  show "dhcp_path env mac ?s [] (?s\<lparr>ph := REBINDING None, waited := 0\<rparr>)" by (rule dhcp_paths(9)) (use assms in auto)
  show "follows (dhcp_path env mac) (?s\<lparr>ph := REBINDING None, waited := 0\<rparr>)
      (or_else (dhcpRenew fuel K mac l True) (adopt fuel K idx) (afresh fuel K mac idx l)) settled"
    by (rule follows_or_else [OF dhcpRenew_follows]) (use assms in \<open>auto simp: renewed_def intro: adopt_follows afresh_follows\<close>)
qed

lemma renew_round_follows: "follows (dhcp_path env mac) (bound_client l False) (renew_round fuel K env mac idx l) settled"
proof -
  obtain d1 d2 where d: "renew_times env (l_leaseSec l) = (d1, d2)" by (cases "renew_times env (l_leaseSec l)")
  show ?thesis
    unfolding renew_round_def d prod.case
  proof (rule follows_sleep, rule dhcp.follows_before)
    let ?s = "(bound_client l False)\<lparr>waited := waited (bound_client l False) + max 0 (sint d1)\<rparr>"
    show "dhcp_path env mac ?s [] (?s\<lparr>ph := RENEWING None, waited := 0\<rparr>)"
      by (rule dhcp_paths(7)) (use d in \<open>auto simp: timer1_def\<close>)
    show "follows (dhcp_path env mac) (?s\<lparr>ph := RENEWING None, waited := 0\<rparr>)
        (or_else (dhcpRenew fuel K mac l False) (adopt fuel K idx) (rebinding fuel K mac idx (sint (d2 - d1)) l)) settled"
      by (rule follows_or_else [OF dhcpRenew_follows]) (use d in \<open>auto simp: renewed_def timer2_def intro: adopt_follows rebinding_follows\<close>)
  qed
qed

lemma renew_rounds_follow: "follows (dhcp_path env mac) (bound_client l False) (renew_rounds fuel n K env mac idx l) settled"
proof (induction n arbitrary: l)
  case (Suc n)
  then show ?case unfolding renew_rounds.simps
    by (intro dhcp.follows_try [OF renew_round_follows]) (auto simp: settled_def)
qed (auto intro!: dhcp.follows_ok simp: settled_def)



text \<open>The check of a fresh lease tries both forms of a renewal at once and keeps the lease if neither works.\<close>

lemma dhcpRenewLoop_follows:
  "follows (dhcp_path env mac) (bound_client l True) (dhcpRenewLoop fuel n K env mac idx l) settled"
proof -
  let ?s1 = "(bound_client l True)\<lparr>ph := RENEWING None, waited := 0\<rparr>"
  have found: "follows (dhcp_path env mac) (bound_client new False) (ok_io new) settled" for new
    by (rule dhcp.follows_ok) (simp add: settled_def)
  have stays: "follows (dhcp_path env mac) s (ok_io l) settled" if "ph s = REBINDING x" "held s = Some l" "fresh s" for s x
  proof (rule dhcp.follows_before)
    show "dhcp_path env mac s [] (s\<lparr>ph := BOUND, waited := 0, fresh := False\<rparr>)" by (rule dhcp_paths(11)) (use that in auto)
    show "follows (dhcp_path env mac) (s\<lparr>ph := BOUND, waited := 0, fresh := False\<rparr>) (ok_io l) settled"
      using that by (intro dhcp.follows_ok) (auto simp: settled_def intro!: is_bound_client)
  qed
  have again: "follows (dhcp_path env mac) s (or_else (dhcpRenew fuel K mac l True) ok_io (ok_io l)) settled"
    if "ph s = RENEWING x" "held s = Some l" "fresh s" for s x
  proof (rule dhcp.follows_before)
    show "dhcp_path env mac s [] (s\<lparr>ph := REBINDING None, waited := 0\<rparr>)" by (rule dhcp_paths(9)) (use that in auto)
    show "follows (dhcp_path env mac) (s\<lparr>ph := REBINDING None, waited := 0\<rparr>) (or_else (dhcpRenew fuel K mac l True) ok_io (ok_io l)) settled"
      by (rule follows_or_else [OF dhcpRenew_follows])
         (use that in \<open>auto simp: renewed_def intro: found stays\<close>)
  qed
  have "follows (dhcp_path env mac) ?s1 (or_else (dhcpRenew fuel K mac l False) ok_io
      (or_else (dhcpRenew fuel K mac l True) ok_io (ok_io l))) settled"
    by (rule follows_or_else [OF dhcpRenew_follows])
       (auto simp: renewed_def intro!: found again)
  moreover have "dhcp_path env mac (bound_client l True) [] ?s1" by (rule dhcp_paths(7)) auto
  ultimately have "follows (dhcp_path env mac) (bound_client l True) (or_else (dhcpRenew fuel K mac l False) ok_io
      (or_else (dhcpRenew fuel K mac l True) ok_io (ok_io l))) settled"
    by (rule dhcp.follows_before [rotated])
  then show ?thesis unfolding dhcpRenewLoop_def
    by (rule dhcp.follows_try [where R = settled]) (auto simp: settled_def [of "Ok _"] intro: renew_rounds_follow)
qed



abbreviation configure :: "nat \<Rightarrow> kernel \<Rightarrow> bytes \<Rightarrow> int \<Rightarrow> dhcpLease \<Rightarrow> nlSocket \<Rightarrow> (bytes \<times> int \<times> dhcpLease) option res io" where
  "configure fuel K mac idx l s \<equiv>
     or_skip (addAddrV4 fuel K s idx (l_ip l) (int (mask_size (l_mask l)))) (\<lambda>_.
     ignore_io (if has_gateway l then addDefaultRouteV4 fuel K (nl_bump s) (l_gateway l) idx else ok_io ()) (
     State_Monad.bind (writeResolvConf K (l_dns l)) (\<lambda>_. ok_io (Some (mac, idx, l)))))"

lemma skip_as_else: "or_skip m f = or_else m f (ok_io None)" "ignore_io m n = or_else m (\<lambda>_. n) n"
  by (simp_all add: or_skip_def or_else_def ignore_io_def)

lemma or_skip_Ok: "result m h = Ok a \<Longrightarrow> run_state (or_skip m f) h = run_state (f a) (after m h)"
  by (simp add: or_skip_def case_prod_beta)

text \<open>\<open>dhcpFirst\<close> ends with the lease that it has acquired, unless it gives up.\<close>

definition first_end :: "bytes \<Rightarrow> int \<Rightarrow> (bytes \<times> int \<times> dhcpLease) option res \<Rightarrow> client \<Rightarrow> bool" where
  "first_end mac idx r s \<longleftrightarrow> (case r of Ok (Some (m, i, l)) \<Rightarrow> m = mac \<and> i = idx \<and> s = bound_client l True | _ \<Rightarrow> True)"

lemma first_end_fails [simp]:
  "first_end mac idx (Err e) s" "first_end mac idx Panic s" "first_end mac idx Hang s" "first_end mac idx (Ok None) s"
  by (simp_all add: first_end_def)

lemma configure_follows:
  "follows (dhcp_path env mac) (bound_client l True) (defer_io (nlClose K s) (configure fuel K mac idx l s))
     (\<lambda>r s'. s' = bound_client l True \<and> first_end mac idx r s')"
proof -
  note idle = follows_local [where s = "bound_client l True" and Q = "\<lambda>_ s'. s' = bound_client l True"]
  have named: "follows (dhcp_path env mac) (bound_client l True) (State_Monad.bind (writeResolvConf K (l_dns l)) (\<lambda>_. ok_io (Some (mac, idx, l))))
      (\<lambda>r s'. s' = bound_client l True \<and> first_end mac idx r s')"
    by (rule dhcp.follows_bind [OF idle]) (auto intro!: only_intros dhcp.follows_ok simp: first_end_def)
  have route: "follows (dhcp_path env mac) (bound_client l True)
      (if has_gateway l then addDefaultRouteV4 fuel K (nl_bump s) (l_gateway l) idx else ok_io ()) (\<lambda>_ s'. s' = bound_client l True)"
    by (rule idle) (auto intro!: only_intros)
  show ?thesis unfolding skip_as_else
  proof (rule dhcp.follows_defer)
    show "follows (dhcp_path env mac) (bound_client l True)
        (or_else (addAddrV4 fuel K s idx (l_ip l) (int (mask_size (l_mask l)))) (\<lambda>_.
         or_else (if has_gateway l then addDefaultRouteV4 fuel K (nl_bump s) (l_gateway l) idx else ok_io ())
          (\<lambda>_. State_Monad.bind (writeResolvConf K (l_dns l)) (\<lambda>_. ok_io (Some (mac, idx, l))))
          (State_Monad.bind (writeResolvConf K (l_dns l)) (\<lambda>_. ok_io (Some (mac, idx, l))))) (ok_io None))
        (\<lambda>r s'. s' = bound_client l True \<and> first_end mac idx r s')"
      by (rule follows_or_else [OF idle], rule only_intros)
         (auto intro: dhcp.follows_ok follows_or_else [OF route] named split del: if_split)
    show "r1 = bound_client l True \<and> first_end mac idx r r1 \<Longrightarrow>
        follows (dhcp_path env mac) r1 (nlClose K s) (\<lambda>_ s'. s' = bound_client l True \<and> first_end mac idx r s')" for r r1
      by (rule follows_local) (auto intro: only_intros)
  qed
qed

lemma first_tail_follows:
  "follows (dhcp_path env mac) start_client (State_Monad.bind (os_now K) (\<lambda>now.
     or_skip (dhcpAcquire fuel K mac (word_of_int now) 4000000000) (\<lambda>l. or_skip (nlOpen K) (\<lambda>s.
     defer_io (nlClose K s) (configure fuel K mac idx l s))))) (first_end mac idx)"
proof -
  have opened: "follows (dhcp_path env mac) (bound_client l True)
      (or_skip (nlOpen K) (\<lambda>s. defer_io (nlClose K s) (configure fuel K mac idx l s))) (first_end mac idx)" for l
    unfolding skip_as_else(1) [of "nlOpen K"]
    by (rule follows_or_else [OF follows_local [where Q = "\<lambda>_ s'. s' = bound_client l True"]])
       (auto intro: only_intros dhcp.follows_ok follows_mono [OF configure_follows] split del: if_split)
  have "follows (dhcp_path env mac) start_client (or_skip (dhcpAcquire fuel K mac x 4000000000) (\<lambda>l.
      or_skip (nlOpen K) (\<lambda>s. defer_io (nlClose K s) (configure fuel K mac idx l s)))) (first_end mac idx)" for x
    unfolding skip_as_else(1) [of "dhcpAcquire fuel K mac x 4000000000"]
    by (rule follows_or_else [OF dhcpAcquire_follows]) (auto simp: start_client_def acquired_def intro: opened dhcp.follows_ok)
  then show ?thesis
    by (intro dhcp.follows_bind [OF now_follows]) auto
qed

lemma dhcpFirst_path:
  assumes "result (dhcpFirst fuel K iface) h = Ok (Some (mac, idx, l))"
  shows "dhcp_path env mac start_client (events (dhcpFirst fuel K iface) h) (bound_client l True)"
proof -
  let ?tail = "\<lambda>mac idx. State_Monad.bind (os_now K) (\<lambda>now.
     or_skip (dhcpAcquire fuel K mac (word_of_int now) 4000000000) (\<lambda>l. or_skip (nlOpen K) (\<lambda>s.
     defer_io (nlClose K s) (configure fuel K mac idx l s))))"
  let ?link = "dhcp_link fuel K iface" and ?h = "after (dhcp_link fuel K iface) h"
  have def: "dhcpFirst fuel K iface = or_skip ?link (\<lambda>(idx, mac0). ?tail (case mac0 of None \<Rightarrow> fallback_mac | Some m \<Rightarrow> m) idx)"
    by (simp add: dhcpFirst_def Let_def)
  obtain i m0 where link: "result ?link h = Ok (i, m0)"
    using assms unfolding def or_skip_def result_bind by (cases "result ?link h") auto
  define m where "m = (case m0 of None \<Rightarrow> fallback_mac | Some m \<Rightarrow> m)"
  have run: "result (?tail m i) ?h = Ok (Some (mac, idx, l))" "after (dhcpFirst fuel K iface) h = after (?tail m i) ?h"
    using assms unfolding def or_skip_Ok [OF link] prod.case m_def by simp_all
  obtain ev s' where t: "after (?tail m i) ?h = ?h @ ev" "dhcp_path env m start_client ev s'"
      "first_end m i (result (?tail m i) ?h) s'"
    using first_tail_follows unfolding follows_def by blast
  have "follows (dhcp_path env mac) start_client ?link (\<lambda>_ s'. s' = start_client)"
    by (rule follows_local [OF local_dhcp_link]) (simp_all add: start_client_def)
  then obtain ev0 where ev0: "?h = h @ ev0" "dhcp_path env mac start_client ev0 start_client"
    unfolding follows_def by blast
  have "m = mac" "s' = bound_client l True" using t(3) unfolding run(1) first_end_def by simp_all
  moreover have "events (dhcpFirst fuel K iface) h = ev0 @ ev"
    using run(2) t(1) ev0(1) by (simp add: events_append)
  ultimately show ?thesis using dhcp.path_append [OF ev0(2)] t(2) by simp
qed




section \<open>Invariants of the machine\<close>

definition client_ok :: "client \<Rightarrow> bool" where
  "client_ok s \<longleftrightarrow> 0 \<le> waited s
     \<and> (case held s of None \<Rightarrow> acquiring (ph s) \<and> \<not> fresh s | Some l \<Rightarrow> l_mask l \<noteq> None)
     \<and> (case ph s of SELECTING x n \<Rightarrow> 1 \<le> n \<and> n \<le> 3 | _ \<Rightarrow> True)"

lemma answer_awaits: "answer p e = Some l \<Longrightarrow> awaits p \<noteq> None"
  by (auto simp: answer_def split: option.splits)

lemma dhcp_step_ok: "dhcp_step env mac s ev s' \<Longrightarrow> client_ok s \<Longrightarrow> client_ok s'"
proof (induction rule: dhcp_step.induct)
  case (reply s e l)
  then show ?case using answer_awaits [OF reply.hyps]
    by (cases "ph s") (auto simp: client_ok_def answered_def bound_client_def merge_offer_mask [simplified] carry_forward_fields split: option.splits)
qed (auto simp: client_ok_def split: option.splits)

lemma dhcp_path_ok: "dhcp_path env mac s ev s' \<Longrightarrow> client_ok s \<Longrightarrow> client_ok s'"
  by (induction rule: dhcp_path.induct) (auto dest: dhcp_step_ok)

lemma start_client_ok: "client_ok start_client"
  by (simp add: client_ok_def start_client_def)

text \<open>A lease is replaced only when an acknowledgment of the awaited transaction arrives.\<close>

definition acknowledges :: "call \<times> reply \<Rightarrow> bool" where
  "acknowledges e \<longleftrightarrow> (\<exists>fd n pkt x l. e = (Recvfrom fd n, RBytes pkt) \<and> match_reply x dhcpAck pkt = Some l)"

lemma dhcp_step_held: "dhcp_step env mac s ev s' \<Longrightarrow> held s' \<noteq> held s \<Longrightarrow> \<exists>e \<in> set ev. acknowledges e"
proof (induction rule: dhcp_step.induct)
  case (reply s e l)
  have "\<exists>x. awaits (ph s) = Some (x, dhcpAck)"
    using reply.prems answer_awaits [OF reply.hyps]
    by (cases "ph s" rule: awaits.cases) (auto simp: answered_def)
  then show ?case using reply.hyps
    by (auto simp: answer_def acknowledges_def split: option.splits prod.splits call.splits reply.splits)
qed auto

lemma dhcp_path_held: "dhcp_path env mac s ev s' \<Longrightarrow> held s' \<noteq> held s \<Longrightarrow> \<exists>e \<in> set ev. acknowledges e"
proof (induction rule: dhcp_path.induct)
  case (go s ev s' ev' s'')
  then show ?case using dhcp_step_held [OF go.hyps(1)] by (cases "held s' = held s") auto
qed simp




section \<open>The client refines the machine\<close>

text \<open>A machine with one interface and a server that leases an address: the instance of the statements
  below.\<close>

definition link_msg :: nlmsg where
  "link_msg = \<lparr>nm_type = RTM_NEWLINK, nm_flags = 0, nm_seq = 1, nm_pid = 0,
     nm_data = replicate 4 0 @ le32 2 @ replicate 8 0 @ nlAttrStr iflaIfname ''eth0''\<rparr>"

definition dhcp_world :: kernel where
  "dhcp_world h c = (case c of
       Now \<Rightarrow> RInt 7
     | Socket a b d \<Rightarrow> RInt (if a = 16 then 4 else 3)
     | Recvfrom fd n \<Rightarrow>
         RBytes (if n = 16384 then nl_frame link_msg else if n = 8192 then nl_frame (ack_msg 1 0 (replicate 16 0))
                 else reply_packet (if length (sends h) = 2 then dhcpOffer else dhcpAck))
     | _ \<Rightarrow> RUnit)"

lemma dhcp_world_simps [simp]:
  "dhcp_world h Now = RInt 7" "dhcp_world h (Socket a b d) = RInt (if a = 16 then 4 else 3)"
  "dhcp_world h (CloseFd fd) = RUnit" "dhcp_world h (Bind fd x) = RUnit" "dhcp_world h (Getsockname fd) = RUnit"
  "dhcp_world h (Sendto fd p x) = RUnit" "dhcp_world h (SetNonblock fd) = RUnit" "dhcp_world h (Setsockopt fd a' b' v) = RUnit"
  "dhcp_world h (Recvfrom fd 16384) = RBytes (nl_frame link_msg)"
  "dhcp_world h (Recvfrom fd 8192) = RBytes (nl_frame (ack_msg 1 0 (replicate 16 0)))"
  "dhcp_world h (Recvfrom fd 1500) = RBytes (reply_packet (if length (sends h) = 2 then dhcpOffer else dhcpAck))"
  by (simp_all add: dhcp_world_def)

lemma link_msg_scan: "frame_ok link_msg" "scan_link ''eth0'' 1 [(link_msg, tail)] = Some (Ok (2, None))"
proof -
  have "length (nm_data link_msg) = 28" by code_simp
  then show "frame_ok link_msg" by (simp add: frame_ok_def)
  have "nm_type link_msg = RTM_NEWLINK" "nm_data link_msg \<noteq> []" "link_index link_msg = 2" "nm_seq link_msg = 1"
    "RTM_NEWLINK \<noteq> NLMSG_DONE" "RTM_NEWLINK \<noteq> NLMSG_ERROR" by code_simp+
  moreover have "(case parse_route_attrs link_msg of Ok as \<Rightarrow> link_attrs ''eth0'' as (False, None) = (True, None) | _ \<Rightarrow> False) = True"
    by code_simp
  ultimately show "scan_link ''eth0'' 1 [(link_msg, tail)] = Some (Ok (2, None))" by (auto split: res.splits)
qed

abbreviation "leased \<equiv> merge_offer (empty_lease [10, 0, 2, 15]) (empty_lease [10, 0, 2, 15])"

lemma dhcp_world_link:
  "result (dhcp_link 1 dhcp_world ''eth0'') [] = Ok (2, None)" "length (sends (after (dhcp_link 1 dhcp_world ''eth0'') [])) = 1"
  by (simp_all add: dhcp_link_def nlOpen_def run_try_io linkByName_def nl_dump_def nl_send_def parse_nlmsgs_frame link_msg_scan nlClose_def
    is_send_def [of "Getsockname _"] del: scan_link.simps)

lemma dhcp_world_lease:
  "length (sends h) = 1 \<Longrightarrow> result (dhcpAcquire 1 dhcp_world mac 7 t) h = Ok leased"
  by (simp add: dhcpAcquire_def with_dhcp_socket_def run_try_io run_defer_io recvDHCP_def match_reply_packet numeral_3_eq_3)

lemma dhcp_world_addr:
  "result (addAddrV4 1 dhcp_world \<lparr>so_fd = 4, so_seq = 0, so_pid = p\<rparr> i (l_ip leased) n) h = Ok ()"
  by (simp add: addAddrV4_def nl_transact_def run_try_io nl_send_def recvAck_def parse_nlmsgs_frame frame_ok_ack scan_ack_msg nl_bump_def
    to4_def merge_offer_def empty_lease_def Let_def del: scan_ack.simps)

lemma dhcp_world_first: "result (dhcpFirst 1 dhcp_world ''eth0'') [] = Ok (Some (fallback_mac, 2, leased))"
proof -
  let ?s = "\<lparr>so_fd = 4, so_seq = 0, so_pid = 0\<rparr>"
  have "\<not> has_gateway leased" "l_dns leased = []"
    by (simp_all add: has_gateway_def merge_offer_def empty_lease_def Let_def)
  then have conf: "result (configure 1 dhcp_world fallback_mac 2 leased ?s) h = Ok (Some (fallback_mac, 2, leased))" for h
    unfolding or_skip_Ok [OF dhcp_world_addr] by (simp add: run_ignore_io writeResolvConf_def)
  have opened: "result (nlOpen dhcp_world) h = Ok ?s" for h by (simp add: nlOpen_def run_try_io)
  define h1 where "h1 = after (dhcp_link 1 dhcp_world ''eth0'') []"
  have "length (sends (h1 @ [(Now, RInt 7)])) = 1" using dhcp_world_link(2) by (simp add: h1_def)
  note lease = dhcp_world_lease [OF this]
  have now: "run_state (State_Monad.bind (os_now dhcp_world) f) h = run_state (f 7) (h @ [(Now, RInt 7)])" for f :: "int \<Rightarrow> 'b io" and h
    by simp
  show ?thesis
    unfolding dhcpFirst_def or_skip_Ok [OF dhcp_world_link(1)] prod.case Let_def option.case h1_def [symmetric] now
      of_int_numeral or_skip_Ok [OF lease] or_skip_Ok [OF opened] result_defer by (rule conf)
qed

text \<open>C3 (the client refines RFC 2131's machine): from the first DHCP exchange of the boot on, through any
  number of rounds of the renewal loop and whatever the kernel and the network answer, the datagrams,
  waits and answers of the client are a path of the machine from \<open>INIT\<close>. It ends bound to the lease
  that the loop hands to its next round; the lease that the client holds always has a netmask, and it
  differs from the first one only if an acknowledgment has been received.\<close>

theorem dhcp_client_refines:
  assumes "result (dhcpFirst fuel K iface) h = Ok (Some (mac, idx, lease))"
  shows "\<exists>s. dhcp_path env mac start_client
        (events (dhcpFirst fuel K iface) h @ events (dhcpRenewLoop fuel n K' env mac idx lease) h') s
    \<and> client_ok s \<and> settled (result (dhcpRenewLoop fuel n K' env mac idx lease) h') s
    \<and> (held s \<noteq> Some lease \<longrightarrow> list_ex acknowledges (events (dhcpRenewLoop fuel n K' env mac idx lease) h'))"
proof -
  have first: "dhcp_path env mac start_client (events (dhcpFirst fuel K iface) h) (bound_client lease True)"
    using assms by (rule dhcpFirst_path)
  obtain s where loop: "dhcp_path env mac (bound_client lease True) (events (dhcpRenewLoop fuel n K' env mac idx lease) h') s"
      "settled (result (dhcpRenewLoop fuel n K' env mac idx lease) h') s"
    using follows_events [OF dhcpRenewLoop_follows] by blast
  then show ?thesis
    using dhcp.path_append [OF first loop(1)] dhcp_path_ok [OF _ start_client_ok] dhcp_path_held [OF loop(1)]
    by (auto simp: list_ex_iff)
qed

theorem dhcp_client_refines_witness:
  "\<forall>n K' h'. \<exists>s. dhcp_path [] fallback_mac start_client
     (events (dhcpFirst 1 dhcp_world ''eth0'') [] @ events (dhcpRenewLoop 1 n K' [] fallback_mac 2 leased) h') s \<and> client_ok s"
  using dhcp_client_refines [OF dhcp_world_first, of "[]"] by blast


end
