(* ===== verification/LiveNode.thy ===== *)
theory LiveNode
  imports Boot DhcpClient
begin

text \<open>
  A node with its background work. Two goroutines outlive the functions that start them: the renewal
  loop that \<open>dhcpFirst\<close> starts once there is a lease, and the probe of the cluster's address that
  \<open>serveForever\<close> starts. They run beside the rest of the program until the machine is powered off,
  wherever they are then, so a run of the node is an interleaving of the main program with a prefix of
  each. When in the main program they start is left open, so that every order the scheduler can choose
  is among the runs.
\<close>

section \<open>Runs of a node\<close>

text \<open>The loop reads the override of its timers from the environment of the init.\<close>

definition envDHCPRenewSec :: string where "envDHCPRenewSec = ''ASTERKUBE_DHCP_RENEW_SEC''"

definition renewal_thread :: "nat \<Rightarrow> getenv \<Rightarrow> (bytes \<times> int \<times> dhcpLease) option \<Rightarrow> hist \<Rightarrow> bool" where
  "renewal_thread fuel env lease ev \<longleftrightarrow> (case lease of
       None \<Rightarrow> ev = []
     | Some (mac, idx, l) \<Rightarrow> \<exists>n K h. prefix ev (events (dhcpRenewLoop fuel n K (env envDHCPRenewSec) mac idx l) h))"

definition cluster_thread :: "bool \<Rightarrow> hist \<Rightarrow> bool" where
  "cluster_thread serves ev \<longleftrightarrow> (if serves then \<exists>K h. prefix ev (events (probeNodeClusterIP K) h) else ev = [])"

definition live_run :: "nat \<Rightarrow> getenv \<Rightarrow> (bytes \<times> int \<times> dhcpLease) option \<Rightarrow> bool \<Rightarrow> hist \<Rightarrow> hist \<Rightarrow> bool" where
  "live_run fuel env lease serves main ev \<longleftrightarrow>
     (\<exists>b1 b2. renewal_thread fuel env lease b1 \<and> cluster_thread serves b2 \<and> interleaving [main, b1, b2] ev)"


section \<open>What the background may do\<close>

definition background_call :: "call \<Rightarrow> bool" where
  "background_call c \<longleftrightarrow> (case c of
       Socket a b d \<Rightarrow> True | Bind fd addr \<Rightarrow> True | CloseFd fd \<Rightarrow> True | Getsockname fd \<Rightarrow> True | SetNonblock fd \<Rightarrow> True
     | Setsockopt fd m n v \<Rightarrow> True | Sendto fd p addr \<Rightarrow> True | Recvfrom fd n \<Rightarrow> True | Now \<Rightarrow> True | Sleep d \<Rightarrow> True
     | Dial net a p \<Rightarrow> True | SetDeadline fd t \<Rightarrow> True | Handshake fd \<Rightarrow> True
     | WriteFile f s m \<Rightarrow> f = ''/etc/resolv.conf'' | _ \<Rightarrow> False)"

lemma background_call_simps [simp]:
  "background_call (Socket a b d)" "background_call (Bind fd addr)" "background_call (CloseFd fd)" "background_call (Getsockname fd)"
  "background_call (SetNonblock fd)" "background_call (Setsockopt fd m n v)" "background_call (Sendto fd p addr)"
  "background_call (Recvfrom fd k)" "background_call Now" "background_call (Sleep t)" "background_call (Dial net x port)"
  "background_call (SetDeadline fd t)" "background_call (Handshake fd)" "background_call (WriteFile ''/etc/resolv.conf'' s mode)"
  by (simp_all add: background_call_def)

lemma background_netlink [only_intros]:
  "only background_call (recv_loop fuel K fd cap scan)" "only background_call (nlOpen K)" "only background_call (nlClose K s)"
  "only background_call (addAddrV4 fuel K s idx a p)" "only background_call (addDefaultRouteV4 fuel K s gw idx)"
  "only background_call (writeResolvConf K dns)"
proof -
  show r: "only background_call (recv_loop fuel K fd cap scan)" for fd cap and scan :: "(nlmsg \<times> bytes) list \<Rightarrow> 'b res option"
    by (rule only_mono [OF only_recv_loop]) simp
  show "only background_call (nlOpen K)" "only background_call (nlClose K s)"
    "only background_call (addAddrV4 fuel K s idx a p)" "only background_call (addDefaultRouteV4 fuel K s gw idx)"
    "only background_call (writeResolvConf K dns)"
    unfolding nlOpen_def nlClose_def addAddrV4_def addDefaultRouteV4_def nl_transact_def recvAck_def nl_send_def writeResolvConf_def
    by (auto intro!: only_intros r split: option.splits res.splits)
qed

lemma background_exchange [only_intros]:
  "(\<And>fd. only background_call (body fd)) \<Longrightarrow> only background_call (with_dhcp_socket K body)"
  "only background_call (discover fuel n K fd mac xid)"
proof -
  show "(\<And>fd. only background_call (body fd)) \<Longrightarrow> only background_call (with_dhcp_socket K body)"
    unfolding with_dhcp_socket_def by (intro only_intros) auto
  show "only background_call (discover fuel n K fd mac xid)"
    by (induction n) (auto intro!: only_intros split: res.splits)
qed

lemma background_client [only_intros]:
  "only background_call (dhcpAcquire fuel K mac xid t)" "only background_call (dhcpRenew fuel K mac lease rebinds)"
  "only background_call (applyLeaseDelta fuel K idx lease)"
  unfolding dhcpAcquire_def dhcpRenew_def applyLeaseDelta_def Let_def
  by (auto intro!: only_intros split: option.splits res.splits)

lemma only_or_else [only_intros]: "only P m \<Longrightarrow> (\<And>a. only P (f a)) \<Longrightarrow> only P n \<Longrightarrow> only P (or_else m f n)"
  unfolding or_else_def by (intro only_intros)

lemma background_dhcpRenewLoop: "only background_call (dhcpRenewLoop fuel n K env mac idx lease)"
proof -
  have "only background_call (renew_round fuel K env mac idx l)" for l
    unfolding renew_round_def adopt_def by (auto intro!: only_intros split: prod.splits)
  then have "only background_call (renew_rounds fuel n K env mac idx l)" for l
    by (induction n arbitrary: l) (auto intro!: only_intros)
  then show ?thesis unfolding dhcpRenewLoop_def by (intro only_intros)
qed

lemma background_probeNodeClusterIP: "only background_call (probeNodeClusterIP K)"
proof -
  have "only background_call (cluster_attempts n K)" for n
    by (induction n) (auto intro!: only_intros split: res.splits)
  then show ?thesis unfolding probeNodeClusterIP_def .
qed

lemma background_prefix:
  assumes "only background_call m" "prefix ev (events m h)"
  shows "list_all background_call (calls ev)"
  using only_made [OF assms(1), of _ h] assms(2) by (force simp: list_all_iff made_def calls_def prefix_def)

lemma threads_background:
  "renewal_thread fuel env lease ev \<Longrightarrow> list_all background_call (calls ev)"
  "cluster_thread serves ev \<Longrightarrow> list_all background_call (calls ev)"
  by (auto simp: renewal_thread_def cluster_thread_def split: option.splits if_splits
      dest: background_prefix [OF background_dhcpRenewLoop] background_prefix [OF background_probeNodeClusterIP])


section \<open>The main program is undisturbed\<close>

text \<open>What no other thread does is done as if the first thread ran alone.\<close>

lemma interleaving_filter_first:
  "interleaving xss ys \<Longrightarrow> xss = xs # bs \<Longrightarrow> list_all (list_all (\<lambda>e. \<not> P e)) bs \<Longrightarrow> filter P ys = filter P xs"
proof (induction arbitrary: xs bs rule: interleaving.induct)
  case (Step i xss x xs' ys)
  show ?case
  proof (cases i)
    case 0
    then have "xs = x # xs'" "xss[i := xs'] = xs' # bs" using Step.hyps Step.prems by auto
    then show ?thesis using Step.IH Step.prems by auto
  next
    case (Suc j)
    then have j: "j < length bs" "bs ! j = x # xs'" "xss[i := xs'] = xs # bs[j := xs']" using Step.hyps Step.prems by auto
    then have b: "list_all (\<lambda>e. \<not> P e) (x # xs')" using Step.prems(2) by (metis list_all_length)
    have "list_all (list_all (\<lambda>e. \<not> P e)) (bs[j := xs'])"
      using Step.prems(2) b set_update_subset_insert [of bs j xs'] by (auto simp: list_all_iff)
    then show ?thesis using Step.IH [OF j(3)] b by simp
  qed
qed auto

lemma live_run_foreground:
  assumes "live_run fuel env lease serves main ev"
  shows "filter (\<lambda>e. \<not> background_call (fst e)) ev = filter (\<lambda>e. \<not> background_call (fst e)) main"
proof -
  obtain b1 b2 where b: "list_all background_call (calls b1)" "list_all background_call (calls b2)" "interleaving [main, b1, b2] ev"
    using assms threads_background unfolding live_run_def by blast
  show ?thesis by (rule interleaving_filter_first [OF b(3) refl]) (use b(1,2) in \<open>auto simp: list_all_iff calls_def\<close>)
qed

lemma live_run_order: "live_run fuel env lease serves main ev \<Longrightarrow> subseq main ev"
  unfolding live_run_def using interleaving_order [of "[main, _, _]" ev 0] by auto


text \<open>The calls on processes, on power and on the file systems with which a node that serves comes to its end.\<close>

definition drain :: "node_state \<Rightarrow> call list" where
  "drain st = [Prctl prAsterkubeAcpi 0 0 0 0, AwaitSignal] @ map (\<lambda>pid. Kill pid SIGTERM) (liveProcs st)
     @ map (\<lambda>pid. Kill pid SIGKILL) (liveProcs st) @ [Sync]"

lemma foreground_simps [simp]:
  "\<not> background_call Sync" "\<not> background_call (Reboot n)" "\<not> background_call Pause" "\<not> background_call (Kill pid sig)"
  "\<not> background_call (Prctl a b c d e)" "\<not> background_call AwaitSignal"
  by (simp_all add: background_call_def)

lemma live_end_drain: "filter (\<lambda>c. \<not> background_call c) (live_end st) = drain st"
proof -
  have "filter (\<lambda>c. \<not> background_call c) (map (\<lambda>pid. Kill pid sig) ps) = map (\<lambda>pid. Kill pid sig) ps" for sig ps
    by (induction ps) simp_all
  then show ?thesis by (simp add: live_end_def drain_def)
qed

lemma filter_calls: "filter P (calls ev) = calls (filter (\<lambda>e. P (fst e)) ev)"
  by (simp add: calls_def filter_map comp_def)

lemma signalled_foreground: "signalled (filter (\<lambda>c. \<not> background_call c) cs) = signalled cs"
  by (auto simp: signalled_def)

text \<open>C7 (a node that serves comes to an orderly end): however the renewal of the lease and the probe of the
  cluster are interleaved with it, and wherever the end of the machine cuts them off, the end of the boot
  is the orderly one. Of the calls on processes, on power and on file systems there are exactly these, in
  this order: a node that stays up arms the power button, waits for a signal, asks every kept process to
  terminate, kills every one of them and flushes; every node flushes and powers off, and does nothing
  after that. Between the two rounds of signals there is the wait of three seconds, and nobody but the
  kept processes is signalled.\<close>

theorem live_node_orderly:
  assumes "live_run fuel env lease (stays_up env st) (events (finish_boot K env st) h) ev"
  shows "(\<exists>tail. filter (\<lambda>c. \<not> background_call c) (calls ev) =
        (if stays_up env st then drain st else []) @ [Sync, Reboot 0x4321fedc] @ tail \<and> set tail \<subseteq> {Pause})
    \<and> subseq ((if stays_up env st then live_end st else []) @ [Sync, Reboot 0x4321fedc]) (calls ev)
    \<and> signalled (calls ev) \<subseteq> set (liveProcs st)"
proof -
  obtain tail where tail: "made (finish_boot K env st) h = (if stays_up env st then live_end st else []) @ [Sync, Reboot 0x4321fedc] @ tail"
      "set tail \<subseteq> {Pause}"
    using finish_boot_orderly [of K env st h] by blast
  have "filter (\<lambda>c. \<not> background_call c) (calls ev) = filter (\<lambda>c. \<not> background_call c) (made (finish_boot K env st) h)"
    unfolding made_def filter_calls live_run_foreground [OF assms] ..
  moreover have "filter (\<lambda>c. \<not> background_call c) tail = tail" using tail(2) by (auto simp: filter_id_conv)
  ultimately have fg: "filter (\<lambda>c. \<not> background_call c) (calls ev) = (if stays_up env st then drain st else []) @ [Sync, Reboot 0x4321fedc] @ tail"
    using tail(1) live_end_drain [of st] by simp
  have "subseq (made (finish_boot K env st) h) (calls ev)"
    using live_run_order [OF assms] unfolding made_def calls_def by (rule subseq_map)
  moreover have "subseq ((if stays_up env st then live_end st else []) @ [Sync, Reboot 0x4321fedc]) (made (finish_boot K env st) h)"
    unfolding tail(1) append_assoc [symmetric] by (intro prefix_imp_subseq) simp
  moreover have "signalled (calls ev) \<subseteq> set (liveProcs st)"
    unfolding signalled_foreground [of "calls ev", symmetric] fg using tail(2)
    by (auto simp: signalled_def drain_def)
  ultimately show ?thesis using fg tail(2) subseq_order.trans by blast
qed



theorem live_node_orderly_witness:
  "\<exists>ev. live_run 1 (\<lambda>_. []) (Some (fallback_mac, 2, leased)) True
       (events (finish_boot dhcp_world (\<lambda>_. []) \<lparr>clusterJoined = True, liveProcs = [41, 42]\<rparr>) []) ev
    \<and> signalled (calls ev) \<subseteq> {41, 42}
    \<and> subseq [Kill 41 SIGTERM, Kill 42 SIGTERM, Sleep 3000000000, Kill 41 SIGKILL, Kill 42 SIGKILL, Sync, Sync, Reboot 0x4321fedc] (calls ev)"
proof -
  let ?st = "\<lparr>clusterJoined = True, liveProcs = [41, 42]\<rparr>" and ?env = "\<lambda>_. []"
  let ?main = "events (finish_boot dhcp_world ?env ?st) []"
  let ?b1 = "events (dhcpRenewLoop 1 0 dhcp_world [] fallback_mac 2 leased) []"
  let ?b2 = "events (probeNodeClusterIP dhcp_world) []"
  let ?ev = "concat [?main, ?b1, ?b2]"
  have up: "stays_up ?env ?st = True" by (simp add: stays_up_def nodeIsLive_def)
  have "renewal_thread 1 (\<lambda>_. []) (Some (fallback_mac, 2, leased)) ?b1" "cluster_thread True ?b2"
    unfolding renewal_thread_def cluster_thread_def by auto
  then have run: "live_run 1 (\<lambda>_. []) (Some (fallback_mac, 2, leased)) True ?main ?ev"
    unfolding live_run_def using interleaving_concat by blast
  have l: "live_end ?st @ [Sync, Reboot 0x4321fedc] = [Prctl prAsterkubeAcpi 0 0 0 0, AwaitSignal] @
      [Kill 41 SIGTERM, Kill 42 SIGTERM, Sleep 3000000000, Kill 41 SIGKILL, Kill 42 SIGKILL, Sync, Sync, Reboot 0x4321fedc]"
    by (simp add: live_end_def)
  from live_node_orderly [of 1 ?env "Some (fallback_mac, 2, leased)" ?st dhcp_world "[]" ?ev, unfolded up if_True l, OF run]
  have *: "subseq ([Prctl prAsterkubeAcpi 0 0 0 0, AwaitSignal] @
      [Kill 41 SIGTERM, Kill 42 SIGTERM, Sleep 3000000000, Kill 41 SIGKILL, Kill 42 SIGKILL, Sync, Sync, Reboot 0x4321fedc]) (calls ?ev)"
    "signalled (calls ?ev) \<subseteq> {41, 42}" by auto
  show ?thesis
    by (rule exI [of _ ?ev], intro conjI run) (use * subseq_append_le_same_iff in \<open>auto dest: subseq_Cons' simp del: concat.simps\<close>)
qed


end
