(* ===== verification/OciLifecycle.thy ===== *)
theory OciLifecycle
  imports OciRuntime
begin

text \<open>
  The contract of the OCI runtime's commands, and that the commands keep it. The runtime keeps no memory
  between two invocations but the file \<open>state.json\<close> of each container. Abstractly, a container is
  recorded or not, and its record goes through the states of the step relation \<open>life\<close>: created by
  create, running after start, gone after delete, untouched by kill and by queries. The abstraction
  \<open>recorded\<close> reads the record from the files that the calls of a history have left behind; every sequence
  of commands that succeed refines a path of the step relation.
\<close>

section \<open>The abstract machine\<close>

datatype oci_cmd = Create string | Start | Signal string | Query | Delete bool

inductive life :: "string \<Rightarrow> oci_cmd \<Rightarrow> containerState option \<Rightarrow> containerState option \<Rightarrow> bool" for cid where
  create: "cs_ID st = cid \<Longrightarrow> cs_Status st = ''created'' \<Longrightarrow> bundle \<noteq> [] \<longrightarrow> cs_Bundle st = bundle \<Longrightarrow>
    life cid (Create bundle) s (Some st)"
| start: "life cid Start (Some st) (Some (st\<lparr>cs_Status := ''running''\<rparr>))"
| signal: "life cid (Signal sig) (Some st) (Some st)"
| query: "life cid Query (Some st) (Some st)"
| delete: "life cid (Delete force) s None"

inductive lives :: "string \<Rightarrow> oci_cmd list \<Rightarrow> containerState option \<Rightarrow> containerState option \<Rightarrow> bool" for cid where
  none: "lives cid [] s s"
| step: "life cid c s s' \<Longrightarrow> lives cid cs s' s'' \<Longrightarrow> lives cid (c # cs) s s''"

inductive_simps life_Start: "life cid Start s s'"
inductive_cases livesE: "lives cid (c # cs) s s'"

text \<open>The record of a container is its own and says created or running.\<close>

definition own_record :: "string \<Rightarrow> containerState option \<Rightarrow> bool" where
  "own_record cid s = (case s of None \<Rightarrow> True | Some st \<Rightarrow> cs_ID st = cid \<and> cs_Status st \<in> {''created'', ''running''})"

lemma life_own_record: "life cid c s s' \<Longrightarrow> own_record cid s \<Longrightarrow> own_record cid s'"
  by (induction rule: life.induct) (auto simp: own_record_def)

lemma lives_own_record: "lives cid cs s s' \<Longrightarrow> own_record cid s \<Longrightarrow> own_record cid s'"
  by (induction rule: lives.induct) (auto dest: life_own_record)

text \<open>Starting, signalling or querying needs a record, so it is never the first command.\<close>

lemma lives_from_nothing:
  "lives cid (c # cs) None s' \<Longrightarrow> (\<exists>bundle. c = Create bundle) \<or> (\<exists>force. c = Delete force)"
  by (auto elim!: livesE elim: life.cases)


section \<open>Files\<close>

definition beneath :: "string \<Rightarrow> string \<Rightarrow> bool" where
  "beneath d p \<longleftrightarrow> p = d \<or> hasPrefix p (d @ ''/'')"

fun effect :: "string \<Rightarrow> call \<times> reply \<Rightarrow> string option \<Rightarrow> string option" where
  "effect p (WriteFile q s mode, r) f = (if q = p \<and> as_unit r = Ok () then Some s else f)"
| "effect p (Remove q, r) f = (if q = p \<and> as_unit r = Ok () then None else f)"
| "effect p (RemoveAll d, r) f = (if beneath d p \<and> as_unit r = Ok () then None else f)"
| "effect p e f = f"

definition file_at :: "string \<Rightarrow> hist \<Rightarrow> string option" where
  "file_at p h = fold (effect p) h None"

lemma file_at_append: "file_at p (h @ ev) = fold (effect p) ev (file_at p h)"
  by (simp add: file_at_def)

text \<open>A kernel whose file \<open>p\<close> is written by the runtime only: reading it gives what was written last.\<close>

definition reads_back :: "kernel \<Rightarrow> string \<Rightarrow> bool" where
  "reads_back K p \<longleftrightarrow> (\<forall>h. K h (ReadFile p) = (case file_at p h of Some s \<Rightarrow> RData s | None \<Rightarrow> RErr ENOENT))"

definition small_pids :: "kernel \<Rightarrow> bool" where
  "small_pids K \<longleftrightarrow> (\<forall>h a pid. K h (StartProcess a) = RInt pid \<longrightarrow> 0 < pid \<and> pid < 2 ^ 31)"

definition recorded :: "runtimeGlobals \<Rightarrow> string \<Rightarrow> hist \<Rightarrow> containerState option" where
  "recorded g cid h = (case file_at (state_file g cid) h of
       None \<Rightarrow> None
     | Some s \<Rightarrow> (case json_unmarshal dec_state s state0 of Ok st \<Rightarrow> Some st | _ \<Rightarrow> None))"

definition good_pid :: "containerState option \<Rightarrow> bool" where
  "good_pid s = (case s of None \<Rightarrow> True | Some st \<Rightarrow> - (2 ^ 63) \<le> cs_InitPid st \<and> cs_InitPid st < 2 ^ 63)"

text \<open>An id as containerd gives it: a plain word, so that its state file lies in its directory.\<close>

definition plain_id :: "runtimeGlobals \<Rightarrow> string \<Rightarrow> bool" where
  "plain_id g cid \<longleftrightarrow> cid \<noteq> [] \<and> \<not> hasPrefix cid ''-'' \<and> beneath (path_join [g_root g, cid]) (state_file g cid)"

definition run_cmd :: "rt_env \<Rightarrow> kernel \<Rightarrow> runtimeGlobals \<Rightarrow> string \<Rightarrow> oci_cmd \<Rightarrow> unit res io" where
  "run_cmd E K g cid c = (case c of
       Create bundle \<Rightarrow> cmdCreate E K g [''--bundle='' @ bundle, cid]
     | Start \<Rightarrow> cmdStart K g [cid]
     | Signal sig \<Rightarrow> cmdKill K g [cid, sig]
     | Query \<Rightarrow> cmdState K g [cid]
     | Delete force \<Rightarrow> cmdDelete K g (if force then [''--force'', cid] else [cid]))"

fun run_cmds :: "rt_env \<Rightarrow> kernel \<Rightarrow> runtimeGlobals \<Rightarrow> string \<Rightarrow> oci_cmd list \<Rightarrow> unit res io" where
  "run_cmds E K g cid [] = ok_io ()"
| "run_cmds E K g cid (c # cs) = try_io (run_cmd E K g cid c) (\<lambda>_. run_cmds E K g cid cs)"


section \<open>Each command is a step\<close>

lemma readState_recorded:
  assumes "reads_back K (state_file g cid)"
  shows "result (readState K g cid) h = Ok st \<longleftrightarrow> recorded g cid h = Some st"
    and "after (readState K g cid) h = h @ [(ReadFile (state_file g cid), K h (ReadFile (state_file g cid)))]"
proof -
  have "K h (ReadFile (state_file g cid)) = (case file_at (state_file g cid) h of Some s \<Rightarrow> RData s | None \<Rightarrow> RErr ENOENT)"
    using assms unfolding reads_back_def by blast
  then show "result (readState K g cid) h = Ok st \<longleftrightarrow> recorded g cid h = Some st"
    by (auto simp: readState_def recorded_def split: option.splits res.splits)
qed (simp add: readState_def)

lemma recorded_same: "file_at (state_file g cid) h' = file_at (state_file g cid) h \<Longrightarrow> recorded g cid h' = recorded g cid h"
  by (simp add: recorded_def)

lemma recorded_written:
  assumes "as_unit r = Ok ()" "good_pid (Some st)" "cs_ID st = cid"
  shows "recorded g cid (h @ [(WriteFile (state_file g (cs_ID st)) (json_print (enc_state st)) mode, r)]) = Some st"
  using assms by (simp add: recorded_def file_at_append good_pid_def state_reads_back)

lemma lastArg_single: "\<not> hasPrefix cid ''-'' \<Longrightarrow> lastArg [cid] = cid"
  by (simp add: lastArg_def)

lemma step_start:
  assumes "reads_back K (state_file g cid)" "plain_id g cid" "own_record cid (recorded g cid h)" "good_pid (recorded g cid h)"
    and "result (cmdStart K g [cid]) h = Ok ()"
  shows "life cid Start (recorded g cid h) (recorded g cid (after (cmdStart K g [cid]) h))"
proof -
  have l: "lastArg [cid] = cid" using assms(2) by (simp add: plain_id_def lastArg_single)
  obtain st where st: "result (readState K g cid) h = Ok st"
    using assms(5) by (auto simp: cmdStart_def l Let_def result_try_Ok)
  then have rec: "recorded g cid h = Some st" using readState_recorded(1) [OF assms(1)] by blast
  obtain h' r where h': "after (cmdStart K g [cid]) h =
      h' @ [(WriteFile (state_file g (cs_ID st)) (json_print (enc_state (st\<lparr>cs_Status := ''running''\<rparr>))) 384, r)]" "as_unit r = Ok ()"
    using assms(5) st by (auto simp: cmdStart_def l Let_def result_try_Ok after_try_Ok writeState_def result_bind)
  have "recorded g cid (after (cmdStart K g [cid]) h) = Some (st\<lparr>cs_Status := ''running''\<rparr>)"
    using recorded_written [OF h'(2), of "st\<lparr>cs_Status := ''running''\<rparr>" cid g h'] assms(3,4) rec h'(1)
    by (simp add: own_record_def good_pid_def)
  then show ?thesis by (simp add: rec life.start)
qed

text \<open>Reading, signalling and printing leave the files as they are.\<close>

lemma step_query:
  assumes "reads_back K (state_file g cid)" "plain_id g cid" "result (cmdState K g [cid]) h = Ok ()"
  shows "recorded g cid h \<noteq> None \<and> recorded g cid (after (cmdState K g [cid]) h) = recorded g cid h"
proof -
  have l: "lastArg [cid] = cid" using assms(2) by (simp add: plain_id_def lastArg_single)
  obtain st where st: "result (readState K g cid) h = Ok st"
    using assms(3) by (auto simp: cmdState_def l result_try_Ok)
  have "file_at (state_file g cid) (after (cmdState K g [cid]) h) = file_at (state_file g cid) h"
    using st by (simp add: cmdState_def l after_try_Ok readState_recorded(2) [OF assms(1)] current_status_def pidAlive_def
        result_bind file_at_append)
  from recorded_same [OF this] show ?thesis using st readState_recorded(1) [OF assms(1)] by auto
qed

lemma step_signal:
  assumes "reads_back K (state_file g cid)" "plain_id g cid" "result (cmdKill K g [cid, sig]) h = Ok ()"
  shows "recorded g cid h \<noteq> None \<and> recorded g cid (after (cmdKill K g [cid, sig]) h) = recorded g cid h"
proof -
  obtain sg where f: "fold kill_arg [cid, sig] ([], []) = (cid, sg)"
    using assms(2) by (cases "hasPrefix sig ''-''") (simp_all add: plain_id_def kill_arg_def)
  obtain st where st: "result (readState K g cid) h = Ok st"
    using assms(3) unfolding cmdKill_def f prod.case result_try_Ok by blast
  have "file_at (state_file g cid) (after (cmdKill K g [cid, sig]) h) = file_at (state_file g cid) h"
    unfolding cmdKill_def f prod.case after_try_Ok [OF st]
    by (simp add: readState_recorded(2) [OF assms(1)] file_at_append)
  from recorded_same [OF this] show ?thesis using st readState_recorded(1) [OF assms(1)] by auto
qed

text \<open>Deleting removes the directory of the container last, and with it the record.\<close>

lemma step_delete:
  assumes "reads_back K (state_file g cid)" "plain_id g cid"
    and "fold delete_arg args (False, []) = (force, cid)" "result (cmdDelete K g args) h = Ok ()"
  shows "recorded g cid (after (cmdDelete K g args) h) = None"
proof (cases "result (readState K g cid) h")
  case (Ok st)
  obtain h' r where "after (cmdDelete K g args) h = h' @ [(RemoveAll (path_join [g_root g, cid]), r)]" "as_unit r = Ok ()"
    using assms(4) unfolding cmdDelete_def assms(3) prod.case result_bind Ok res.case by simp
  then show ?thesis using assms(2) by (simp add: recorded_def file_at_append plain_id_def)
next
  case (Err e)
  then have "after (cmdDelete K g args) h = h @ [(ReadFile (state_file g cid), K h (ReadFile (state_file g cid)))]"
    unfolding cmdDelete_def assms(3) prod.case result_bind by (simp add: readState_recorded(2) [OF assms(1)])
  moreover have "recorded g cid h = None"
    using Err readState_recorded(1) [OF assms(1), of h] by (cases "recorded g cid h") auto
  ultimately show ?thesis using recorded_same [of g cid "after (cmdDelete K g args) h" h] by (simp add: file_at_append)
next
  case Panic
  then show ?thesis using assms(4) unfolding cmdDelete_def assms(3) prod.case result_bind by simp
next
  case Hang
  then show ?thesis using assms(4) unfolding cmdDelete_def assms(3) prod.case result_bind by simp
qed

lemma create_arg_word:
  assumes "\<not> hasPrefix a ''-''"
  shows "create_arg a rest c = Continue (c\<lparr>c_id := a\<rparr>) rest"
proof -
  have "a \<noteq> CHR ''-'' # t" "\<not> hasPrefix a (CHR ''-'' # t)" for t
    using assms by (cases a; auto simp: hasPrefix_def)+
  then show ?thesis using assms unfolding create_arg_def by simp
qed

lemma create_args_bundle:
  assumes "\<not> hasPrefix cid ''-''"
  shows "create_args_of [''--bundle='' @ bundle, cid] = Ok \<lparr>c_bundle = bundle, c_pidFile = [], c_id = cid\<rparr>"
proof -
  have "create_arg (''--bundle='' @ bundle) rest c = Continue (c\<lparr>c_bundle := bundle\<rparr>) rest" for rest c
    by (simp add: create_arg_def hasPrefix_def trimPrefix_def)
  then show ?thesis using create_arg_word [OF assms] unfolding create_args_of_def by simp
qed

lemma fork_writes_last:
  assumes "result (create_fork E K g c bundle spec) h = Ok ()" "c_pidFile c = []" "small_pids K"
  shows "\<exists>h' pid cg now r. 0 < pid \<and> pid < 2 ^ 31 \<and> as_unit r = Ok ()
    \<and> after (create_fork E K g c bundle spec) h = h' @
        [(WriteFile (state_file g (c_id c)) (json_print (enc_state (created_state E spec (c_id c) bundle pid cg now))) 384, r)]"
proof -
  let ?d = "MkdirAll (path_join [g_root g, c_id c])" and ?rm = "Remove (fifo_path (g_root g) (c_id c))"
    and ?mk = "Mkfifo (fifo_path (g_root g) (c_id c))" and ?st = "StartProcess (init_process E g (c_id c) bundle spec)"
  let ?h = "h @ [(?d, K h ?d)]"
  let ?h = "?h @ [(?rm, K ?h ?rm)]"
  let ?hm = "?h @ [(?mk, K ?h ?mk)]"
  let ?hs = "?hm @ [(?st, K ?hm ?st)]"
  obtain pid where ok: "as_unit (K h ?d) = Ok ()" "as_unit (K ?h ?mk) = Ok ()" "as_int (K ?hm ?st) = Ok pid"
    "result (create_record E K g c bundle spec pid) ?hs = Ok ()"
    using assms(1) by (auto simp: create_fork_def result_try_Ok)
  have pid: "0 < pid" "pid < 2 ^ 31"
    using ok(3) assms(3) unfolding small_pids_def by (cases "K ?hm ?st"; auto)+
  have af: "after (create_fork E K g c bundle spec) h = after (create_record E K g c bundle spec pid) ?hs"
    using ok(1-3) unfolding create_fork_def by (simp add: after_try_Ok result_bind del: run_wrap_io)
  obtain h' cg now r where "as_unit r = Ok ()" "after (create_record E K g c bundle spec pid) ?hs = h' @
      [(WriteFile (state_file g (c_id c)) (json_print (enc_state (created_state E spec (c_id c) bundle pid cg now))) 384, r)]"
    using ok(4) unfolding create_record_def result_bind result_try_Ok
    by (auto simp: assms(2) writeState_def created_state_def after_try_Ok)
  then show ?thesis using pid af by metis
qed

lemma step_create:
  assumes "small_pids K" "plain_id g cid" "result (cmdCreate E K g [''--bundle='' @ bundle, cid]) h = Ok ()"
  shows "\<exists>st. recorded g cid (after (cmdCreate E K g [''--bundle='' @ bundle, cid]) h) = Some st \<and> good_pid (Some st)
    \<and> cs_ID st = cid \<and> cs_Status st = ''created'' \<and> (bundle \<noteq> [] \<longrightarrow> cs_Bundle st = bundle)"
proof -
  let ?c = "\<lparr>c_bundle = bundle, c_pidFile = [], c_id = cid\<rparr>"
  let ?b = "result (bundle_dir K ?c) h" and ?h = "after (bundle_dir K ?c) h"
  have cmd: "cmdCreate E K g [''--bundle='' @ bundle, cid] =
      State_Monad.bind (bundle_dir K ?c) (\<lambda>b. try_io (readSpec K b) (create_fork E K g ?c b))"
    using assms(2) create_args_bundle [of cid] by (simp add: cmdCreate_def try_io_return plain_id_def)
  obtain spec where spec: "result (readSpec K ?b) ?h = Ok spec"
      "result (create_fork E K g ?c ?b spec) (after (readSpec K ?b) ?h) = Ok ()"
    using assms(3) unfolding cmd result_bind result_try_Ok by blast
  have af: "after (cmdCreate E K g [''--bundle='' @ bundle, cid]) h = after (create_fork E K g ?c ?b spec) (after (readSpec K ?b) ?h)"
    unfolding cmd result_bind using spec(1) by (rule after_try_Ok)
  obtain h' pid cg now r where w: "0 < pid" "pid < 2 ^ 31" "as_unit r = Ok ()"
      "after (cmdCreate E K g [''--bundle='' @ bundle, cid]) h = h' @
        [(WriteFile (state_file g cid) (json_print (enc_state (created_state E spec cid ?b pid cg now))) 384, r)]"
    using fork_writes_last [OF spec(2) _ assms(1)] unfolding af by auto
  let ?st = "created_state E spec cid ?b pid cg now"
  have st: "cs_ID ?st = cid" "cs_Status ?st = ''created''" "cs_Bundle ?st = ?b" "cs_InitPid ?st = pid"
    by (simp_all add: created_state_def)
  have good: "good_pid (Some ?st)" using w(1,2) by (simp add: good_pid_def st)
  have "recorded g cid (h' @ [(WriteFile (state_file g cid) (json_print (enc_state ?st)) 384, r)]) = Some ?st"
    using recorded_written [OF w(3) good st(1), of g h' 384] by (simp add: st)
  moreover have "bundle \<noteq> [] \<longrightarrow> ?b = bundle" by (simp add: bundle_dir_def)
  ultimately show ?thesis using w(4) st good by metis
qed

lemma run_cmd_step:
  assumes "reads_back K (state_file g cid)" "small_pids K" "plain_id g cid"
    and "own_record cid (recorded g cid h)" "good_pid (recorded g cid h)" "result (run_cmd E K g cid c) h = Ok ()"
  shows "life cid c (recorded g cid h) (recorded g cid (after (run_cmd E K g cid c) h))
    \<and> good_pid (recorded g cid (after (run_cmd E K g cid c) h))"
proof (cases c)
  case (Create b)
  have "result (cmdCreate E K g [''--bundle='' @ b, cid]) h = Ok ()" using assms(6) by (simp add: run_cmd_def Create)
  from step_create [OF assms(2,3) this] show ?thesis by (auto simp: run_cmd_def Create intro: life.create)
next
  case Start
  have "result (cmdStart K g [cid]) h = Ok ()" using assms(6) by (simp add: run_cmd_def Start)
  from step_start [OF assms(1,3,4,5) this] show ?thesis using assms(5) by (auto simp: run_cmd_def Start life_Start good_pid_def)
next
  case (Signal sig)
  have "result (cmdKill K g [cid, sig]) h = Ok ()" using assms(6) by (simp add: run_cmd_def Signal)
  from step_signal [OF assms(1,3) this] show ?thesis using assms(5) by (auto simp: run_cmd_def Signal intro: life.signal)
next
  case Query
  have "result (cmdState K g [cid]) h = Ok ()" using assms(6) by (simp add: run_cmd_def Query)
  from step_query [OF assms(1,3) this] show ?thesis using assms(5) by (auto simp: run_cmd_def Query intro: life.query)
next
  case (Delete force)
  let ?args = "if force then [''--force'', cid] else [cid]"
  have "fold delete_arg ?args (False, []) = (force, cid)"
    using assms(3) by (auto simp: delete_arg_def plain_id_def hasPrefix_def)
  moreover have "result (cmdDelete K g ?args) h = Ok ()" using assms(6) by (simp add: run_cmd_def Delete)
  ultimately have "recorded g cid (after (cmdDelete K g ?args) h) = None" using step_delete [OF assms(1,3)] by blast
  then show ?thesis by (simp add: run_cmd_def Delete life.delete good_pid_def)
qed

text \<open>C2 (the commands keep the contract): when the state file of a container is written by the runtime
  only and the kernel hands out pids that fit, every sequence of create, start, kill, state and delete
  commands that all succeed takes the recorded state of the container along a path of the abstract
  machine: start turns a recorded container into a running one, kill and state leave the record,
  delete ends without one.\<close>

theorem lifecycle_refines:
  assumes "reads_back K (state_file g cid)" "small_pids K" "plain_id g cid"
    and "own_record cid (recorded g cid h)" "good_pid (recorded g cid h)" "result (run_cmds E K g cid cs) h = Ok ()"
  shows "lives cid cs (recorded g cid h) (recorded g cid (after (run_cmds E K g cid cs) h))"
  using assms(4-6)
proof (induction cs arbitrary: h)
  case Nil
  then show ?case by (simp add: lives.none)
next
  case (Cons c cs)
  let ?h = "after (run_cmd E K g cid c) h"
  have r: "result (run_cmd E K g cid c) h = Ok ()" "result (run_cmds E K g cid cs) ?h = Ok ()"
    using Cons.prems(3) by (auto simp: result_try_Ok)
  have s: "life cid c (recorded g cid h) (recorded g cid ?h)" "good_pid (recorded g cid ?h)"
    using run_cmd_step [OF assms(1-3) Cons.prems(1,2) r(1)] by auto
  have "lives cid cs (recorded g cid ?h) (recorded g cid (after (run_cmds E K g cid cs) ?h))"
    using Cons.IH [OF life_own_record [OF s(1) Cons.prems(1)] s(2) r(2)] .
  then show ?case using lives.step [OF s(1)] r(1) by (simp add: after_try_Ok)
qed

text \<open>A kernel with one bundle at \<open>/b\<close> that otherwise reads back what was written.\<close>

definition storing :: kernel where
  "storing h c = (case c of
       ReadFile p \<Rightarrow> if p = path_join [''/b'', ''config.json''] then RData (json_print sample_config)
                    else (case file_at p h of Some s \<Rightarrow> RData s | None \<Rightarrow> RErr ENOENT)
     | _ \<Rightarrow> RInt 3)"

definition run_globals :: runtimeGlobals where "run_globals = \<lparr>g_root = ''/run'', g_log = []\<rparr>"
definition bare_env :: rt_env where "bare_env = \<lparr>e_time = (\<lambda>_. []), e_text = (\<lambda>_. []), e_environ = []\<rparr>"

lemma storing_files:
  "path_join [''/b'', ''config.json''] \<noteq> state_file run_globals ''web''" "plain_id run_globals ''web''"
  by (simp_all add: plain_id_def state_file_def run_globals_def beneath_def) code_simp+

lemma storing_kernel: "reads_back storing (state_file run_globals ''web'')" "small_pids storing"
  using storing_files(1) by (auto simp: reads_back_def small_pids_def storing_def)

lemma storing_unit: "storing h (Mkfifo p) = RInt 3" "storing h (MkdirAll p) = RInt 3" "storing h (WriteFile p s n) = RInt 3"
  "storing h (StartProcess a) = RInt 3" "storing h (OpenFile p f) = RInt 3" "storing h (CloseFd fd) = RInt 3"
  "storing h (RemoveAll p) = RInt 3" "storing h (Remove p) = RInt 3" "storing h Now = RInt 3"
  by (simp_all add: storing_def)

lemma storing_creates: "result (cmdCreate bare_env storing run_globals [''--bundle='' @ ''/b'', ''web'']) h = Ok ()"
proof -
  have "create_args_of [''--bundle='' @ ''/b'', ''web''] = Ok \<lparr>c_bundle = ''/b'', c_pidFile = [], c_id = ''web''\<rparr>"
    by (rule create_args_bundle) (simp add: hasPrefix_def)
  moreover have "result (readSpec storing ''/b'') h = Ok sample_spec" for h
    by (simp add: readSpec_def run_try_io storing_def sample_config_decodes) (simp add: sample_spec_def)
  ultimately show ?thesis
    by (simp add: cmdCreate_def try_io_return bundle_dir_def result_try_Ok create_fork_def create_record_def
        applyCgroup_def writeState_def storing_unit sample_spec_def spec0_def del: run_wrap_io)
qed

lemma storing_starts:
  assumes "recorded run_globals ''web'' h = Some st"
  shows "result (cmdStart storing run_globals [''web'']) h = Ok ()"
proof -
  have "result (readState storing run_globals ''web'') h = Ok st" using assms readState_recorded(1) [OF storing_kernel(1)] by blast
  moreover have "lastArg [''web''] = ''web''" by (simp add: lastArg_def hasPrefix_def)
  ultimately show ?thesis by (simp add: cmdStart_def Let_def result_try_Ok writeState_def storing_unit result_bind del: run_wrap_io)
qed

lemma storing_deletes: "result (cmdDelete storing run_globals [''web'']) h = Ok ()"
proof -
  have "fold delete_arg [''web''] (False, []) = (False, ''web'')" by (simp add: delete_arg_def hasPrefix_def)
  moreover obtain r where "result (readState storing run_globals ''web'') h = r" "r \<noteq> Panic" "r \<noteq> Hang"
    by (auto simp: readState_def state_unmarshal_returns split: res.splits)
  ultimately show ?thesis unfolding cmdDelete_def
    by (cases r) (auto simp: storing_unit case_prod_beta)
qed

theorem lifecycle_refines_witness:
  "lives ''web'' [Create ''/b'', Start, Delete False] (recorded run_globals ''web'' [])
     (recorded run_globals ''web'' (after (run_cmds bare_env storing run_globals ''web'' [Create ''/b'', Start, Delete False]) []))"
proof -
  let ?h = "after (cmdCreate bare_env storing run_globals [''--bundle='' @ ''/b'', ''web'']) []"
  obtain st where "recorded run_globals ''web'' ?h = Some st"
    using step_create [OF storing_kernel(2) storing_files(2) storing_creates] by blast
  from storing_starts [OF this]
  have "result (run_cmds bare_env storing run_globals ''web'' [Create ''/b'', Start, Delete False]) [] = Ok ()"
    using storing_creates [of "[]"] storing_deletes by (simp add: run_cmd_def result_try_Ok)
  then show ?thesis
    by (intro lifecycle_refines storing_kernel storing_files) (simp_all add: recorded_def file_at_def own_record_def good_pid_def)
qed

end
