(* ===== verification/Tools.thy ===== *)
theory Tools
  imports Bridges OciExec
begin

text \<open>
  The other programs of the repository: the two GPU probes (\<open>src/gpu-probe\<close>), each an init of its own
  image, and the merged containerd binary (\<open>src/scripts/containerd-merged\<close>), which is either the
  daemon or its client, whichever name it is called by. The two third-party applications are parameters.
\<close>

section \<open>Reading back what was written\<close>

text \<open>The tests of both probes differ in the device, the offset and the value. \<open>ReadAt\<close> fails when it reads fewer
  bytes than were asked for. An access to mapped memory that faults ends the process.\<close>

definition rw_at :: "kernel \<Rightarrow> string \<Rightarrow> nat \<Rightarrow> 32 word \<Rightarrow> bool res io" where
  "rw_at K dev off want =
     attempt (os_int K (OpenFile dev O_RDWR)) False (\<lambda>fd.
     defer_io (os_ignore K (CloseFd fd)) (
     attempt (os_unit K (PwriteFd fd off (le32 want))) False (\<lambda>_.
     attempt (os_bytes K (PreadFd fd off 4)) False (\<lambda>rb.
     ok_io (length rb = 4 \<and> get_le32 rb = want)))))"

definition mapLen :: nat where "mapLen = 0x10000"

definition no_fault :: "reply \<Rightarrow> bool" where
  "no_fault r = (case r of RErr e \<Rightarrow> False | _ \<Rightarrow> True)"

definition loaded :: "reply \<Rightarrow> 32 word res" where
  "loaded r = (case r of RBytes b \<Rightarrow> if length b = 4 then Ok (get_le32 b) else Hang | _ \<Rightarrow> Hang)"

definition mapped_access :: "kernel \<Rightarrow> int \<Rightarrow> nat \<Rightarrow> 32 word \<Rightarrow> bool res io" where
  "mapped_access K data off want =
     State_Monad.bind (os_as no_fault K (Poke data off (le32 want))) (\<lambda>stored.
     if \<not> stored then State_Monad.return Hang
     else try_io (os_as loaded K (Peek data off 4)) (\<lambda>got. ok_io (got = want)))"

definition mmap_at :: "kernel \<Rightarrow> string \<Rightarrow> nat \<Rightarrow> 32 word \<Rightarrow> bool res io" where
  "mmap_at K dev off want =
     attempt (os_int K (OpenFile dev O_RDWR)) False (\<lambda>fd.
     defer_io (os_ignore K (CloseFd fd)) (
     attempt (os_int K (Mmap fd mapLen)) False (\<lambda>data.
     defer_io (os_ignore K (Munmap data)) (mapped_access K data off want))))"

text \<open>Powering off: a process 1 that is still there afterwards loops forever.\<close>

definition poweroff :: "kernel \<Rightarrow> unit res io" where
  "poweroff K =
     State_Monad.bind (os_as (\<lambda>r. case r of RInt n \<Rightarrow> n | _ \<Rightarrow> 0) K Getpid) (\<lambda>pid.
     if pid = 1
     then State_Monad.bind (os_ignore K Sync) (\<lambda>_.
          State_Monad.bind (os_ignore K (Reboot 0x4321fedc)) (\<lambda>_. State_Monad.return Hang))
     else ok_io ())"


section \<open>The probe in user space\<close>

definition devPath :: string where "devPath = ''/dev/nvidia0''"

definition rwTest :: "kernel \<Rightarrow> bool res io" where
  "rwTest K = rw_at K devPath 0x4000 0xdeadbeef"

definition mmapTest :: "kernel \<Rightarrow> bool res io" where
  "mmapTest K = mmap_at K devPath 0x5000 0xcafef00d"

text \<open>Both tests run; the verdict is printed before the machine is powered off.\<close>

definition gpu_verdict :: "kernel \<Rightarrow> bool res io" where
  "gpu_verdict K = try_io (rwTest K) (\<lambda>rw. try_io (mmapTest K) (\<lambda>mm. ok_io (rw \<and> mm)))"

definition verdict_line :: "string \<Rightarrow> bool \<Rightarrow> string" where
  "verdict_line name ok = name @ (if ok then '': PASS'' else '': FAIL'')"

definition gpu_main :: "kernel \<Rightarrow> unit res io" where
  "gpu_main K = try_io (gpu_verdict K) (\<lambda>ok.
     State_Monad.bind (println K (verdict_line ''GPU-USERSPACE'' ok)) (\<lambda>_. poweroff K))"


section \<open>The probe in a container\<close>

definition devNode :: string where "devNode = ''/dev/nvidia0''"
definition nvMajor :: nat where "nvMajor = 195"
definition nvMinor :: nat where "nvMinor = 0"
definition childArg :: string where "childArg = ''container-child''"

definition gpuRW :: "kernel \<Rightarrow> bool res io" where
  "gpuRW K = rw_at K devNode 0x6000 0x1337c0de"

definition gpuMmap :: "kernel \<Rightarrow> bool res io" where
  "gpuMmap K = mmap_at K devNode 0x7000 0xb01dface"

definition private_dev :: "kernel \<Rightarrow> unit io" where
  "private_dev K =
     State_Monad.bind (os_ignore K (Mount [] ''/'' [] (msRec OR msPrivate) [])) (\<lambda>_.
     State_Monad.bind (os_unit K (Mount ''tmpfs'' ''/dev'' ''tmpfs'' 0 ''mode=0755'')) (\<lambda>r.
     if is_ok r then os_ignore K (Mknod devNode (0x2000 OR 438) (push_bit 8 nvMajor OR nvMinor)) else State_Monad.return ()))"

text \<open>The test of the mapping is run only if the first test succeeded; the exit status is 0 in any case.\<close>

definition gpu_child :: "kernel \<Rightarrow> bool res io" where
  "gpu_child K =
     State_Monad.bind (os_ignore K GetHostname) (\<lambda>_.
     State_Monad.bind (os_ignore K Getpid) (\<lambda>_.
     State_Monad.bind (os_unit K (Sethostname ''gpu-container'')) (\<lambda>r.
     State_Monad.bind (if is_ok r then os_ignore K GetHostname else State_Monad.return ()) (\<lambda>_.
     State_Monad.bind (private_dev K) (\<lambda>_.
     try_io (gpuRW K) (\<lambda>rw. if rw then gpuMmap K else ok_io False))))))"

definition gpu_runContainer :: "kernel \<Rightarrow> int res io" where
  "gpu_runContainer K = try_io (gpu_child K) (\<lambda>ok.
     State_Monad.bind (println K (verdict_line ''GPU-IN-CONTAINER'' ok)) (\<lambda>_. ok_io 0))"

definition gpu_process :: proc_attr where
  "gpu_process =
     \<lparr>pa_path = ''/sbin/init'', pa_argv = [''/sbin/init'', childArg], pa_env = [], pa_dir = [],
      pa_flags = CLONE_NEWNS OR CLONE_NEWUTS OR CLONE_NEWPID OR CLONE_NEWIPC, pa_chroot = [], pa_cred = None,
      pa_files = [0, 1, 2], pa_tty = False\<rparr>"

definition runParent :: "kernel \<Rightarrow> unit res io" where
  "runParent K =
     State_Monad.bind (os_int K (StartProcess gpu_process)) (\<lambda>r. case r of
         Ok pid \<Rightarrow> State_Monad.bind (os_ignore K (WaitProc pid)) (\<lambda>_. poweroff K)
       | _ \<Rightarrow> poweroff K)"

definition gpu_container_main :: "kernel \<Rightarrow> string list \<Rightarrow> int res io" where
  "gpu_container_main K argv =
     (if length argv > 1 \<and> argv ! 1 = childArg then gpu_runContainer K
      else try_io (runParent K) (\<lambda>_. ok_io 0))"


section \<open>The merged containerd binary\<close>

text \<open>An application takes the command line and returns an error message or none.\<close>

type_synonym app = "kernel \<Rightarrow> string list \<Rightarrow> string option io"

definition run_app :: "app \<Rightarrow> string \<Rightarrow> kernel \<Rightarrow> string list \<Rightarrow> int res io" where
  "run_app app name K argv =
     State_Monad.bind (app K argv) (\<lambda>err. case err of
         None \<Rightarrow> ok_io 0
       | Some e \<Rightarrow> State_Monad.bind (os_ignore K (WriteFd 2 (name @ '': '' @ e @ [CHR 0x0A]))) (\<lambda>_. ok_io 1))"

definition merged_main :: "app \<Rightarrow> app \<Rightarrow> kernel \<Rightarrow> string list \<Rightarrow> int res io" where
  "merged_main containerd_app ctr_app K argv = (case argv of
       [] \<Rightarrow> State_Monad.return Panic
     | arg0 # _ \<Rightarrow>
         if path_base arg0 = ''ctr'' then run_app ctr_app ''ctr'' K argv
         else run_app containerd_app ''containerd'' K argv)"


section \<open>A pass was read back\<close>

text \<open>The test of the device file succeeds only if the bytes that it wrote were read back from the same
  place; it closes the file on every path after opening it.\<close>

lemma rw_at_passes:
  assumes "result (rw_at K dev off want) h = Ok True"
  shows "\<exists>fd w c. events (rw_at K dev off want) h =
    [(OpenFile dev O_RDWR, RInt fd), (PwriteFd fd off (le32 want), w), (PreadFd fd off 4, RBytes (le32 want)), (CloseFd fd, c)]"
proof -
  obtain fd where o: "K h (OpenFile dev O_RDWR) = RInt fd"
    using assms by (cases "K h (OpenFile dev O_RDWR)") (auto simp: rw_at_def attempt_def)
  let ?h1 = "h @ [(OpenFile dev O_RDWR, RInt fd)]" and ?w = "PwriteFd fd off (le32 want)"
  obtain u where w: "as_unit (K ?h1 ?w) = Ok u"
    using assms o by (cases "as_unit (K ?h1 ?w)") (auto simp: rw_at_def attempt_def run_defer_io)
  let ?h2 = "?h1 @ [(?w, K ?h1 ?w)]"
  obtain rb where r: "K ?h2 (PreadFd fd off 4) = RBytes rb" "length rb = 4" "get_le32 rb = want"
    using assms o w by (cases "K ?h2 (PreadFd fd off 4)") (auto simp: rw_at_def attempt_def run_defer_io)
  have "rb = le32 want" using le32_get_le32 [OF r(2)] r(3) by simp
  then show ?thesis using o w r by (simp add: rw_at_def attempt_def run_defer_io events_def)
qed

text \<open>The same for the mapping, which is also undone.\<close>

lemma mmap_at_passes:
  assumes "result (mmap_at K dev off want) h = Ok True"
  shows "\<exists>fd data w u c. events (mmap_at K dev off want) h =
    [(OpenFile dev O_RDWR, RInt fd), (Mmap fd mapLen, RInt data), (Poke data off (le32 want), w),
     (Peek data off 4, RBytes (le32 want)), (Munmap data, u), (CloseFd fd, c)]"
proof -
  note run = mmap_at_def mapped_access_def attempt_def run_defer_io
  obtain fd where o: "K h (OpenFile dev O_RDWR) = RInt fd"
    using assms by (cases "K h (OpenFile dev O_RDWR)") (auto simp: run)
  let ?h1 = "h @ [(OpenFile dev O_RDWR, RInt fd)]"
  obtain data where m: "K ?h1 (Mmap fd mapLen) = RInt data"
    using assms o by (cases "K ?h1 (Mmap fd mapLen)") (auto simp: run)
  let ?h2 = "?h1 @ [(Mmap fd mapLen, RInt data)]" and ?w = "Poke data off (le32 want)"
  have w: "no_fault (K ?h2 ?w)" using assms o m by (auto simp: run split: if_splits)
  let ?h3 = "?h2 @ [(?w, K ?h2 ?w)]"
  have "loaded (K ?h3 (Peek data off 4)) = Ok want"
    using assms o m w by (cases "loaded (K ?h3 (Peek data off 4))") (auto simp: run run_try_io)
  then obtain rb where r: "K ?h3 (Peek data off 4) = RBytes rb" "length rb = 4" "get_le32 rb = want"
    by (auto simp: loaded_def split: reply.splits if_splits)
  have "rb = le32 want" using le32_get_le32 [OF r(2)] r(3) by simp
  then show ?thesis using o m w r by (simp add: run run_try_io events_def loaded_def)
qed


lemma grows_gpu [only_intros]: "grows (rw_at K dev off want)" "grows (mmap_at K dev off want)" "grows (poweroff K)"
  unfolding rw_at_def mmap_at_def mapped_access_def poweroff_def by (intro only_intros; simp)+

text \<open>The probe reports a pass only if both values were read back, one through the device file and one through
  the mapping.\<close>

lemma gpu_pass_read_back:
  assumes "WriteFd 1 (verdict_line ''GPU-USERSPACE'' True @ [CHR 0x0A]) \<in> set (made (gpu_main K) h)"
  shows "\<exists>fd data. (PreadFd fd 0x4000 4, RBytes (le32 0xdeadbeef)) \<in> set (events (gpu_main K) h)
    \<and> (Peek data 0x5000 4, RBytes (le32 0xcafef00d)) \<in> set (events (gpu_main K) h)"
proof -
  let ?t = "gpu_verdict K" and ?f = "\<lambda>ok. State_Monad.bind (println K (verdict_line ''GPU-USERSPACE'' ok)) (\<lambda>_. poweroff K)"
  have silent: "only (\<lambda>c. \<forall>s. c \<noteq> WriteFd 1 s) ?t"
    unfolding gpu_verdict_def rwTest_def mmapTest_def rw_at_def mmap_at_def mapped_access_def by (intro only_intros; simp)
  have g: "grows ?t" "grows (?f ok)" for ok
    by (rule only_mono [OF silent], simp) (auto simp: println_def intro!: only_intros)
  have "\<exists>ok. result ?t h = Ok ok"
    using assms only_made [OF silent, of _ h] unfolding gpu_main_def made_def
    by (cases "result ?t h") (auto simp: events_try_bad calls_def)
  then obtain ok where ok: "result ?t h = Ok ok" by blast
  have ev: "events (gpu_main K) h = events ?t h @ events (?f ok) (after ?t h)"
    unfolding gpu_main_def by (rule events_try_Ok [OF g ok])
  have "made (?f ok) (after ?t h) = WriteFd 1 (verdict_line ''GPU-USERSPACE'' ok @ [CHR 0x0A]) # made (poweroff K) (after (println K (verdict_line ''GPU-USERSPACE'' ok)) (after ?t h))"
    by (subst made_bind_grows) (auto simp: println_def intro!: only_intros)
  moreover have "only (\<lambda>c. \<forall>s. c \<noteq> WriteFd 1 s) (poweroff K)" unfolding poweroff_def by (intro only_intros; simp)
  ultimately have "ok"
    using assms only_made [OF silent, of _ h] only_made [of _ "poweroff K"] ev
    by (cases ok) (fastforce simp: made_def calls_def verdict_line_def)+
  then obtain h1 where "result (rw_at K devPath 0x4000 0xdeadbeef) h = Ok True" "h1 = after (rw_at K devPath 0x4000 0xdeadbeef) h"
      "result (mmap_at K devPath 0x5000 0xcafef00d) h1 = Ok True"
      "events ?t h = events (rw_at K devPath 0x4000 0xdeadbeef) h @ events (mmap_at K devPath 0x5000 0xcafef00d) h1"
    using ok unfolding gpu_verdict_def rwTest_def mmapTest_def
    by (auto simp: result_try_Ok events_try_Ok only_intros)
  then show ?thesis using rw_at_passes mmap_at_passes unfolding ev by fastforce
qed

text \<open>As process 1, a probe flushes the file systems, powers off and never returns.\<close>

lemma poweroff_ends:
  assumes "K h Getpid = RInt 1"
  shows "result (poweroff K) h = Hang \<and> made (poweroff K) h = [Getpid, Sync, Reboot 0x4321fedc]"
  using assms by (simp add: poweroff_def made_def events_def)

text \<open>The merged binary succeeds exactly when the application that its name selects does.\<close>

lemma merged_main_selects:
  "result (merged_main containerd_app ctr_app K (arg0 # args)) h =
     Ok (if result (if path_base arg0 = ''ctr'' then ctr_app K (arg0 # args) else containerd_app K (arg0 # args)) h = None then 0 else 1)"
  by (auto simp: merged_main_def run_app_def case_prod_beta split: option.splits)


end
