(* ===== verification/Reports.thy ===== *)
theory Reports
  imports Mounts Netlink
begin

text \<open>
  What the program prints where the text itself matters: the table of mounts, the banner, the live
  output of pods with its prefix, the report of a file of \<open>/proc\<close>, the line of the kubelet that is
  not in this build, and the small string and byte helpers that the code writes out itself. Text is
  the \<open>string\<close> that is written to the standard output. The text of an error is that of the standard
  library, a parameter \<open>errtext\<close>.
\<close>

section \<open>Helpers\<close>

text \<open>\<open>%-20s\<close>: padded with blanks on the right to twenty characters.\<close>

definition pad_right :: "nat \<Rightarrow> string \<Rightarrow> string" where
  "pad_right n s = s @ replicate (n - length s) (CHR '' '')"

text \<open>\<open>%q\<close> on printable ASCII.\<close>

definition go_quote :: "string \<Rightarrow> string" where
  "go_quote s = CHR 0x22 # concat (map (\<lambda>c. if c = CHR 0x22 \<or> c = CHR 0x5C then [CHR 0x5C, c] else [c]) s) @ [CHR 0x22]"

definition println :: "string \<Rightarrow> string" where
  "println s = s @ [CHR 0x0A]"

fun concat_parts :: "bytes \<Rightarrow> bytes list \<Rightarrow> bytes" where
  "concat_parts out [] = out"
| "concat_parts out (p # parts) = concat_parts (out @ p) parts"

definition blank :: "char \<Rightarrow> bool" where
  "blank c \<longleftrightarrow> c = CHR '' '' \<or> c = CHR 0x0A \<or> c = CHR 0x0D \<or> c = CHR 0x09"

function trim_start :: "string \<Rightarrow> nat \<Rightarrow> nat \<Rightarrow> nat" where
  "trim_start s start stop = (if start < stop \<and> blank (s ! start) then trim_start s (Suc start) stop else start)"
  by pat_completeness auto
termination by (relation "measure (\<lambda>(s, start, stop). stop - start)") auto

fun trim_end :: "string \<Rightarrow> nat \<Rightarrow> nat \<Rightarrow> nat" where
  "trim_end s start 0 = 0"
| "trim_end s start (Suc stop) = (if stop \<ge> start \<and> blank (s ! stop) then trim_end s start stop else Suc stop)"

declare trim_start.simps [simp del]

definition trimSpace_ascii :: "string \<Rightarrow> string" where
  "trimSpace_ascii s =
     (let start = trim_start s 0 (length s); stop = trim_end s start (length s)
      in take (stop - start) (drop start s))"

definition errnoStr :: "(goerr \<Rightarrow> string) \<Rightarrow> int \<Rightarrow> string" where
  "errnoStr errtext e = (if e = 0 then ''<nil>'' else errtext (Errno e))"


section \<open>Reports\<close>

definition report_line :: "(goerr \<Rightarrow> string) \<Rightarrow> mountResult \<Rightarrow> string" where
  "report_line errtext r =
     (let place = pad_right 20 (ms_target (mr_spec r)) @ '' ('' @ ms_fstype (mr_spec r) @ '')'' in
      println (if mr_skipped r then ''  [skip] '' @ place @ '': '' @ mr_note r
               else case mr_err r of
                   Some e \<Rightarrow> ''  [fail] '' @ place @ '': '' @ errtext e
                 | None \<Rightarrow> ''  [ ok ] '' @ place))"

definition report :: "(goerr \<Rightarrow> string) \<Rightarrow> mountResult list \<Rightarrow> string list" where
  "report errtext rs = println ''asterkube-init: mounting filesystems'' # map (report_line errtext) rs"

definition banner :: "string list" where
  "banner = (let line = replicate 60 (CHR ''='') in
     map println [[], line, '' asterkube-init: running as PID 1 on the Asterinas kernel'',
       '' Rust kernel + Go init, no C, no libc.'', line, []])"

definition runAsKubelet :: "string \<Rightarrow> string list" where
  "runAsKubelet label = map println
     [''asterkube-init: not running as PID 1; deferring to the normal kubelet entry point.'',
      ''asterkube-init: (kubelet pod-name label key is '' @ go_quote label @ '')'']"

definition probeProcFile :: "(goerr \<Rightarrow> string) \<Rightarrow> kernel \<Rightarrow> string \<Rightarrow> string \<Rightarrow> string io" where
  "probeProcFile errtext K label path =
     State_Monad.bind (os_data K (ReadFile path)) (\<lambda>r. State_Monad.return (case r of
         Err e \<Rightarrow> println (''  '' @ label @ '': unavailable ('' @ errtext e @ '')'')
       | Ok data \<Rightarrow> println (''  '' @ label @ '': '' @
           join_with '' '' (str_fields (map (\<lambda>c. if c = CHR 0x0A then CHR '' '' else c) data)))
       | _ \<Rightarrow> []))"

text \<open>The output of a pod: what is written for one chunk, and the count that is returned.\<close>

record prefixWriter =
  pw_prefix :: string

definition prefixWriter_Write :: "prefixWriter \<Rightarrow> string \<Rightarrow> string list \<times> nat" where
  "prefixWriter_Write w p =
     (map (\<lambda>line. println (pw_prefix w @ line)) (split_on (CHR 0x0A) (trimRight (CHR 0x0A) p)), length p)"


section \<open>Correctness of the helpers\<close>

lemma concat_parts_eq: "concat_parts out parts = out @ concat parts"
  by (induction parts arbitrary: out) simp_all

lemma pad_right_length: "length (pad_right n s) = max n (length s) \<and> take (length s) (pad_right n s) = s"
  by (simp add: pad_right_def)

lemma trim_start_eq: "k \<le> length s \<Longrightarrow> trim_start s k (length s) = k + length (takeWhile blank (drop k s))"
proof (induction s k "length s" rule: trim_start.induct)
  case (1 s k)
  show ?case
  proof (cases "k < length s \<and> blank (s ! k)")
    case True
    then have "drop k s = s ! k # drop (Suc k) s" by (simp add: Cons_nth_drop_Suc)
    then show ?thesis using True 1 by (subst trim_start.simps) simp
  next
    case False
    then have "takeWhile blank (drop k s) = []" using 1(2) by (cases "k < length s") (simp_all add: Cons_nth_drop_Suc [symmetric])
    then show ?thesis using False by (subst trim_start.simps) auto
  qed
qed

lemma trim_end_eq:
  "k \<le> n \<Longrightarrow> n \<le> length s \<Longrightarrow> take (trim_end s k n - k) (drop k s) = rev (dropWhile blank (rev (take (n - k) (drop k s))))"
proof (induction n)
  case (Suc n)
  show ?case
  proof (cases "k \<le> n")
    case True
    then have "take (Suc n - k) (drop k s) = take (n - k) (drop k s) @ [s ! n]"
      using Suc.prems by (simp add: Suc_diff_le take_Suc_conv_app_nth)
    then show ?thesis using Suc True by simp
  next
    case False
    then show ?thesis using Suc.prems by simp
  qed
qed simp

lemma trimSpace_ascii_eq: "trimSpace_ascii s = rev (dropWhile blank (rev (dropWhile blank s)))"
proof -
  let ?k = "length (takeWhile blank s)"
  have k: "trim_start s 0 (length s) = ?k" using trim_start_eq [of 0 s] by simp
  have "?k \<le> length s" by (rule length_takeWhile_le)
  then show ?thesis
    using trim_end_eq [of ?k "length s" s] unfolding trimSpace_ascii_def Let_def k by (simp add: dropWhile_eq_drop)
qed

text \<open>The helper that avoids the import of \<open>strings\<close> agrees with \<open>strings.TrimSpace\<close> on ASCII text
  without vertical tabs and form feeds.\<close>

lemma trimSpace_ascii_agrees:
  assumes "CHR 0x0B \<notin> set s" "CHR 0x0C \<notin> set s"
  shows "trimSpace_ascii s = trimSpace s"
proof -
  have same: "blank c = is_space c" if "c \<in> set s" for c
    using that assms by (auto simp: blank_def is_space_def)
  then have d: "dropWhile blank s = dropWhile is_space s" by (rule dropWhile_cong [OF refl])
  have "dropWhile blank (rev (dropWhile is_space s)) = dropWhile is_space (rev (dropWhile is_space s))"
    by (rule dropWhile_cong [OF refl]) (use same set_dropWhileD in fastforce)
  then show ?thesis unfolding trimSpace_ascii_eq trimSpace_def d by simp
qed

lemma trimSpace_ascii_differs: "trimSpace_ascii [CHR 0x0C] \<noteq> trimSpace [CHR 0x0C]"
  by (simp add: trimSpace_ascii_eq trimSpace_def blank_def is_space_def)


section \<open>Correctness of the reports\<close>

text \<open>The table has one line per file system, in the order of the attempts, and its mark tells what
  happened.\<close>

lemma mountAll_specs: "map mr_spec (result (mountAll K specs) h) = specs"
proof -
  have "mr_spec (result (mountOne K s) h) = s" for s h
    unfolding mountOne_defs by (simp add: skip_result_def try_mount_def case_prod_beta)
  then show ?thesis unfolding mountAll_def by (induction specs arbitrary: h) (simp_all add: traverse_Cons_run del: State_Monad.traverse_list.simps(2))
qed


definition mark :: "string \<Rightarrow> string" where
  "mark line = take 8 line"

text \<open>A file system is reported as mounted exactly when the attempt was neither skipped nor refused.\<close>

lemma report_line_mark:
  "mark (report_line errtext r) = (if mr_skipped r then ''  [skip]'' else if mr_err r \<noteq> None then ''  [fail]'' else ''  [ ok ]'')"
  by (auto simp: mark_def report_line_def println_def Let_def split: option.splits)

lemma report_mounts:
  "length (report errtext (result (mountAll K specs) h)) = Suc (length specs)"
  "i < length specs \<Longrightarrow>
     \<exists>r. result (mountAll K specs) h ! i = r \<and> mr_spec r = specs ! i
       \<and> report errtext (result (mountAll K specs) h) ! Suc i = report_line errtext r
       \<and> (mark (report_line errtext r) = ''  [ ok ]'' \<longleftrightarrow> \<not> mr_skipped r \<and> mr_err r = None)"
proof -
  have l: "length (result (mountAll K specs) h) = length specs"
    using arg_cong [OF mountAll_specs [of K specs h], of length] by simp
  then show "length (report errtext (result (mountAll K specs) h)) = Suc (length specs)" by (simp add: report_def)
  assume i: "i < length specs"
  then have "mr_spec (result (mountAll K specs) h ! i) = specs ! i"
    using l arg_cong [OF mountAll_specs [of K specs h], of "\<lambda>xs. xs ! i"] by simp
  then show "\<exists>r. result (mountAll K specs) h ! i = r \<and> mr_spec r = specs ! i
       \<and> report errtext (result (mountAll K specs) h) ! Suc i = report_line errtext r
       \<and> (mark (report_line errtext r) = ''  [ ok ]'' \<longleftrightarrow> \<not> mr_skipped r \<and> mr_err r = None)"
    using i l by (simp add: report_def report_line_mark)
qed

text \<open>The report of a file is one line, whatever the file contains.\<close>

lemma str_fields_no_newline: "CHR 0x0A \<notin> set (join_with '' '' (str_fields s))"
proof -
  have "CHR 0x0A \<notin> set (join_with '' '' ws)" if "list_all (\<lambda>w. CHR 0x0A \<notin> set w) ws" for ws
    using that by (induction ws rule: induct_list012) auto
  moreover have "list_all (\<lambda>w. CHR 0x0A \<notin> set w) (str_fields s)"
    unfolding list_all_iff
  proof
    fix w assume "w \<in> set (str_fields s)"
    then have "\<forall>c \<in> set w. \<not> is_space c" using fields_words by blast
    moreover have "is_space (CHR 0x0A)" by (simp add: is_space_def)
    ultimately show "CHR 0x0A \<notin> set w" by blast
  qed
  ultimately show ?thesis by blast
qed

lemma probeProcFile_made: "made (probeProcFile errtext K label path) h = [ReadFile path]"
  by (simp add: probeProcFile_def made_def events_def)

lemma probeProcFile_line:
  assumes "K h (ReadFile path) = RData data" "CHR 0x0A \<notin> set label"
  shows "\<exists>line. result (probeProcFile errtext K label path) h = line @ [CHR 0x0A] \<and> CHR 0x0A \<notin> set line"
  using assms str_fields_no_newline by (simp add: probeProcFile_def println_def)

text \<open>The writer returns the length of the chunk, as \<open>io.Writer\<close> asks. Every line has the prefix; without
  it, the lines are the chunk up to the line feeds at its end, so nothing else is lost.\<close>

lemma prefixWriter_lossless:
  "snd (prefixWriter_Write w p) = length p"
  "\<exists>ls. fst (prefixWriter_Write w p) = map (\<lambda>l. println (pw_prefix w @ l)) ls
     \<and> list_all (\<lambda>l. CHR 0x0A \<notin> set l) ls \<and> join_with [CHR 0x0A] ls = trimRight (CHR 0x0A) p"
  using split_on_parts_free [of _ "CHR 0x0A" "trimRight (CHR 0x0A) p"]
  by (auto simp: prefixWriter_Write_def join_split list_all_iff intro!: exI [of _ "split_on (CHR 0x0A) (trimRight (CHR 0x0A) p)"])

text \<open>A chunk of whole lines is printed line by line, with the blank lines at its end dropped; a line that arrives in two
  chunks is printed as two lines.\<close>

lemma prefixWriter_whole_lines:
  assumes "list_all (\<lambda>l. CHR 0x0A \<notin> set l) (ls @ [l])" "l \<noteq> []"
  shows "fst (prefixWriter_Write w (concat (map println (ls @ [l])) @ replicate n (CHR 0x0A))) =
     map (\<lambda>l. println (pw_prefix w @ l)) (ls @ [l])"
proof -
  let ?nl = "CHR 0x0A"
  have r: "dropWhile ((=) ?nl) (replicate n ?nl @ xs) = dropWhile ((=) ?nl) xs" for n and xs :: string by (induction n) simp_all
  obtain y ys where l: "l = ys @ [y]" "y \<noteq> ?nl" using assms by (cases l rule: rev_cases) auto
  have "trimRight ?nl (concat (map println (ls @ [l])) @ replicate n ?nl) = concat (map println ls) @ l"
    using l by (simp add: trimRight_def println_def r)
  moreover have "split_on ?nl (concat (map println ls) @ l) = ls @ [l]"
    using assms(1) by (induction ls) (simp_all add: println_def split_on_append_sep split_on_no_sep)
  ultimately show ?thesis by (simp add: prefixWriter_Write_def)
qed

lemma prefixWriter_split_line:
  "fst (prefixWriter_Write \<lparr>pw_prefix = ''p| ''\<rparr> ''ab'') @ fst (prefixWriter_Write \<lparr>pw_prefix = ''p| ''\<rparr> (println ''c''))
     = [println ''p| ab'', println ''p| c'']"
  "fst (prefixWriter_Write \<lparr>pw_prefix = ''p| ''\<rparr> (println ''abc'')) = [println ''p| abc'']"
  by code_simp+


end
