(* ===== verification/Spec2Isabelle.thy ===== *)
theory Spec2Isabelle
  imports LiveNode OciLifecycle Tools Reports
begin

text \<open>
  Verification of asterkube, a Linux-compatible node whose PID 1 (\<open>src/cmd/asterkube-init\<close>, one Go
  binary) mounts the file systems, configures the network, is its own OCI runtime and runs pods.

  \<^bold>\<open>The program and its model.\<close> The binary talks to the kernel through system calls and to
  nothing else that matters here. The kernel is not part of the sources, so every operation takes it
  as the parameter \<open>K\<close>: a function from the history of calls so far and the next call to its reply
  (theory OsModel). An operation runs in the state monad over that history; its value is an \<open>'a res\<close>:
  \<open>Ok\<close>, a Go error, \<open>Panic\<close>, or \<open>Hang\<close> for fuel that ran out or a process that is gone. What an
  operation did is the list of calls that it appended (\<open>made\<close>, \<open>events\<close>), so the theorems speak about
  the order of calls, about every branch on a reply and about what is left undone after an error.
  Console output is not a call, except where it is the result of a command.

  \<^bold>\<open>Theories, in the order in which they build on each other.\<close>
  \<^item> Prelude: lemmas on lists, options, bytes and words, and the collections that the proofs use.
  \<^item> GoLib: what the sources use of \<open>strings\<close>, \<open>strconv\<close>, \<open>path/filepath\<close>, \<open>net\<close> and slices.
  \<^item> OsModel: calls, replies, the monad, footprints (\<open>only\<close>) and runs of composed operations.
  \<^item> Polling: clocks and the locale \<open>poll_loop\<close> of loops that wait for a datagram until a deadline, interpreted
    for the DHCP client and the echo test; Icmp (\<open>probe_linux.go\<close>): the checksum and the echo test.
  \<^item> MountApplet (\<open>mount_applet_linux.go\<close>): the mount and umount commands; Mounts (\<open>mount_linux.go\<close>,
    \<open>fstab_linux.go\<close>): the mounts at boot. The interface of option words is the locale \<open>option_words\<close>,
    interpreted for the applet and for the runtime.
  \<^item> Netlink (\<open>netlink_linux.go\<close>): framing, attributes, acknowledgments, dumps and requests.
  \<^item> Dhcp (\<open>dhcp_linux.go\<close>): packets, options, the exchange, renewal and lease times; DhcpClient: the states
    and steps of an RFC 2131 client as a step relation, and that the client refines it. Simulation: the rules
    of such a refinement, proved in the locale \<open>protocol\<close> and interpreted for the DHCP client.
  \<^item> Json: \<open>encoding/json\<close> as a printer and a parser, with its round trip, and the decoding rules
    of structs; OciSpec: the structs of \<open>ociruntime_linux.go\<close> and \<open>runc_exec_linux.go\<close>.
  \<^item> OciRuntime (\<open>ociruntime_linux.go\<close>): create, the container init, start, state, kill, delete;
    OciExec (\<open>runc_exec_linux.go\<close>): exec, the command line and the dispatch; OciLifecycle: the
    abstract machine of a container's life, and that the commands refine it.
  \<^item> Service (\<open>service_linux.go\<close>, \<open>masq_linux.go\<close>): service rules, clients and backends.
  \<^item> Node (\<open>node.go\<close>, \<open>tenant_adapter_linux.go\<close>): manifests, launching one pod, waiting for it, labels;
    Bridges: groups of pods on bridges, under any schedule of their goroutines, and the agent;
    PodContainer: what runs inside a pod, and a pod and its node side by side.
  \<^item> ClusterJoin (\<open>boot_args_join_linux.go\<close>, \<open>join_bundle_linux.go\<close>, \<open>cni_setup_linux.go\<close>,
    \<open>ca_bundle_linux.go\<close>): trust in the cluster's certificate, finding a join bundle, the daemons.
  \<^item> Triples: outcomes of composed operations (\<open>ends\<close>), relations that they keep (\<open>keeps\<close>), and the locale
    \<open>timed_loop\<close> of loops that look at something until a deadline, interpreted for three loops of Daemons.
  \<^item> Daemons (\<open>runtime_linux.go\<close>, \<open>runc_linux.go\<close>, \<open>containerd_linux.go\<close>, \<open>cri_linux.go\<close>, \<open>kubelet_linux.go\<close>,
    \<open>kubelet_apiserver_linux.go\<close>, \<open>zeroc_containerd_linux.go\<close>): the phases that drive runc, containerd, the CRI and
    the kubelet. The locale \<open>process_claim\<close> is interpreted for three statements about processes.
  \<^item> SecurityProbes (the seccomp, access-control, user-namespace, rootless, volume and sandbox probes): both
    sides of each probe, parent and re-executed child; KernelProbes (\<open>probe_linux.go\<close>,
    \<open>netfilter_probe_linux.go\<close>, \<open>shebang_probe_linux.go\<close>, \<open>wan_linux.go\<close>, \<open>clusterip_probe_linux.go\<close>).
  \<^item> Init (\<open>main.go\<close>, \<open>persist_linux.go\<close>): the roles of the binary, the persistent node and the shutdown;
    Boot (\<open>main.go\<close>, \<open>oci_selftest_linux.go\<close>): \<open>runAsInit\<close> and \<open>main\<close>, the composition of everything above, with the
    locale \<open>carried\<close> for facts that later calls cannot undo; LiveNode: the program interleaved with the two
    goroutines that run beside it, the renewal of the lease and the probe of the cluster's address.
  \<^item> Reports (\<open>mount_linux.go\<close>, \<open>node.go\<close>, \<open>probe_linux.go\<close>, \<open>kubelet_entry_stub.go\<close> and others): texts that the
    program prints, and the helpers on strings and bytes that the code writes out itself.
  \<^item> Tools (\<open>src/gpu-probe\<close>, \<open>src/scripts/containerd-merged\<close>): the GPU probes and the merged containerd binary.
  \<^item> This theory: properties that span components.

  \<^bold>\<open>What the theorems show.\<close> Wire formats: what is sent parses back to what was meant (netlink
  frames and attributes, DHCP options, state files). Soundness of waits: an acknowledgment, a DHCP
  reply or a service reply is accepted only if it belongs to the request; the waits return. Confinement:
  a user process runs only after the root was entered and start was called; exec starts processes only
  in a running container, with its root; a pod's process is in its limited control group before it is
  released. Order: limits before membership, labels before pods and their removal after them, for every
  schedule; terminate, wait, kill, flush and power off at the end, whatever the background does meanwhile. Agreement of components: service rules
  and listening ports, labels of node and container. Refinement: the commands of the OCI runtime implement
  the abstract life of a container, and the DHCP client the machine of RFC 2131 with its timers, apart from two
  steps that are written out. Trust: a cluster is joined over TLS only with a certificate
  whose key has the given hash, unless the command line waives it. Ownership: what the runtime tests leave
  running is kept by the node, and at the end of the boot the init signals only processes that the boot has
  started. Probes: the seccomp filter decides as intended on every machine that follows the documented
  rules; mounts, control groups and the mode of the access control are restored, with the exceptions that
  are stated as lemmas. Decoding: any bytes give an error or a value that fits its Go type.

  \<^bold>\<open>Fuel and bounds.\<close> A loop that ends only when the kernel says so (receiving datagrams, serving
  requests) has fuel; \<open>Hang\<close> means that it is still waiting. The theorems about waits show either
  that enough fuel gives the answer (\<open>recvAck_answered\<close>, \<open>recvDHCP_returns\<close>) or that the answer, when there is
  one, is right. All other recursion is total. Integers that can overflow are words or wrapped
  explicitly (lease times, memory limits, sequence numbers, flags).

  \<^bold>\<open>Not modelled.\<close> The third-party programs that the binary starts (runc, containerd, the CRI client,
  the kubelet) are behind the kernel interface: starting one, or running one to its end within a time limit, is a
  call with a reply. Most reports on the console are left out, as nothing reads them. The cryptographic packages
  are parameters. The scripts are left out, and so is the kernel, a submodule that the sources do not contain.
  Scheduling inside one operation is sequential; goroutines occur where the pods of a group run, as a parameter
  \<open>par\<close> with the property \<open>concurrent\<close>, and beside the whole program, as interleavings of its calls with those
  of the background. Two threads share no variable of the model; what they share is the kernel.
\<close>

section \<open>Services\<close>

lemma itoa_nat: "itoa (int k) = nat_digits k"
  by (simp add: itoa_def)

lemma backend_port_read:
  "ServiceRole n \<noteq> [] \<Longrightarrow> 0 < BackendPort n \<Longrightarrow> BackendPort n < 2 ^ 63 \<Longrightarrow>
   backendListenPort (bridged_env spec n) = BackendPort n"
  by (simp add: backendListenPort_def env_port_def backend_port_env atoi_itoa)

definition dnat_rule :: "32 word \<Rightarrow> 32 word \<Rightarrow> int \<Rightarrow> int \<Rightarrow> call" where
  "dnat_rule vip backend port proto =
     Prctl prAsterkubeDNAT (uint vip) (uint backend) (uint (dnat_ports serviceVPort port)) proto"

lemma serviceVIP_word: "ip4ToU32 serviceVIP = Some 0x0A60000A"
  by code_simp

lemma made_logged:
  assumes "grows m" "\<And>u. grows (f u)" "result m h \<noteq> Panic" "result m h \<noteq> Hang"
  shows "made (logged m f) h = made m h @ made (f ()) (after m h)"
proof -
  have "made (logged m f) h = made m h @ made (try_io (State_Monad.return (ignore_err (result m h))) f) (after m h)"
    unfolding logged_def using assms(1,2) by (intro made_bind_grows) (auto intro!: only_intros)
  also have "ignore_err (result m h) = Ok ()"
    using assms(3,4) by (auto simp: ignore_err_def split: res.splits)
  finally show ?thesis using assms(2) by (simp add: made_try_Ok only_intros)
qed

lemma grows_addServiceDNAT [only_intros]: "grows (addServiceDNAT K vip vport backend port proto)"
  by (rule grows_quiet [OF quiet_addServiceDNAT])

lemma made_rule:
  assumes "ip4ToU32 backend = Some b" "\<And>u. grows (f u)"
  shows "made (logged (addServiceDNAT K serviceVIP serviceVPort backend port proto) f) h =
    dnat_rule 0x0A60000A b port proto # made (f ()) (after (addServiceDNAT K serviceVIP serviceVPort backend port proto) h)"
  using assms
  by (subst made_logged) (auto simp: addServiceDNAT_def serviceVIP_word dnat_rule_def intro!: only_intros)



text \<open>A backend without a port is given rules for the ports 0, 2 and 1, while its container listens on the
  default ports.\<close>

lemma unset_backend_port:
  assumes "ServiceRole n \<noteq> []" "BackendPort n = 0" "ip4ToU32 (PodIP n) = Some b"
  shows "made (dnat_rules K n) h =
      [dnat_rule 0x0A60000A b 0 serviceProtoUDP, dnat_rule 0x0A60000A b 2 serviceProtoUDP, dnat_rule 0x0A60000A b 1 serviceProtoTCP]"
    and "udpEndpointPorts (bridged_env spec n) = [9097, 9099]"
proof -
  show "made (dnat_rules K n) h =
      [dnat_rule 0x0A60000A b 0 serviceProtoUDP, dnat_rule 0x0A60000A b 2 serviceProtoUDP, dnat_rule 0x0A60000A b 1 serviceProtoTCP]"
    unfolding dnat_rules_def using assms(2) by (simp add: made_rule [OF assms(3)] only_intros)
  have "backendListenPort (bridged_env spec n) = 9097"
    using assms(1,2) atoi_itoa [of 0] by (simp add: backendListenPort_def env_port_def backend_port_env)
  then show "udpEndpointPorts (bridged_env spec n) = [9097, 9099]" by (simp add: udpEndpointPorts_def Let_def)
qed


section \<open>Tenants\<close>



end
